(* ===== verification/CentralD_Prelude.thy ===== *)
theory CentralD_Prelude
  imports Main "HOL-Library.Word" "HOL-Library.Product_Lexorder" "HOL-Library.Multiset"
begin

text \<open>
  Shared vocabulary of the development: the Rust types the crates pass around (UUIDs, UTC
  instants, byte vectors, UTF-8 strings, \<^verbatim>\<open>serde_json::Value\<close>, \<^verbatim>\<open>tonic::Status\<close>), the standard
  library routines the sources call on them (\<^verbatim>\<open>slice::split\<close>, \<^verbatim>\<open>rposition\<close>,
  \<^verbatim>\<open>char::is_control\<close>, \<^verbatim>\<open>str::trim\<close>, \<^verbatim>\<open>u32::to_be_bytes\<close>), a runner for sequences of
  operations, and the generic lemmas that the component theories share.
\<close>

section \<open>Types\<close>

text \<open>
  A \<^verbatim>\<open>Uuid\<close> is its 128 bits (its order is the unsigned one). A \<^verbatim>\<open>DateTime<Utc>\<close> is the number of
  nanoseconds since the Unix epoch; a \<^verbatim>\<open>chrono::Duration\<close> is a difference of two of them. A Rust
  string is its UTF-8 bytes as an Isabelle \<^typ>\<open>string\<close>, so that \<^const>\<open>length\<close> is \<^verbatim>\<open>str::len\<close>.
\<close>

type_synonym uuid = "128 word"
type_synonym instant = int
type_synonym byte = "8 word"
type_synonym bytes = "8 word list"

definition nanos_per_second :: int where
  "nanos_per_second = 1000000000"

definition secs :: "int \<Rightarrow> int" where
  "secs n = n * nanos_per_second"

text \<open>\<^verbatim>\<open>Duration::num_seconds\<close> rounds towards zero.\<close>

definition num_seconds :: "int \<Rightarrow> int" where
  "num_seconds d = (if d < 0 then - ((- d) div nanos_per_second) else d div nanos_per_second)"

lemma num_seconds_le_zero_iff: "num_seconds d \<le> 0 \<longleftrightarrow> d < nanos_per_second"
proof (cases "d < 0")
  case True
  then have "0 \<le> (- d) div nanos_per_second"
    by (simp add: nanos_per_second_def)
  with True show ?thesis by (simp add: num_seconds_def nanos_per_second_def)
next
  case False
  then show ?thesis
    by (simp add: num_seconds_def nanos_per_second_def) linarith
qed

lemma num_seconds_gt_iff: "0 \<le> n \<Longrightarrow> num_seconds d > n \<longleftrightarrow> d \<ge> secs (n + 1)"
proof (cases "d < 0")
  case True
  then have "0 \<le> (- d) div nanos_per_second"
    by (simp add: nanos_per_second_def)
  moreover assume "0 \<le> n"
  ultimately show ?thesis using True
    by (simp add: num_seconds_def secs_def nanos_per_second_def)
next
  case False
  assume "0 \<le> n"
  with False show ?thesis
    by (simp add: num_seconds_def secs_def nanos_per_second_def) linarith
qed

text \<open>\<^verbatim>\<open>serde_json::Value\<close>.\<close>

datatype json = JNull | JBool bool | JNum int | JStr string | JArr "json list"
  | JObj "(string \<times> json) list"

fun json_get :: "string \<Rightarrow> json \<Rightarrow> json option" where
  "json_get k (JObj kvs) = map_of kvs k"
| "json_get k _ = None"

fun json_as_str :: "json \<Rightarrow> string option" where
  "json_as_str (JStr s) = Some s"
| "json_as_str _ = None"

text \<open>\<^verbatim>\<open>tonic::Status\<close>: a gRPC code and its message.\<close>

datatype grpc_code = InvalidArgument | NotFound | AlreadyExists | PermissionDenied
  | ResourceExhausted | FailedPrecondition | Aborted | Cancelled | DeadlineExceeded
  | Internal | Unavailable | Unauthenticated

type_synonym status = "grpc_code \<times> string"

abbreviation internal_status :: status where
  "internal_status \<equiv> (Internal, ''internal server error'')"

section \<open>Results\<close>

definition is_ok :: "'e + 'a \<Rightarrow> bool" where
  "is_ok r = (case r of Inl _ \<Rightarrow> False | Inr _ \<Rightarrow> True)"

lemma is_ok_simps [simp]: "\<not> is_ok (Inl e)" "is_ok (Inr x)"
  by (simp_all add: is_ok_def)

lemma is_ok_iff: "is_ok r \<longleftrightarrow> (\<exists>x. r = Inr x)"
  by (cases r) simp_all

lemma not_is_ok_iff: "\<not> is_ok r \<longleftrightarrow> (\<exists>e. r = Inl e)"
  by (cases r) simp_all

section \<open>Sequences of operations\<close>

text \<open>Runs a stateful operation over a list of inputs, collecting the results.\<close>

fun run_ops :: "('s \<Rightarrow> 'o \<Rightarrow> 'r \<times> 's) \<Rightarrow> 's \<Rightarrow> 'o list \<Rightarrow> 'r list \<times> 's" where
  "run_ops f s [] = ([], s)"
| "run_ops f s (x # xs) =
     (let (r, s') = f s x; (rs, s'') = run_ops f s' xs in (r # rs, s''))"

lemma run_ops_length [simp]: "length (fst (run_ops f s xs)) = length xs"
  by (induction xs arbitrary: s) (simp_all add: Let_def case_prod_beta)

lemma run_ops_append:
  "run_ops f s (xs @ ys) =
     (let (rs, s') = run_ops f s xs; (rs', s'') = run_ops f s' ys in (rs @ rs', s''))"
  by (induction xs arbitrary: s) (simp_all add: Let_def case_prod_beta)

lemma run_ops_invariant:
  assumes "\<And>s x. I s \<Longrightarrow> I (snd (f s x))" and "I s"
  shows "I (snd (run_ops f s xs))"
  using assms(2)
proof (induction xs arbitrary: s)
  case Nil
  then show ?case by simp
next
  case (Cons x xs)
  have "I (snd (f s x))" using Cons.prems by (rule assms(1))
  then have "I (snd (run_ops f (snd (f s x)) xs))" by (rule Cons.IH)
  then show ?case by (simp add: Let_def case_prod_beta)
qed

section \<open>Standard-library routines on slices\<close>

text \<open>\<^verbatim>\<open>slice.split(|b| *b == sep)\<close>: always at least one piece.\<close>

fun split_on :: "'a \<Rightarrow> 'a list \<Rightarrow> 'a list list" where
  "split_on sep [] = [[]]"
| "split_on sep (x # xs) =
     (if x = sep then [] # split_on sep xs
      else (case split_on sep xs of [] \<Rightarrow> [[x]] | p # ps \<Rightarrow> (x # p) # ps))"

lemma split_on_not_Nil [simp]: "split_on sep xs \<noteq> []"
  by (cases xs) (simp_all split: list.split)

lemma split_on_no_sep: "sep \<notin> set xs \<Longrightarrow> split_on sep xs = [xs]"
  by (induction xs) auto

lemma split_on_append_sep:
  "sep \<notin> set xs \<Longrightarrow> split_on sep (xs @ sep # ys) = xs # split_on sep ys"
  by (induction xs) auto

lemma split_on_terminated:
  "split_on sep (xs @ sep # ys) = split_on sep xs @ split_on sep ys"
proof (induction xs)
  case Nil
  then show ?case by simp
next
  case (Cons x xs)
  then show ?case
    by (cases "split_on sep xs") (simp_all add: split_on_not_Nil)
qed

text \<open>
  The journals are lists of lines, each closed by a newline. \<open>unlines\<close> is the file that such a
  list of line bodies makes.
\<close>

definition newline :: byte where
  "newline = 10"

definition unlines :: "bytes list \<Rightarrow> bytes" where
  "unlines ls = concat (map (\<lambda>l. l @ [newline]) ls)"

lemma unlines_simps [simp]:
  "unlines [] = []" "unlines (l # ls) = l @ newline # unlines ls"
  "unlines (ls @ ls') = unlines ls @ unlines ls'"
  by (simp_all add: unlines_def)

lemma split_on_unlines:
  "\<forall>l \<in> set ls. newline \<notin> set l \<Longrightarrow> split_on newline (unlines ls @ t) = ls @ split_on newline t"
  by (induction ls) (simp_all add: split_on_append_sep)

lemma last_unlines: "ls \<noteq> [] \<Longrightarrow> last (unlines ls) = newline"
  by (induction ls rule: rev_induct) simp_all

lemma unlines_eq_Nil [simp]: "unlines ls = [] \<longleftrightarrow> ls = []"
  by (cases ls) simp_all

text \<open>\<^verbatim>\<open>iter().rposition(p)\<close>: the index of the last element that satisfies the predicate.\<close>

fun rposition :: "('a \<Rightarrow> bool) \<Rightarrow> 'a list \<Rightarrow> nat option" where
  "rposition p [] = None"
| "rposition p (x # xs) =
     (case rposition p xs of Some i \<Rightarrow> Some (Suc i) | None \<Rightarrow> (if p x then Some 0 else None))"

lemma rposition_None: "(\<forall>x \<in> set xs. \<not> p x) \<Longrightarrow> rposition p xs = None"
  by (induction xs) auto

lemma rposition_append_last:
  "p x \<Longrightarrow> (\<forall>y \<in> set ys. \<not> p y) \<Longrightarrow> rposition p (xs @ x # ys) = Some (length xs)"
  by (induction xs) (simp_all add: rposition_None)

text \<open>\<^verbatim>\<open>u8::is_ascii_whitespace\<close>: space, tab, line feed, form feed, carriage return.\<close>

definition is_ascii_whitespace :: "byte \<Rightarrow> bool" where
  "is_ascii_whitespace b \<longleftrightarrow> b \<in> {32, 9, 10, 12, 13}"

definition blank_line :: "bytes \<Rightarrow> bool" where
  "blank_line l \<longleftrightarrow> list_all is_ascii_whitespace l"

lemma blank_line_Nil [simp]: "blank_line []"
  by (simp add: blank_line_def)

section \<open>Standard-library routines on strings\<close>

text \<open>
  \<^verbatim>\<open>s.chars().any(char::is_control)\<close> on UTF-8 bytes: the control characters are U+0000 to U+001F,
  U+007F, and U+0080 to U+009F, which are encoded as \<^verbatim>\<open>C2 80\<close> to \<^verbatim>\<open>C2 9F\<close>.
\<close>

fun has_control_codes :: "nat list \<Rightarrow> bool" where
  "has_control_codes [] = False"
| "has_control_codes (x # xs) =
     (x < 32 \<or> x = 127 \<or>
      (x = 194 \<and> (case xs of [] \<Rightarrow> False | y # _ \<Rightarrow> 128 \<le> y \<and> y < 160)) \<or>
      has_control_codes xs)"

definition has_control :: "string \<Rightarrow> bool" where
  "has_control s = has_control_codes (map of_char s)"

text \<open>
  \<^verbatim>\<open>str::trim\<close> removes the characters of the Unicode class White_Space at both ends: one byte
  (09 to 0D, 20), two bytes (C2 85, C2 A0) or three bytes (E1 9A 80, E2 80 80 to E2 80 8A,
  E2 80 A8, E2 80 A9, E2 80 AF, E2 81 9F, E3 80 80).
\<close>

definition is_space1 :: "nat \<Rightarrow> bool" where
  "is_space1 x \<longleftrightarrow> (9 \<le> x \<and> x \<le> 13) \<or> x = 32"

definition is_space2 :: "nat \<Rightarrow> nat \<Rightarrow> bool" where
  "is_space2 x y \<longleftrightarrow> x = 194 \<and> (y = 133 \<or> y = 160)"

definition is_space3 :: "nat \<Rightarrow> nat \<Rightarrow> nat \<Rightarrow> bool" where
  "is_space3 x y z \<longleftrightarrow>
     (x = 225 \<and> y = 154 \<and> z = 128) \<or>
     (x = 226 \<and> y = 128 \<and> ((128 \<le> z \<and> z \<le> 138) \<or> z = 168 \<or> z = 169 \<or> z = 175)) \<or>
     (x = 226 \<and> y = 129 \<and> z = 159) \<or>
     (x = 227 \<and> y = 128 \<and> z = 128)"

fun trim_start_codes :: "nat list \<Rightarrow> nat list" where
  "trim_start_codes (x # y # z # r) =
     (if is_space1 x then trim_start_codes (y # z # r)
      else if is_space2 x y then trim_start_codes (z # r)
      else if is_space3 x y z then trim_start_codes r
      else x # y # z # r)"
| "trim_start_codes [x, y] =
     (if is_space1 x then trim_start_codes [y] else if is_space2 x y then [] else [x, y])"
| "trim_start_codes [x] = (if is_space1 x then [] else [x])"
| "trim_start_codes [] = []"

text \<open>The same from the end, on the reversed bytes.\<close>

fun trim_rev_codes :: "nat list \<Rightarrow> nat list" where
  "trim_rev_codes (x # y # z # r) =
     (if is_space1 x then trim_rev_codes (y # z # r)
      else if is_space2 y x then trim_rev_codes (z # r)
      else if is_space3 z y x then trim_rev_codes r
      else x # y # z # r)"
| "trim_rev_codes [x, y] =
     (if is_space1 x then trim_rev_codes [y] else if is_space2 y x then [] else [x, y])"
| "trim_rev_codes [x] = (if is_space1 x then [] else [x])"
| "trim_rev_codes [] = []"

definition trim :: "string \<Rightarrow> string" where
  "trim s = map char_of (rev (trim_rev_codes (rev (trim_start_codes (map of_char s)))))"

text \<open>\<^verbatim>\<open>char::is_ascii_hexdigit\<close>, \<^verbatim>\<open>is_ascii_digit\<close> and the lower-case range used for digests.\<close>

definition is_digit :: "char \<Rightarrow> bool" where
  "is_digit c \<longleftrightarrow> 48 \<le> (of_char c :: nat) \<and> (of_char c :: nat) \<le> 57"

definition is_hexdigit :: "char \<Rightarrow> bool" where
  "is_hexdigit c \<longleftrightarrow> is_digit c \<or>
     (65 \<le> (of_char c :: nat) \<and> (of_char c :: nat) \<le> 70) \<or>
     (97 \<le> (of_char c :: nat) \<and> (of_char c :: nat) \<le> 102)"

end
