(* ===== verification/Grants.thy ===== *)
theory Grants
  imports CentralD_Prelude
begin

text \<open>
  \<^verbatim>\<open>centrald-common/src/grant.rs\<close>: the privileged grant the server signs and the broker verifies.
  The Ed25519, Base64 and JSON crates are a parameter of the definitions, a \<open>grant_crypto\<close> record;
  what the round trip needs of them is \<open>grant_crypto_ok\<close>.
\<close>

section \<open>Data\<close>

datatype grant_operation = RestartClientService | RestartMachine | CheckOsUpdates
  | ApplyOsUpdates | UpdateClient | OpenLowShell | OpenElevatedShell

record privileged_grant =
  g_id :: uuid
  g_device_id :: uuid
  g_job_or_session_id :: uuid
  g_admin_id :: uuid
  g_operation :: grant_operation
  g_parameters_sha256 :: string
  g_issued_at :: instant
  g_expires_at :: instant
  g_nonce :: string

record signed_grant =
  sg_grant :: privileged_grant
  sg_signature_base64 :: string

datatype grant_error = Serialization | SignatureEncoding | InvalidSignature | WrongDevice
  | OutsideValidity | LifetimeTooLong

text \<open>
  The crates the file calls: \<^verbatim>\<open>serde_json::to_vec\<close> on a grant, \<^verbatim>\<open>SigningKey::sign\<close>,
  \<^verbatim>\<open>SigningKey::verifying_key\<close>, \<^verbatim>\<open>VerifyingKey::verify\<close>, \<^verbatim>\<open>Signature::to_bytes\<close> and
  \<^verbatim>\<open>from_slice\<close>, and the standard Base64 engine.
\<close>

record ('sk, 'vk, 'sig) grant_crypto =
  json_of_grant :: "privileged_grant \<Rightarrow> bytes option"
  ed_sign :: "'sk \<Rightarrow> bytes \<Rightarrow> 'sig"
  ed_verifying_key :: "'sk \<Rightarrow> 'vk"
  ed_verify :: "'vk \<Rightarrow> bytes \<Rightarrow> 'sig \<Rightarrow> bool"
  sig_to_bytes :: "'sig \<Rightarrow> bytes"
  sig_from_slice :: "bytes \<Rightarrow> 'sig option"
  b64_encode :: "bytes \<Rightarrow> string"
  b64_decode :: "string \<Rightarrow> bytes option"

definition grant_crypto_ok :: "('sk, 'vk, 'sig) grant_crypto \<Rightarrow> bool" where
  "grant_crypto_ok c \<longleftrightarrow>
     (\<forall>bs. b64_decode c (b64_encode c bs) = Some bs) \<and>
     (\<forall>s. sig_from_slice c (sig_to_bytes c s) = Some s) \<and>
     (\<forall>sk m. ed_verify c (ed_verifying_key c sk) m (ed_sign c sk m))"

section \<open>Operations\<close>

text \<open>The bytes of \<^verbatim>\<open>b"centrald-grant-v1\0"\<close>.\<close>

definition GRANT_DOMAIN :: bytes where
  "GRANT_DOMAIN = map (\<lambda>ch. word_of_nat (of_char ch)) ''centrald-grant-v1'' @ [0]"

definition MAX_GRANT_LIFETIME_SECONDS :: int where
  "MAX_GRANT_LIFETIME_SECONDS = 1800"

definition signing_payload ::
  "('sk, 'vk, 'sig) grant_crypto \<Rightarrow> privileged_grant \<Rightarrow> grant_error + bytes" where
  "signing_payload c g =
     (case json_of_grant c g of
        None \<Rightarrow> Inl Serialization
      | Some encoded \<Rightarrow> Inr (GRANT_DOMAIN @ encoded))"

definition sign ::
  "('sk, 'vk, 'sig) grant_crypto \<Rightarrow> privileged_grant \<Rightarrow> 'sk \<Rightarrow> grant_error + signed_grant" where
  "sign c g key =
     (case signing_payload c g of
        Inl e \<Rightarrow> Inl e
      | Inr payload \<Rightarrow>
          Inr \<lparr> sg_grant = g,
                sg_signature_base64 = b64_encode c (sig_to_bytes c (ed_sign c key payload)) \<rparr>)"

definition verify ::
  "('sk, 'vk, 'sig) grant_crypto \<Rightarrow> signed_grant \<Rightarrow> 'vk \<Rightarrow> uuid \<Rightarrow> instant \<Rightarrow> grant_error + unit"
where
  "verify c sg key expected_device now =
     (let g = sg_grant sg; lifetime = g_expires_at g - g_issued_at g in
      if g_device_id g \<noteq> expected_device then Inl WrongDevice
      else if num_seconds lifetime \<le> 0 \<or> num_seconds lifetime > MAX_GRANT_LIFETIME_SECONDS
        then Inl LifetimeTooLong
      else if now < g_issued_at g \<or> now > g_expires_at g then Inl OutsideValidity
      else (case b64_decode c (sg_signature_base64 sg) of
          None \<Rightarrow> Inl SignatureEncoding
        | Some raw \<Rightarrow> (case sig_from_slice c raw of
            None \<Rightarrow> Inl SignatureEncoding
          | Some signature \<Rightarrow> (case signing_payload c g of
              Inl e \<Rightarrow> Inl e
            | Inr payload \<Rightarrow>
                if ed_verify c key payload signature then Inr () else Inl InvalidSignature))))"

section \<open>Lemmas\<close>

text \<open>The part of \<open>verify\<close> that does not depend on the clock.\<close>

definition signature_valid ::
  "('sk, 'vk, 'sig) grant_crypto \<Rightarrow> signed_grant \<Rightarrow> 'vk \<Rightarrow> bool" where
  "signature_valid c sg key \<longleftrightarrow>
     (\<exists>raw signature encoded. b64_decode c (sg_signature_base64 sg) = Some raw \<and>
        sig_from_slice c raw = Some signature \<and> json_of_grant c (sg_grant sg) = Some encoded \<and>
        ed_verify c key (GRANT_DOMAIN @ encoded) signature)"

definition lifetime_ok :: "privileged_grant \<Rightarrow> bool" where
  "lifetime_ok g \<longleftrightarrow>
     secs 1 \<le> g_expires_at g - g_issued_at g \<and> g_expires_at g - g_issued_at g < secs 1801"

lemma lifetime_guard_iff:
  "(num_seconds d \<le> 0 \<or> num_seconds d > MAX_GRANT_LIFETIME_SECONDS) \<longleftrightarrow>
     \<not> (secs 1 \<le> d \<and> d < secs 1801)"
proof -
  have "num_seconds d > MAX_GRANT_LIFETIME_SECONDS \<longleftrightarrow> d \<ge> secs 1801"
    using num_seconds_gt_iff [of 1800 d] by (simp add: MAX_GRANT_LIFETIME_SECONDS_def)
  moreover have "num_seconds d \<le> 0 \<longleftrightarrow> d < secs 1"
    by (simp add: num_seconds_le_zero_iff secs_def)
  ultimately show ?thesis by linarith
qed

lemma verify_ok_iff:
  "verify c sg key dev now = Inr () \<longleftrightarrow>
     g_device_id (sg_grant sg) = dev \<and> lifetime_ok (sg_grant sg) \<and>
     g_issued_at (sg_grant sg) \<le> now \<and> now \<le> g_expires_at (sg_grant sg) \<and>
     signature_valid c sg key"
proof -
  have sig: "signature_valid c sg key \<longleftrightarrow>
    (case b64_decode c (sg_signature_base64 sg) of
       None \<Rightarrow> False
     | Some raw \<Rightarrow> (case sig_from_slice c raw of
         None \<Rightarrow> False
       | Some signature \<Rightarrow> (case signing_payload c (sg_grant sg) of
           Inl e \<Rightarrow> False
         | Inr payload \<Rightarrow> ed_verify c key payload signature)))"
    by (auto simp: signature_valid_def signing_payload_def split: option.split)
  show ?thesis
    unfolding verify_def Let_def lifetime_guard_iff sig lifetime_ok_def
    by (auto split: option.split sum.split)
qed

lemma verify_is_ok: "is_ok (verify c sg key dev now) \<longleftrightarrow> verify c sg key dev now = Inr ()"
  by (cases "verify c sg key dev now") simp_all

lemma verify_later:
  assumes "verify c sg key dev now = Inr ()" and "now \<le> t" and "t \<le> g_expires_at (sg_grant sg)"
  shows "verify c sg key dev t = Inr ()"
  using assms by (simp add: verify_ok_iff)

lemma sign_signature_valid:
  assumes "grant_crypto_ok c" and "sign c g sk = Inr sg"
  shows "sg_grant sg = g" and "signature_valid c sg (ed_verifying_key c sk)"
  using assms
  by (auto simp: sign_def signature_valid_def signing_payload_def grant_crypto_ok_def
      split: option.splits)

section \<open>Properties\<close>

text \<open>
  C26. A grant signed by the server verifies under the matching key exactly when it names the
  verifying device, its lifetime rounds down to between 1 and 1800 whole seconds, and the clock is
  inside the closed window from issuance to expiry; so signing and verifying agree on the
  domain-separated payload and no other check rejects a legitimate grant.
\<close>

theorem sign_then_verify_iff:
  assumes "grant_crypto_ok c" and "sign c g sk = Inr sg"
  shows "verify c sg (ed_verifying_key c sk) dev now = Inr () \<longleftrightarrow>
    g_device_id g = dev \<and>
    secs 1 \<le> g_expires_at g - g_issued_at g \<and> g_expires_at g - g_issued_at g < secs 1801 \<and>
    g_issued_at g \<le> now \<and> now \<le> g_expires_at g"
  using sign_signature_valid [OF assms] by (auto simp: verify_ok_iff lifetime_ok_def)

text \<open>
  A concrete instance of the cryptographic parameter, used by the witnesses: the signature of a
  message is the message with the key in front.
\<close>

definition demo_crypto :: "(byte, byte, bytes) grant_crypto" where
  "demo_crypto = \<lparr>
     json_of_grant = (\<lambda>g. Some (map (\<lambda>ch. word_of_nat (of_char ch)) (g_nonce g))),
     ed_sign = (\<lambda>sk m. sk # m),
     ed_verifying_key = (\<lambda>sk. sk),
     ed_verify = (\<lambda>vk m s. s = vk # m),
     sig_to_bytes = (\<lambda>s. s),
     sig_from_slice = (\<lambda>bs. Some bs),
     b64_encode = map (\<lambda>b. char_of (unat b)),
     b64_decode = (\<lambda>s. Some (map (\<lambda>ch. word_of_nat (of_char ch)) s)) \<rparr>"

lemma byte_char_roundtrip: "word_of_nat (of_char (char_of (unat b))) = (b :: byte)"
proof -
  have "unat b < 256" by (rule order_less_le_trans [OF unsigned_less]) simp
  then show ?thesis by (simp add: of_char_of)
qed

lemma demo_crypto_ok: "grant_crypto_ok demo_crypto"
proof -
  have "map (\<lambda>b. word_of_nat (of_char (char_of (unat b)))) bs = (bs :: bytes)" for bs
    by (simp only: byte_char_roundtrip list.map_ident)
  then show ?thesis by (simp add: grant_crypto_ok_def demo_crypto_def o_def del: of_char_of)
qed

definition demo_grant :: privileged_grant where
  "demo_grant = \<lparr> g_id = 7, g_device_id = 3, g_job_or_session_id = 5, g_admin_id = 5,
     g_operation = RestartMachine, g_parameters_sha256 = ''44136fa3'',
     g_issued_at = secs 100, g_expires_at = secs 130, g_nonce = ''n'' \<rparr>"

definition demo_signed_grant :: signed_grant where
  "demo_signed_grant = \<lparr> sg_grant = demo_grant,
     sg_signature_base64 = b64_encode demo_crypto (9 # GRANT_DOMAIN @ [110]) \<rparr>"

lemma demo_sign: "sign demo_crypto demo_grant 9 = Inr demo_signed_grant"
  by (simp add: sign_def signing_payload_def demo_crypto_def demo_signed_grant_def demo_grant_def)

lemma demo_verifies:
  assumes "secs 100 \<le> now" and "now \<le> secs 130"
  shows "verify demo_crypto demo_signed_grant 9 3 now = Inr ()"
proof -
  have key: "ed_verifying_key demo_crypto 9 = 9" by (simp add: demo_crypto_def)
  have "signature_valid demo_crypto demo_signed_grant 9"
    using sign_signature_valid (2) [OF demo_crypto_ok demo_sign] by (simp add: key)
  moreover have "lifetime_ok demo_grant"
    by (simp add: lifetime_ok_def demo_grant_def secs_def nanos_per_second_def)
  ultimately show ?thesis
    using assms by (simp add: verify_ok_iff demo_signed_grant_def demo_grant_def)
qed

theorem sign_then_verify_iff_witness:
  "grant_crypto_ok demo_crypto \<and> sign demo_crypto demo_grant 9 = Inr demo_signed_grant \<and>
   verify demo_crypto demo_signed_grant (ed_verifying_key demo_crypto 9) 3 (secs 120) = Inr () \<and>
   verify demo_crypto demo_signed_grant (ed_verifying_key demo_crypto 9) 3 (secs 131) \<noteq> Inr ()"
  using demo_crypto_ok demo_sign
    sign_then_verify_iff [OF demo_crypto_ok demo_sign, of 3 "secs 120"]
    sign_then_verify_iff [OF demo_crypto_ok demo_sign, of 3 "secs 131"]
  by (simp add: demo_grant_def secs_def nanos_per_second_def)

end
