(* ===== verification/Grant_Verifier.thy ===== *)
theory Grant_Verifier
  imports Grants
begin

text \<open>
  \<^verbatim>\<open>centrald-platform/src/broker.rs\<close>: the broker's replay set. \<open>GrantVerifier\<close> remembers every
  consumed grant until it expires; \<^verbatim>\<open>order\<close> is a min-heap on the pair of expiry and grant id, here
  the sorted list of its elements. \<open>replay_guard\<close> is the contract the executor and the session
  manager rely on, interpreted on \<open>gv_step\<close> below.
\<close>

section \<open>Data\<close>

definition PRIVILEGED_OPERATIONS_ENABLED :: bool where
  "PRIVILEGED_OPERATIONS_ENABLED = False"

definition MAX_REPLAY_ENTRIES :: nat where
  "MAX_REPLAY_ENTRIES = 4096"

definition MAX_PARAMETERS_BYTES :: nat where
  "MAX_PARAMETERS_BYTES = 64 * 1024"

definition MAX_OUTPUT_BYTES :: nat where
  "MAX_OUTPUT_BYTES = 256 * 1024"

record broker_request =
  br_signed_grant :: signed_grant
  br_parameters_json :: bytes

record broker_response =
  bp_success :: bool
  bp_output :: bytes
  bp_exit_code :: "32 word"

record 'vk grant_verifier =
  gv_device_id :: uuid
  gv_signing_key :: 'vk
  gv_consumed :: "uuid set"
  gv_order :: "(instant \<times> uuid) list"

datatype broker_error = InvalidGrant grant_error | Replay | ParametersTooLarge
  | ParametersMismatch | Operation string | OutputTooLarge | ReplaySetFull | PrivilegedDisabled

section \<open>Operations\<close>

definition gv_new :: "uuid \<Rightarrow> 'vk \<Rightarrow> 'vk grant_verifier" where
  "gv_new device_id signing_key =
     \<lparr> gv_device_id = device_id, gv_signing_key = signing_key, gv_consumed = {}, gv_order = [] \<rparr>"

definition restore ::
  "'vk grant_verifier \<Rightarrow> uuid \<Rightarrow> instant \<Rightarrow> instant \<Rightarrow> 'vk grant_verifier" where
  "restore v grant_id expires_at now =
     (if expires_at \<le> now then v
      else if grant_id \<in> gv_consumed v then v
      else v \<lparr> gv_consumed := insert grant_id (gv_consumed v),
               gv_order := insort (expires_at, grant_id) (gv_order v) \<rparr>)"

text \<open>The loop of \<^verbatim>\<open>prune_expired\<close>: \<^verbatim>\<open>peek\<close> is the head of the heap, \<^verbatim>\<open>pop\<close> removes it.\<close>

fun prune_loop ::
  "instant \<Rightarrow> (instant \<times> uuid) list \<Rightarrow> uuid set \<Rightarrow> (instant \<times> uuid) list \<times> uuid set" where
  "prune_loop now [] consumed = ([], consumed)"
| "prune_loop now ((expires_at, i) # order) consumed =
     (if expires_at > now then ((expires_at, i) # order, consumed)
      else prune_loop now order (consumed - {i}))"

definition prune_expired :: "'vk grant_verifier \<Rightarrow> instant \<Rightarrow> 'vk grant_verifier" where
  "prune_expired v now =
     (let (order, consumed) = prune_loop now (gv_order v) (gv_consumed v) in
      v \<lparr> gv_order := order, gv_consumed := consumed \<rparr>)"

definition verify_and_consume ::
  "('sk, 'vk, 'sig) grant_crypto \<Rightarrow> 'vk grant_verifier \<Rightarrow> signed_grant \<Rightarrow> instant \<Rightarrow>
     (broker_error + unit) \<times> 'vk grant_verifier" where
  "verify_and_consume c v sg now =
     (case verify c sg (gv_signing_key v) (gv_device_id v) now of
        Inl e \<Rightarrow> (Inl (InvalidGrant e), v)
      | Inr _ \<Rightarrow>
          let v = prune_expired v now; i = g_id (sg_grant sg) in
          if i \<in> gv_consumed v then (Inl Replay, v)
          else if length (gv_order v) \<ge> MAX_REPLAY_ENTRIES then (Inl ReplaySetFull, v)
          else (Inr (), v \<lparr> gv_consumed := insert i (gv_consumed v),
                            gv_order := insort (g_expires_at (sg_grant sg), i) (gv_order v) \<rparr>))"

text \<open>
  \<^verbatim>\<open>GrantVerifier::execute\<close>. The runner is the platform's \<^verbatim>\<open>OperationRunner\<close>, a state transformer
  on a world \<open>'w\<close>; \<open>sha\<close> is the hexadecimal SHA-256 of the \<^verbatim>\<open>sha2\<close> and \<^verbatim>\<open>hex\<close> crates and
  \<open>cfg_test\<close> the build configuration \<^verbatim>\<open>cfg!(test)\<close>.
\<close>

definition gv_execute ::
  "('sk, 'vk, 'sig) grant_crypto \<Rightarrow> (bytes \<Rightarrow> string) \<Rightarrow>
   ('w \<Rightarrow> grant_operation \<Rightarrow> bytes \<Rightarrow> (string + broker_response) \<times> 'w) \<Rightarrow> bool \<Rightarrow>
   'vk grant_verifier \<times> 'w \<Rightarrow> broker_request \<Rightarrow> instant \<Rightarrow>
   (broker_error + broker_response) \<times> 'vk grant_verifier \<times> 'w" where
  "gv_execute c sha run cfg_test = (\<lambda>(v, w) request now.
     if \<not> PRIVILEGED_OPERATIONS_ENABLED \<and> \<not> cfg_test then (Inl PrivilegedDisabled, v, w)
     else (case verify_and_consume c v (br_signed_grant request) now of
         (Inl e, v) \<Rightarrow> (Inl e, v, w)
       | (Inr _, v) \<Rightarrow>
           if length (br_parameters_json request) > MAX_PARAMETERS_BYTES
             then (Inl ParametersTooLarge, v, w)
           else if sha (br_parameters_json request)
                   \<noteq> g_parameters_sha256 (sg_grant (br_signed_grant request))
             then (Inl ParametersMismatch, v, w)
           else (case run w (g_operation (sg_grant (br_signed_grant request)))
                        (br_parameters_json request) of
               (Inl msg, w) \<Rightarrow> (Inl (Operation msg), v, w)
             | (Inr response, w) \<Rightarrow>
                 if length (bp_output response) > MAX_OUTPUT_BYTES then (Inl OutputTooLarge, v, w)
                 else (Inr response, v, w))))"

text \<open>The two state-changing entry points, as one alphabet of operations.\<close>

datatype gv_op = Verify signed_grant instant | Restore uuid instant instant

fun gv_step ::
  "('sk, 'vk, 'sig) grant_crypto \<Rightarrow> 'vk grant_verifier \<Rightarrow> gv_op \<Rightarrow>
     (broker_error + unit) \<times> 'vk grant_verifier" where
  "gv_step c v (Verify sg now) = verify_and_consume c v sg now"
| "gv_step c v (Restore i expires_at now) = (Inr (), restore v i expires_at now)"

fun gv_claims :: "gv_op \<Rightarrow> (uuid \<times> instant) option" where
  "gv_claims (Verify sg now) = Some (g_id (sg_grant sg), g_expires_at (sg_grant sg))"
| "gv_claims (Restore i e now) = None"

fun gv_clock :: "gv_op \<Rightarrow> instant" where
  "gv_clock (Verify sg now) = now"
| "gv_clock (Restore i e now) = now"

section \<open>Invariant\<close>

text \<open>
  The heap and the hash set hold the same ids, each once. \<open>gv_until\<close> is the expiry under which an
  id is held.
\<close>

definition gv_inv :: "'vk grant_verifier \<Rightarrow> bool" where
  "gv_inv v \<longleftrightarrow> sorted (gv_order v) \<and> distinct (map snd (gv_order v)) \<and>
     gv_consumed v = snd ` set (gv_order v)"

definition gv_until :: "'vk grant_verifier \<Rightarrow> uuid \<Rightarrow> instant option" where
  "gv_until v i = map_of (map (\<lambda>(e, j). (j, e)) (gv_order v)) i"

section \<open>The contract\<close>

text \<open>How many of the inputs that satisfy a predicate were answered with success.\<close>

definition count_ok :: "('o \<Rightarrow> bool) \<Rightarrow> 'o list \<Rightarrow> ('e + 'a) list \<Rightarrow> nat" where
  "count_ok P xs rs = length (filter (\<lambda>(x, r). P x \<and> is_ok r) (zip xs rs))"

lemma count_ok_simps [simp]:
  "count_ok P [] rs = 0"
  "count_ok P (x # xs) (r # rs) = (if P x \<and> is_ok r then 1 else 0) + count_ok P xs rs"
  by (simp_all add: count_ok_def)

text \<open>
  An operation may claim an id until an instant. A held id refuses every claim made before its
  expiry, and no operation before that expiry lets it go.
\<close>

locale replay_guard =
  fixes accept :: "'s \<Rightarrow> 'o \<Rightarrow> ('e + unit) \<times> 's"
    and claims :: "'o \<Rightarrow> (uuid \<times> instant) option"
    and clock :: "'o \<Rightarrow> instant"
    and inv :: "'s \<Rightarrow> bool"
    and until :: "'s \<Rightarrow> uuid \<Rightarrow> instant option"
  assumes inv_keep: "inv s \<Longrightarrow> inv (snd (accept s x))"
    and refuse: "inv s \<Longrightarrow> until s i = Some t \<Longrightarrow> clock x < t \<Longrightarrow> claims x = Some (i, e) \<Longrightarrow>
      \<not> is_ok (fst (accept s x))"
    and hold: "inv s \<Longrightarrow> until s i = Some t \<Longrightarrow> clock x < t \<Longrightarrow>
      until (snd (accept s x)) i = Some t"
    and recorded: "inv s \<Longrightarrow> claims x = Some (i, t) \<Longrightarrow> is_ok (fst (accept s x)) \<Longrightarrow>
      until (snd (accept s x)) i = Some t"
begin

definition claims_id :: "uuid \<Rightarrow> 'o \<Rightarrow> bool" where
  "claims_id i x \<longleftrightarrow> (\<exists>e. claims x = Some (i, e))"

lemma held_never_accepted:
  assumes "inv s" and "until s i = Some t" and "\<forall>x \<in> set xs. clock x < t"
  shows "count_ok (claims_id i) xs (fst (run_ops accept s xs)) = 0"
  using assms
proof (induction xs arbitrary: s)
  case Nil
  then show ?case by simp
next
  case (Cons x xs)
  have "count_ok (claims_id i) xs (fst (run_ops accept (snd (accept s x)) xs)) = 0"
    using Cons.prems by (intro Cons.IH inv_keep hold) auto
  moreover have "\<not> (claims_id i x \<and> is_ok (fst (accept s x)))"
    using Cons.prems refuse by (auto simp: claims_id_def)
  ultimately show ?case by (simp add: Let_def case_prod_beta)
qed

lemma accepted_at_most_once:
  assumes "inv s" and "\<forall>x \<in> set xs. clock x < t"
    and "\<forall>x \<in> set xs. \<forall>e. claims x = Some (i, e) \<longrightarrow> t \<le> e"
  shows "count_ok (claims_id i) xs (fst (run_ops accept s xs)) \<le> 1"
  using assms
proof (induction xs arbitrary: s)
  case Nil
  then show ?case by simp
next
  case (Cons x xs)
  let ?s = "snd (accept s x)"
  have inv: "inv ?s" using Cons.prems(1) by (rule inv_keep)
  show ?case
  proof (cases "claims_id i x \<and> is_ok (fst (accept s x))")
    case True
    then obtain e where e: "claims x = Some (i, e)" by (auto simp: claims_id_def)
    with True Cons.prems(1) have "until ?s i = Some e" by (auto intro: recorded)
    moreover have "t \<le> e" using Cons.prems(3) e by auto
    ultimately have "count_ok (claims_id i) xs (fst (run_ops accept ?s xs)) = 0"
      using Cons.prems(2) by (intro held_never_accepted [OF inv, of i e]) auto
    then show ?thesis by (simp add: Let_def case_prod_beta)
  next
    case False
    moreover have "count_ok (claims_id i) xs (fst (run_ops accept ?s xs)) \<le> 1"
      using Cons.prems by (intro Cons.IH [OF inv]) auto
    ultimately show ?thesis by (auto simp: Let_def case_prod_beta)
  qed
qed

end

section \<open>The replay set satisfies the contract\<close>

lemma prune_loop_eq:
  "prune_loop now order consumed =
     (dropWhile (\<lambda>(e, i). e \<le> now) order,
      consumed - snd ` set (takeWhile (\<lambda>(e, i). e \<le> now) order))"
proof (induction now order consumed rule: prune_loop.induct)
  case (2 now expires_at i order consumed)
  have "consumed - {i} - S = consumed - insert i S" for S by blast
  with 2 show ?case by (auto simp: image_iff)
qed simp

lemma prune_expired_order:
  "gv_order (prune_expired v now) = dropWhile (\<lambda>(e, i). e \<le> now) (gv_order v)"
  by (simp add: prune_expired_def prune_loop_eq Let_def)

lemma prune_expired_static [simp]:
  "gv_device_id (prune_expired v now) = gv_device_id v"
  "gv_signing_key (prune_expired v now) = gv_signing_key v"
  by (simp_all add: prune_expired_def Let_def case_prod_beta)

lemma sorted_dropWhile_filter:
  "sorted xs \<Longrightarrow> dropWhile (\<lambda>(e, i). e \<le> now) xs = filter (\<lambda>(e, i). e > now) (xs :: (instant \<times> uuid) list)"
proof (induction xs)
  case Nil
  then show ?case by simp
next
  case (Cons x xs)
  then show ?case
  proof (cases "fst x \<le> now")
    case True
    with Cons show ?thesis by (simp add: case_prod_beta)
  next
    case False
    with Cons.prems have "\<forall>y \<in> set xs. fst y > now"
      by (fastforce simp: less_eq_prod_def)
    with False show ?thesis by (auto simp: case_prod_beta filter_id_conv)
  qed
qed

lemma prune_expired_inv:
  assumes "gv_inv v"
  shows "gv_inv (prune_expired v now)"
proof -
  let ?P = "\<lambda>(e, i). e \<le> now"
  have split: "gv_order v = takeWhile ?P (gv_order v) @ dropWhile ?P (gv_order v)" by simp
  have d: "distinct (map snd (takeWhile ?P (gv_order v)) @ map snd (dropWhile ?P (gv_order v)))"
    using assms by (metis gv_inv_def map_append split)
  have "snd ` set (gv_order v) = snd ` set (takeWhile ?P (gv_order v)) \<union> snd ` set (dropWhile ?P (gv_order v))"
    by (metis image_Un set_append split)
  then have "gv_consumed (prune_expired v now) = snd ` set (dropWhile ?P (gv_order v))"
    using assms d by (auto simp: prune_expired_def prune_loop_eq Let_def gv_inv_def)
  then show ?thesis
    using assms d by (simp add: gv_inv_def prune_expired_order sorted_dropWhile)
qed

lemma gv_until_iff:
  assumes "gv_inv v"
  shows "gv_until v i = Some t \<longleftrightarrow> (t, i) \<in> set (gv_order v)"
proof -
  have "distinct (map fst (map (\<lambda>(e, j). (j, e)) (gv_order v)))"
    using assms by (simp add: gv_inv_def o_def case_prod_beta)
  then show ?thesis by (auto simp: gv_until_def map_of_eq_Some_iff)
qed

lemma prune_expired_members:
  assumes "gv_inv v"
  shows "set (gv_order (prune_expired v now)) = {(e, i) \<in> set (gv_order v). e > now}"
  using assms by (auto simp: prune_expired_order gv_inv_def sorted_dropWhile_filter)

lemma gv_inv_insert:
  assumes "gv_inv v" and "i \<notin> gv_consumed v"
  shows "gv_inv (v \<lparr> gv_consumed := insert i (gv_consumed v), gv_order := insort (e, i) (gv_order v) \<rparr>)"
proof -
  have "distinct (map snd (insort (e, i) (gv_order v)))"
  proof -
    have "mset (map snd (insort (e, i) (gv_order v))) = mset (i # map snd (gv_order v))" by simp
    then have "distinct (map snd (insort (e, i) (gv_order v))) = distinct (i # map snd (gv_order v))"
      by (rule mset_eq_imp_distinct_iff)
    with assms show ?thesis by (simp add: gv_inv_def)
  qed
  then show ?thesis using assms by (auto simp: gv_inv_def sorted_insort set_insort_key)
qed

lemma gv_step_inv: "gv_inv v \<Longrightarrow> gv_inv (snd (gv_step c v x))"
  by (cases x)
     (simp_all add: verify_and_consume_def restore_def Let_def prune_expired_inv gv_inv_insert
       split: sum.split)

lemma gv_consumed_iff: "gv_inv v \<Longrightarrow> i \<in> gv_consumed v \<longleftrightarrow> (\<exists>t. (t, i) \<in> set (gv_order v))"
  by (force simp: gv_inv_def image_iff)

lemma gv_step_order:
  "is_ok (fst (verify_and_consume c v sg now)) \<Longrightarrow>
     set (gv_order (snd (verify_and_consume c v sg now))) =
       insert (g_expires_at (sg_grant sg), g_id (sg_grant sg)) (set (gv_order (prune_expired v now)))"
  "\<not> is_ok (fst (verify_and_consume c v sg now)) \<Longrightarrow>
     snd (verify_and_consume c v sg now) \<in> {v, prune_expired v now}"
  by (auto simp: verify_and_consume_def Let_def set_insort_key split: sum.splits if_splits)

lemma gv_step_hold:
  assumes "gv_inv v" and "gv_until v i = Some t" and "gv_clock x < t"
  shows "gv_until (snd (gv_step c v x)) i = Some t"
proof -
  have mem: "(t, i) \<in> set (gv_order v)" using assms gv_until_iff by blast
  have "(t, i) \<in> set (gv_order (snd (gv_step c v x)))"
  proof (cases x)
    case (Verify sg now)
    with assms mem have "(t, i) \<in> set (gv_order (prune_expired v now))"
      by (simp add: prune_expired_members)
    then show ?thesis using gv_step_order [of c v sg now] mem Verify
      by (cases "is_ok (fst (verify_and_consume c v sg now))") auto
  next
    case (Restore j e now)
    then show ?thesis using mem by (simp add: restore_def set_insort_key)
  qed
  then show ?thesis using gv_until_iff [OF gv_step_inv [OF assms(1)]] by blast
qed

lemma gv_step_refuse:
  assumes "gv_inv v" and "gv_until v i = Some t" and "gv_clock x < t" and "gv_claims x = Some (i, e)"
  shows "\<not> is_ok (fst (gv_step c v x))"
proof (cases x)
  case (Verify sg now)
  with assms have "(t, i) \<in> set (gv_order (prune_expired v now))"
    by (simp add: prune_expired_members gv_until_iff)
  then have "i \<in> gv_consumed (prune_expired v now)"
    using gv_consumed_iff [OF prune_expired_inv [OF assms(1)]] by blast
  then show ?thesis using Verify assms(4)
    by (simp add: verify_and_consume_def Let_def split: sum.split)
qed (use assms in simp)

lemma gv_step_record:
  assumes "gv_inv v" and "gv_claims x = Some (i, t)" and "is_ok (fst (gv_step c v x))"
  shows "gv_until (snd (gv_step c v x)) i = Some t"
proof (cases x)
  case (Verify sg now)
  with assms gv_step_order(1) [of c v sg now] have "(t, i) \<in> set (gv_order (snd (gv_step c v x)))"
    by auto
  then show ?thesis using gv_until_iff [OF gv_step_inv [OF assms(1)]] by blast
qed (use assms in simp)

interpretation gv: replay_guard "gv_step c" gv_claims gv_clock gv_inv gv_until for c
  by unfold_locales (fact gv_step_inv gv_step_refuse gv_step_hold gv_step_record)+

lemma gv_new_inv [simp]: "gv_inv (gv_new d k)"
  by (simp add: gv_inv_def gv_new_def)

section \<open>Properties\<close>

text \<open>
  C18. Replay protection: in any sequence of verifications and restorations whose clock readings all
  precede an instant \<open>t\<close>, a grant id whose grants expire no earlier than \<open>t\<close> is accepted at most
  once, whatever other grants are consumed, refused or pruned in between and however full the set is.
\<close>

theorem grant_consumed_at_most_once:
  assumes "gv_inv v" and "\<forall>x \<in> set xs. gv_clock x < t"
    and "\<forall>x \<in> set xs. \<forall>e. gv_claims x = Some (i, e) \<longrightarrow> t \<le> e"
  shows "count_ok (\<lambda>x. \<exists>e. gv_claims x = Some (i, e)) xs (fst (run_ops (gv_step c) v xs)) \<le> 1"
  using gv.accepted_at_most_once [OF assms] by (simp add: gv.claims_id_def [abs_def])

text \<open>
  C40. At the instant of expiry itself the protection lapses: every grant that was accepted at some
  earlier instant is accepted a second time when the clock reads exactly its expiry, because
  verification still admits that instant while pruning already drops the consumed entry.
\<close>

theorem grant_replayable_at_expiry:
  assumes "gv_inv v" and "verify_and_consume c v sg now = (Inr (), v')"
  shows "fst (verify_and_consume c v' sg (g_expires_at (sg_grant sg))) = Inr ()"
proof -
  let ?t = "g_expires_at (sg_grant sg)"
  have ver: "verify c sg (gv_signing_key v) (gv_device_id v) now = Inr ()"
    and len: "length (gv_order v') \<le> MAX_REPLAY_ENTRIES"
    and st: "gv_signing_key v' = gv_signing_key v" "gv_device_id v' = gv_device_id v"
    using assms(2) by (auto simp: verify_and_consume_def Let_def split: sum.splits if_splits)
  have inv: "gv_inv v'" using gv_step_inv [OF assms(1), of c "Verify sg now"] assms(2) by simp
  have mem: "(?t, g_id (sg_grant sg)) \<in> set (gv_order v')"
    using gv_step_order(1) [of c v sg now] assms(2) by simp
  have "now \<le> ?t" using ver by (simp add: verify_ok_iff)
  with ver have ver': "verify c sg (gv_signing_key v') (gv_device_id v') ?t = Inr ()"
    by (simp add: verify_later st)
  have "set (gv_order (prune_expired v' ?t)) \<subset> set (gv_order v')"
    using mem by (auto simp: prune_expired_members [OF inv])
  then have "length (gv_order (prune_expired v' ?t)) < length (gv_order v')"
    using inv prune_expired_inv [OF inv, of ?t]
    by (metis distinct_card distinct_map gv_inv_def List.finite_set psubset_card_mono)
  moreover have "g_id (sg_grant sg) \<notin> gv_consumed (prune_expired v' ?t)"
  proof
    assume "g_id (sg_grant sg) \<in> gv_consumed (prune_expired v' ?t)"
    then obtain t where "(t, g_id (sg_grant sg)) \<in> set (gv_order v')" and "t > ?t"
      using gv_consumed_iff [OF prune_expired_inv [OF inv]] prune_expired_members [OF inv] by auto
    moreover have "gv_until v' (g_id (sg_grant sg)) = Some ?t" using mem gv_until_iff [OF inv] by blast
    ultimately show False using gv_until_iff [OF inv, of "g_id (sg_grant sg)" t] by simp
  qed
  ultimately show ?thesis using len ver' by (simp add: verify_and_consume_def Let_def)
qed

text \<open>
  The replay set never grows past its bound of 4096 entries through verification: starting from
  a set within the bound, every sequence of verifications stays within it, and a full set refuses
  with an error instead of evicting a still-valid grant.
\<close>

theorem replay_set_bounded:
  assumes "length (gv_order v) \<le> MAX_REPLAY_ENTRIES"
  shows "length (gv_order (snd (run_ops (\<lambda>v (sg, now). verify_and_consume c v sg now) v reqs)))
    \<le> MAX_REPLAY_ENTRIES"
proof (rule run_ops_invariant [where I = "\<lambda>v. length (gv_order v) \<le> MAX_REPLAY_ENTRIES"])
  fix v :: "'a grant_verifier" and req :: "signed_grant \<times> instant"
  assume "length (gv_order v) \<le> MAX_REPLAY_ENTRIES"
  moreover have "length (gv_order (prune_expired v t)) \<le> length (gv_order v)" for t
    by (simp add: prune_expired_order length_dropWhile_le)
  ultimately have "length (gv_order (prune_expired v t)) \<le> MAX_REPLAY_ENTRIES" for t
    by (rule order_trans [rotated])
  then show "length (gv_order (snd ((\<lambda>(sg, now). verify_and_consume c v sg now) req)))
      \<le> MAX_REPLAY_ENTRIES"
    using \<open>length (gv_order v) \<le> MAX_REPLAY_ENTRIES\<close>
    by (auto simp: verify_and_consume_def Let_def split: sum.split prod.split)
qed (rule assms)

text \<open>
  The release build of the platform broker runs nothing: with the compiled-in switch off and
  outside the test configuration every request is refused before the grant is looked at, and
  neither the replay set nor the machine changes.
\<close>

theorem release_build_refuses:
  "gv_execute c sha run False (v, w) request now = (Inl PrivilegedDisabled, v, w)"
  by (simp add: gv_execute_def PRIVILEGED_OPERATIONS_ENABLED_def)

section \<open>Witnesses\<close>

abbreviation demo_verifier :: "byte grant_verifier" where
  "demo_verifier \<equiv> gv_new 3 9"

lemma demo_first_use:
  "verify_and_consume demo_crypto demo_verifier demo_signed_grant (secs 120) =
     (Inr (), demo_verifier \<lparr> gv_consumed := {7}, gv_order := [(secs 130, 7)] \<rparr>)"
proof -
  have "verify demo_crypto demo_signed_grant 9 3 (secs 120) = Inr ()"
    by (rule demo_verifies) (simp_all add: secs_def nanos_per_second_def)
  then show ?thesis
    by (simp add: verify_and_consume_def gv_new_def prune_expired_def Let_def
        MAX_REPLAY_ENTRIES_def demo_signed_grant_def demo_grant_def)
qed

theorem grant_consumed_at_most_once_witness:
  "is_ok (fst (verify_and_consume demo_crypto demo_verifier demo_signed_grant (secs 120))) \<and>
   count_ok (\<lambda>x. \<exists>e. gv_claims x = Some (7, e))
     [Verify demo_signed_grant (secs 120), Verify demo_signed_grant (secs 125)]
     (fst (run_ops (gv_step demo_crypto) demo_verifier
        [Verify demo_signed_grant (secs 120), Verify demo_signed_grant (secs 125)])) \<le> 1"
proof
  show "is_ok (fst (verify_and_consume demo_crypto demo_verifier demo_signed_grant (secs 120)))"
    by (simp add: demo_first_use)
qed (rule grant_consumed_at_most_once [where t = "secs 130"],
     auto simp: demo_signed_grant_def demo_grant_def secs_def nanos_per_second_def)

theorem grant_replayable_at_expiry_witness:
  "fst (verify_and_consume demo_crypto
     (demo_verifier \<lparr> gv_consumed := {7}, gv_order := [(secs 130, 7)] \<rparr>) demo_signed_grant (secs 130))
     = Inr ()"
  using grant_replayable_at_expiry [OF gv_new_inv demo_first_use]
  by (simp add: demo_signed_grant_def demo_grant_def)

theorem replay_set_bounded_witness:
  "length (gv_order (snd (run_ops (\<lambda>v (sg, now). verify_and_consume demo_crypto v sg now) demo_verifier
     [(demo_signed_grant, secs 120), (demo_signed_grant, secs 121)]))) \<le> MAX_REPLAY_ENTRIES"
  by (rule replay_set_bounded) (simp add: gv_new_def)

end
