(* ===== verification/Journal.thy ===== *)
theory Journal
  imports CentralD_Prelude
begin

text \<open>
  Line journals. The broker ledger and the server's local audit journal share one on-disk contract:
  one JSON envelope per line, a torn final line is set aside, blank lines are skipped, and the first
  line that does not parse or does not check aborts the read. This theory holds that contract and
  its lemmas, and a small self-delimiting codec that the witnesses use in place of the JSON crate.
\<close>

section \<open>Torn tails\<close>

text \<open>
  The body of \<^verbatim>\<open>recover_torn_final_record\<close> on the bytes of the file: the committed prefix, and the
  tail that goes to quarantine when the file does not end in a newline.
\<close>

definition split_torn :: "bytes \<Rightarrow> bytes \<times> bytes option" where
  "split_torn raw =
     (if raw = [] \<or> last raw = newline then (raw, None)
      else let complete_len = (case rposition (\<lambda>b. b = newline) raw of None \<Rightarrow> 0 | Some i \<Rightarrow> i + 1)
           in (take complete_len raw, Some (drop complete_len raw)))"

text \<open>Reads the lines of a journal; \<open>n\<close> is the index of the first of them.\<close>

fun read_journal ::
  "(nat \<Rightarrow> bytes \<Rightarrow> 'e + 'r) \<Rightarrow> nat \<Rightarrow> bytes list \<Rightarrow> 'e + 'r list" where
  "read_journal dec n [] = Inr []"
| "read_journal dec n (l # ls) =
     (if blank_line l then read_journal dec (Suc n) ls
      else (case dec n l of
          Inl e \<Rightarrow> Inl e
        | Inr r \<Rightarrow> (case read_journal dec (Suc n) ls of
            Inl e \<Rightarrow> Inl e
          | Inr rs \<Rightarrow> Inr (r # rs))))"

section \<open>A codec for witnesses\<close>

text \<open>Numbers in binary, least digit first; every byte is a digit character.\<close>

fun enc_nat :: "nat \<Rightarrow> bytes" where
  "enc_nat n = (if n = 0 then [48] else (if even n then 50 else 51) # enc_nat (n div 2))"

declare enc_nat.simps [simp del]

fun dec_nat :: "bytes \<Rightarrow> (nat \<times> bytes) option" where
  "dec_nat [] = None"
| "dec_nat (b # bs) =
     (if b = 48 then Some (0, bs)
      else (case dec_nat bs of
          None \<Rightarrow> None
        | Some (n, r) \<Rightarrow> Some (if b = 50 then 2 * n else 2 * n + 1, r)))"

text \<open>Values as lists of numbers.\<close>

definition enc_nats :: "nat list \<Rightarrow> bytes" where
  "enc_nats ns = concat (map enc_nat ns)"

fun dec_nats_n :: "nat \<Rightarrow> bytes \<Rightarrow> (nat list \<times> bytes) option" where
  "dec_nats_n 0 bs = Some ([], bs)"
| "dec_nats_n (Suc k) bs =
     (case dec_nat bs of
        None \<Rightarrow> None
      | Some (n, r) \<Rightarrow> (case dec_nats_n k r of
          None \<Rightarrow> None
        | Some (ns, r') \<Rightarrow> Some (n # ns, r')))"

definition enc_line :: "nat list \<Rightarrow> bytes" where
  "enc_line ns = enc_nat (length ns) @ enc_nats ns"

definition dec_line :: "bytes \<Rightarrow> nat list option" where
  "dec_line bs =
     (case dec_nat bs of
        None \<Rightarrow> None
      | Some (k, r) \<Rightarrow> (case dec_nats_n k r of
          Some (ns, []) \<Rightarrow> Some ns
        | _ \<Rightarrow> None))"

text \<open>Instants and strings as numbers.\<close>

definition nat_of_instant :: "instant \<Rightarrow> nat" where
  "nat_of_instant t = (if t < 0 then 2 * nat (- t) + 1 else 2 * nat t)"

definition instant_of_nat :: "nat \<Rightarrow> instant" where
  "instant_of_nat n = (if even n then int (n div 2) else - int (n div 2))"

section \<open>Lemmas\<close>

lemma split_torn_complete:
  "split_torn (unlines ls) = (unlines ls, None)"
  by (cases "ls = []") (simp_all add: split_torn_def last_unlines)

lemma split_torn_unlines:
  assumes "newline \<notin> set t" and "t \<noteq> []"
  shows "split_torn (unlines ls @ t) = (unlines ls, Some t)"
proof (cases "ls = []")
  case True
  have "rposition (\<lambda>b. b = newline) t = None" using assms(1) by (intro rposition_None) auto
  with True assms show ?thesis
    by (auto simp: split_torn_def Let_def dest: last_in_set)
next
  case False
  then obtain us u where "ls = us @ [u]" by (metis rev_exhaust)
  then have u: "unlines ls @ t = (unlines us @ u) @ newline # t" and
    len: "length (unlines ls) = Suc (length (unlines us @ u))" by simp_all
  have "rposition (\<lambda>b. b = newline) (unlines ls @ t) = Some (length (unlines us @ u))"
    unfolding u using assms(1) by (intro rposition_append_last) auto
  moreover have "last (unlines ls @ t) \<noteq> newline" using assms last_in_set by fastforce
  ultimately show ?thesis using assms(2) len
    by (simp add: split_torn_def Let_def)
qed

text \<open>Cutting a committed line short anywhere leaves a tail without newline.\<close>

lemma torn_line_no_newline:
  "newline \<notin> set l \<Longrightarrow> k \<le> length l \<Longrightarrow> newline \<notin> set (take k (l @ [newline]))"
  by (auto dest: in_set_takeD)

lemma read_journal_append_blank:
  "blank_line l \<Longrightarrow> read_journal dec n (ls @ [l]) = read_journal dec n ls"
  by (induction ls arbitrary: n) (simp_all split: sum.split)

lemma read_journal_bad_line:
  assumes "\<not> blank_line l" and "\<And>n. \<not> is_ok (dec n l)"
  shows "\<not> is_ok (read_journal dec n (ls @ l # ls'))"
proof (induction ls arbitrary: n)
  case Nil
  show ?case using assms(1) assms(2) [of n] by (auto simp: not_is_ok_iff)
next
  case (Cons a ls)
  from Cons [of "Suc n"] show ?case by (auto simp: not_is_ok_iff split: sum.split)
qed

lemma read_journal_encoded:
  assumes "\<And>n r. r \<in> set rs \<Longrightarrow> dec n (enc r) = Inr r" and "\<And>r. r \<in> set rs \<Longrightarrow> \<not> blank_line (enc r)"
  shows "read_journal dec n (map enc rs) = Inr rs"
  using assms by (induction rs arbitrary: n) simp_all

theorem read_journal_unlines:
  assumes "\<And>n r. r \<in> set rs \<Longrightarrow> dec n (enc r) = Inr r"
    and "\<And>r. r \<in> set rs \<Longrightarrow> \<not> blank_line (enc r)"
    and "\<And>r. r \<in> set rs \<Longrightarrow> newline \<notin> set (enc r)"
  shows "read_journal dec n (split_on newline (unlines (map enc rs))) = Inr rs"
proof -
  have "split_on newline (unlines (map enc rs) @ []) = map enc rs @ [[]]"
    using assms(3) by (subst split_on_unlines) auto
  then show ?thesis
    using read_journal_append_blank [of "[]" dec n "map enc rs"]
      read_journal_encoded [of rs dec enc n] assms by simp
qed

lemma dec_enc_nat: "dec_nat (enc_nat n @ r) = Some (n, r)"
proof (induction n rule: enc_nat.induct)
  case (1 n)
  show ?case
  proof (cases "n = 0")
    case True
    then show ?thesis by (simp add: enc_nat.simps)
  next
    case False
    with 1 have "dec_nat (enc_nat (n div 2) @ r) = Some (n div 2, r)" by simp
    with False show ?thesis by (subst enc_nat.simps) (auto elim: oddE)
  qed
qed

lemma enc_nat_digits: "set (enc_nat n) \<subseteq> {48, 50, 51}"
proof (induction n rule: enc_nat.induct)
  case (1 n)
  then show ?case by (subst enc_nat.simps) auto
qed

lemma enc_nat_not_Nil [simp]: "enc_nat n \<noteq> []"
  by (subst enc_nat.simps) simp

lemma dec_enc_nats: "dec_nats_n (length ns) (enc_nats ns @ r) = Some (ns, r)"
  by (induction ns) (simp_all add: enc_nats_def dec_enc_nat)

lemma dec_nats_short: "length ns < k \<Longrightarrow> dec_nats_n k (enc_nats ns) = None"
proof (induction ns arbitrary: k)
  case Nil
  then show ?case by (cases k) (simp_all add: enc_nats_def)
next
  case (Cons n ns)
  then obtain k' where "k = Suc k'" by (cases k) simp_all
  with Cons show ?case by (simp add: enc_nats_def dec_enc_nat)
qed

lemma dec_prefixed_line: "b \<notin> {48, 50} \<Longrightarrow> dec_line (b # enc_line ns) = None"
  using dec_nats_short [of ns "2 * length ns + 1"] by (simp add: dec_line_def enc_line_def dec_enc_nat)

lemma dec_enc_line: "dec_line (enc_line ns) = Some ns"
  using dec_enc_nats [of ns "[]"] by (simp add: dec_line_def enc_line_def dec_enc_nat)

lemma enc_line_inject [simp]: "enc_line ms = enc_line ns \<longleftrightarrow> ms = ns"
  by (metis dec_enc_line option.inject)

lemma enc_line_digits: "set (enc_line ns) \<subseteq> {48, 50, 51}"
  using enc_nat_digits by (auto simp: enc_line_def enc_nats_def)

lemma enc_line_no_newline: "newline \<notin> set (enc_line ns)"
  using enc_line_digits [of ns] by (auto simp: newline_def)

lemma enc_line_not_blank: "\<not> blank_line (enc_line ns)"
proof
  assume blank: "blank_line (enc_line ns)"
  have "hd (enc_line ns) \<in> set (enc_line ns)" by (simp add: enc_line_def)
  moreover from this blank have "is_ascii_whitespace (hd (enc_line ns))"
    by (simp add: blank_line_def list_all_iff)
  ultimately show False using enc_line_digits [of ns] by (auto simp: is_ascii_whitespace_def)
qed

lemma instant_of_nat_of_instant [simp]: "instant_of_nat (nat_of_instant t) = t"
  by (auto simp: instant_of_nat_def nat_of_instant_def)

end
