(* ===== verification/Ledger.thy ===== *)
theory Ledger
  imports Journal Grant_Verifier
begin

text \<open>
  \<^verbatim>\<open>centrald-client/src/ledger.rs\<close>: the broker's durable journal of executed jobs and consumed
  grants. The state is the bytes of the two files; \<open>read_committed\<close>, \<open>lookup\<close>, \<open>ledger_append\<close> and
  \<open>compact_if_needed\<close> work on those bytes. The abstract ledger is the list of committed records
  (\<open>ledger_shape\<close>), and every operation is shown to implement its abstract counterpart on it, also
  when the last line of the file is torn.
\<close>

section \<open>Data\<close>

definition LEDGER_VERSION :: "32 word" where
  "LEDGER_VERSION = 1"

definition RECORD_RETENTION :: int where
  "RECORD_RETENTION = secs (7 * 24 * 60 * 60)"

definition EXECUTING_MARKER_TTL :: int where
  "EXECUTING_MARKER_TTL = secs (30 * 60)"

definition MAX_LEDGER_BYTES :: nat where
  "MAX_LEDGER_BYTES = 4 * 1024 * 1024"

definition MAX_RETAINED_INTERRUPTED_MARKERS :: nat where
  "MAX_RETAINED_INTERRUPTED_MARKERS = 32"

definition MAX_RECORDED_OUTPUT_BYTES :: nat where
  "MAX_RECORDED_OUTPUT_BYTES = 64 * 1024"

datatype ledger_state = Executing | Completed

record ledger_record =
  lr_job_id :: uuid
  lr_operation :: grant_operation
  lr_state :: ledger_state
  lr_response :: "broker_response option"
  lr_expires_at :: instant
  lr_recorded_at :: instant

record ledger_envelope =
  le_version :: "32 word"
  le_record :: ledger_record
  le_checksum_sha256 :: string

datatype ledger_lookup = LookupExecuting bool | LookupCompleted broker_response

text \<open>
  One file: its bytes, whether the path is a regular file (otherwise it is a symbolic link, which
  \<^verbatim>\<open>O_NOFOLLOW\<close> refuses), and whether it has the expected owner and no group or world write bit.
\<close>

record ledger_file =
  lf_bytes :: bytes
  lf_regular :: bool
  lf_privileged :: bool

record ledger =
  ld_jobs :: "ledger_file option"
  ld_consumed :: "ledger_file option"
  ld_quarantine :: "bytes list"

datatype ledger_error = ParseRecord nat | UnsupportedVersion nat | ChecksumMismatch nat
  | MissingPayload | MissingChecksum | MissingGrantId | MissingExpiresAt | InvalidValue
  | MissingResponse | AlreadyRecorded | NoExecutingMarker | OutputBound | RecordMissing
  | NotRegularFile | NotPrivileged | OpenRefused | UnsafeDirectory

text \<open>
  The JSON and hashing crates: the derived encoding of an envelope, the digest of a record's
  encoding (\<^verbatim>\<open>record_checksum\<close>), and for the consumed-grant journal the encoding of a JSON value,
  the JSON forms of a UUID and an instant, and the digest of bytes. \<open>lc_hash_order\<close> is the
  iteration order of a \<^verbatim>\<open>HashMap\<close>.
\<close>

record ledger_codec =
  lc_ser :: "ledger_envelope \<Rightarrow> bytes"
  lc_par :: "bytes \<Rightarrow> ledger_envelope option"
  lc_sum :: "ledger_record \<Rightarrow> string"
  lc_to_vec :: "json \<Rightarrow> bytes"
  lc_from_slice :: "bytes \<Rightarrow> json option"
  lc_sha_hex :: "bytes \<Rightarrow> string"
  lc_uuid :: "uuid \<Rightarrow> json"
  lc_uuid_of :: "json \<Rightarrow> uuid option"
  lc_time :: "instant \<Rightarrow> json"
  lc_time_of :: "json \<Rightarrow> instant option"
  lc_hash_order :: "ledger_record list \<Rightarrow> ledger_record list"

section \<open>Operations on the job journal\<close>

definition ledger_open ::
  "bool \<Rightarrow> bool \<Rightarrow> bool option \<Rightarrow> ledger_error + bool" where
  "ledger_open dir_ancestors_ok path_ancestors_ok dir =
     (if \<not> dir_ancestors_ok then Inl UnsafeDirectory
      else if dir = Some False then Inl UnsafeDirectory
      else if \<not> path_ancestors_ok then Inl UnsafeDirectory
      else Inr (dir = None))"

definition ledger_envelope_of :: "ledger_codec \<Rightarrow> ledger_record \<Rightarrow> ledger_envelope" where
  "ledger_envelope_of c r =
     \<lparr> le_version = LEDGER_VERSION, le_record = r, le_checksum_sha256 = lc_sum c r \<rparr>"

definition record_line :: "ledger_codec \<Rightarrow> ledger_record \<Rightarrow> bytes" where
  "record_line c r = lc_ser c (ledger_envelope_of c r)"

definition recover_torn_final_record ::
  "ledger \<Rightarrow> ledger_file \<Rightarrow> (ledger_error + bytes) \<times> ledger" where
  "recover_torn_final_record L f =
     (case split_torn (lf_bytes f) of
        (raw, None) \<Rightarrow> (Inr raw, L)
      | (complete, Some tail) \<Rightarrow>
          let L = L \<lparr> ld_quarantine := ld_quarantine L @ [tail] \<rparr> in
          if \<not> lf_regular f then (Inl OpenRefused, L)
          else (Inr complete, L \<lparr> ld_jobs := Some (f \<lparr> lf_bytes := complete \<rparr>) \<rparr>))"

text \<open>The checks of \<^verbatim>\<open>read_committed\<close> on one line, and the records it keeps.\<close>

definition decode_record ::
  "ledger_codec \<Rightarrow> nat \<Rightarrow> bytes \<Rightarrow> ledger_error + ledger_record" where
  "decode_record c index line =
     (case lc_par c line of
        None \<Rightarrow> Inl (ParseRecord (index + 1))
      | Some envelope \<Rightarrow>
          if le_version envelope \<noteq> LEDGER_VERSION then Inl (UnsupportedVersion (index + 1))
          else if le_checksum_sha256 envelope \<noteq> lc_sum c (le_record envelope)
            then Inl (ChecksumMismatch (index + 1))
          else Inr (le_record envelope))"

definition retained :: "instant \<Rightarrow> ledger_record \<Rightarrow> bool" where
  "retained now r \<longleftrightarrow> lr_expires_at r > now \<or> lr_state r = Executing"

definition read_committed ::
  "ledger_codec \<Rightarrow> ledger \<Rightarrow> ledger_file \<Rightarrow> instant \<Rightarrow> (ledger_error + ledger_record list) \<times> ledger"
where
  "read_committed c L f now =
     (case recover_torn_final_record L f of
        (Inl e, L) \<Rightarrow> (Inl e, L)
      | (Inr raw, L) \<Rightarrow>
          (case read_journal (decode_record c) 0 (split_on newline raw) of
             Inl e \<Rightarrow> (Inl e, L)
           | Inr records \<Rightarrow> (Inr (filter (retained now) records), L)))"

definition find_record :: "uuid \<Rightarrow> ledger_record list \<Rightarrow> ledger_record option" where
  "find_record job_id records = find (\<lambda>r. lr_job_id r = job_id) (rev records)"

definition lookup_result ::
  "instant \<Rightarrow> ledger_record option \<Rightarrow> ledger_error + ledger_lookup option" where
  "lookup_result now found =
     (case found of
        None \<Rightarrow> Inr None
      | Some r \<Rightarrow> (case lr_state r of
          Executing \<Rightarrow> Inr (Some (LookupExecuting (lr_expires_at r \<le> now)))
        | Completed \<Rightarrow> (case lr_response r of
            None \<Rightarrow> Inl MissingResponse
          | Some response \<Rightarrow> Inr (Some (LookupCompleted response)))))"

definition lookup ::
  "ledger_codec \<Rightarrow> ledger \<Rightarrow> uuid \<Rightarrow> instant \<Rightarrow> (ledger_error + ledger_lookup option) \<times> ledger" where
  "lookup c L job_id now =
     (case ld_jobs L of
        None \<Rightarrow> (Inr None, L)
      | Some f \<Rightarrow> (case read_committed c L f now of
          (Inl e, L) \<Rightarrow> (Inl e, L)
        | (Inr records, L) \<Rightarrow> (lookup_result now (find_record job_id records), L)))"

definition latest_operation ::
  "ledger_codec \<Rightarrow> ledger \<Rightarrow> uuid \<Rightarrow> instant \<Rightarrow> (ledger_error + grant_operation) \<times> ledger" where
  "latest_operation c L job_id now =
     (case ld_jobs L of
        None \<Rightarrow> (Inl OpenRefused, L)
      | Some f \<Rightarrow> (case read_committed c L f now of
          (Inl e, L) \<Rightarrow> (Inl e, L)
        | (Inr records, L) \<Rightarrow> (case find_record job_id records of
            None \<Rightarrow> (Inl RecordMissing, L)
          | Some r \<Rightarrow> (Inr (lr_operation r), L))))"

text \<open>
  Compaction. \<open>latest_records\<close> is the map that the loop of insertions builds: the last record of
  every job. \<open>newest_markers\<close> sorts the executing ones by their time, newest first, and keeps 32.
\<close>

fun latest_records :: "ledger_record list \<Rightarrow> ledger_record list" where
  "latest_records [] = []"
| "latest_records (r # rs) =
     (if lr_job_id r \<in> set (map lr_job_id rs) then latest_records rs else r # latest_records rs)"

definition newest_markers :: "ledger_record list \<Rightarrow> ledger_record list" where
  "newest_markers rs =
     take MAX_RETAINED_INTERRUPTED_MARKERS
       (rev (sort_key lr_recorded_at (filter (\<lambda>r. lr_state r = Executing) rs)))"

definition compacted :: "ledger_codec \<Rightarrow> ledger_record list \<Rightarrow> ledger_record list" where
  "compacted c records =
     (let latest = lc_hash_order c (latest_records records);
          interrupted_ids = set (map lr_job_id (newest_markers latest))
      in filter (\<lambda>r. lr_state r \<noteq> Executing \<or> lr_job_id r \<in> interrupted_ids) latest)"

definition compact_if_needed ::
  "ledger_codec \<Rightarrow> ledger \<Rightarrow> instant \<Rightarrow> (ledger_error + unit) \<times> ledger" where
  "compact_if_needed c L wall =
     (case ld_jobs L of
        None \<Rightarrow> (Inr (), L)
      | Some f \<Rightarrow>
          if \<not> lf_regular f then (Inl NotRegularFile, L)
          else if length (lf_bytes f) \<le> MAX_LEDGER_BYTES then (Inr (), L)
          else (case read_committed c L f wall of
              (Inl e, L) \<Rightarrow> (Inl e, L)
            | (Inr records, L) \<Rightarrow>
                (Inr (), L \<lparr> ld_jobs := Some \<lparr>
                   lf_bytes = unlines (map (record_line c) (compacted c records)),
                   lf_regular = True, lf_privileged = True \<rparr> \<rparr>)))"

definition ledger_append ::
  "ledger_codec \<Rightarrow> ledger \<Rightarrow> ledger_record \<Rightarrow> instant \<Rightarrow> (ledger_error + unit) \<times> ledger" where
  "ledger_append c L r wall =
     (case compact_if_needed c L wall of
        (Inl e, L) \<Rightarrow> (Inl e, L)
      | (Inr _, L) \<Rightarrow>
          let f = (case ld_jobs L of
                     None \<Rightarrow> \<lparr> lf_bytes = [], lf_regular = True, lf_privileged = True \<rparr>
                   | Some f \<Rightarrow> f) in
          if \<not> lf_regular f then (Inl OpenRefused, L)
          else if \<not> lf_privileged f then (Inl NotPrivileged, L)
          else (Inr (), L \<lparr> ld_jobs :=
                  Some (f \<lparr> lf_bytes := lf_bytes f @ record_line c r @ [newline] \<rparr>) \<rparr>))"

definition executing_record :: "uuid \<Rightarrow> grant_operation \<Rightarrow> instant \<Rightarrow> ledger_record" where
  "executing_record job_id operation now =
     \<lparr> lr_job_id = job_id, lr_operation = operation, lr_state = Executing, lr_response = None,
       lr_expires_at = now + EXECUTING_MARKER_TTL, lr_recorded_at = now \<rparr>"

definition completed_record ::
  "uuid \<Rightarrow> grant_operation \<Rightarrow> broker_response \<Rightarrow> instant \<Rightarrow> ledger_record" where
  "completed_record job_id operation response now =
     \<lparr> lr_job_id = job_id, lr_operation = operation, lr_state = Completed,
       lr_response = Some response, lr_expires_at = now + RECORD_RETENTION, lr_recorded_at = now \<rparr>"

definition mark_executing ::
  "ledger_codec \<Rightarrow> ledger \<Rightarrow> uuid \<Rightarrow> grant_operation \<Rightarrow> instant \<Rightarrow> instant \<Rightarrow>
     (ledger_error + unit) \<times> ledger" where
  "mark_executing c L job_id operation now wall =
     (case lookup c L job_id now of
        (Inl e, L) \<Rightarrow> (Inl e, L)
      | (Inr (Some _), L) \<Rightarrow> (Inl AlreadyRecorded, L)
      | (Inr None, L) \<Rightarrow> ledger_append c L (executing_record job_id operation now) wall)"

definition record_completed ::
  "ledger_codec \<Rightarrow> ledger \<Rightarrow> uuid \<Rightarrow> broker_response \<Rightarrow> instant \<Rightarrow> instant \<Rightarrow>
     (ledger_error + unit) \<times> ledger" where
  "record_completed c L job_id response now wall =
     (if length (bp_output response) > MAX_RECORDED_OUTPUT_BYTES then (Inl OutputBound, L)
      else (case lookup c L job_id now of
          (Inl e, L) \<Rightarrow> (Inl e, L)
        | (Inr None, L) \<Rightarrow> (Inl NoExecutingMarker, L)
        | (Inr (Some _), L) \<Rightarrow> (case latest_operation c L job_id now of
            (Inl e, L) \<Rightarrow> (Inl e, L)
          | (Inr operation, L) \<Rightarrow> ledger_append c L (completed_record job_id operation response now) wall)))"

section \<open>Operations on the consumed-grant journal\<close>

definition consumed_payload :: "ledger_codec \<Rightarrow> uuid \<Rightarrow> instant \<Rightarrow> json" where
  "consumed_payload c grant_id expires_at =
     JObj [(''grant_id'', lc_uuid c grant_id), (''expires_at'', lc_time c expires_at)]"

definition consumed_line :: "ledger_codec \<Rightarrow> uuid \<Rightarrow> instant \<Rightarrow> bytes" where
  "consumed_line c grant_id expires_at =
     (let payload = consumed_payload c grant_id expires_at;
          checksum = lc_sha_hex c (lc_to_vec c payload)
      in lc_to_vec c (JObj [(''record'', payload), (''checksum_sha256'', JStr checksum)]))"

definition record_consumed_grant ::
  "ledger_codec \<Rightarrow> ledger \<Rightarrow> uuid \<Rightarrow> instant \<Rightarrow> (ledger_error + unit) \<times> ledger" where
  "record_consumed_grant c L grant_id expires_at =
     (let f = (case ld_consumed L of
                 None \<Rightarrow> \<lparr> lf_bytes = [], lf_regular = True, lf_privileged = True \<rparr>
               | Some f \<Rightarrow> f) in
      if \<not> lf_regular f then (Inl OpenRefused, L)
      else (Inr (), L \<lparr> ld_consumed := Some (f \<lparr> lf_bytes :=
                          lf_bytes f @ consumed_line c grant_id expires_at @ [newline] \<rparr>) \<rparr>))"

definition decode_consumed ::
  "ledger_codec \<Rightarrow> nat \<Rightarrow> bytes \<Rightarrow> ledger_error + uuid \<times> instant" where
  "decode_consumed c index line =
     (case lc_from_slice c line of
        None \<Rightarrow> Inl (ParseRecord (index + 1))
      | Some envelope \<Rightarrow> (case json_get ''record'' envelope of
          None \<Rightarrow> Inl MissingPayload
        | Some rec \<Rightarrow> (case Option.bind (json_get ''checksum_sha256'' envelope) json_as_str of
            None \<Rightarrow> Inl MissingChecksum
          | Some checksum \<Rightarrow>
              if checksum \<noteq> lc_sha_hex c (lc_to_vec c rec) then Inl (ChecksumMismatch (index + 1))
              else (case json_get ''grant_id'' rec of
                  None \<Rightarrow> Inl MissingGrantId
                | Some j \<Rightarrow> (case lc_uuid_of c j of
                    None \<Rightarrow> Inl InvalidValue
                  | Some grant_id \<Rightarrow> (case json_get ''expires_at'' rec of
                      None \<Rightarrow> Inl MissingExpiresAt
                    | Some j \<Rightarrow> (case lc_time_of c j of
                        None \<Rightarrow> Inl InvalidValue
                      | Some expires_at \<Rightarrow> Inr (grant_id, expires_at))))))))"

definition load_consumed_grants ::
  "ledger_codec \<Rightarrow> ledger \<Rightarrow> instant \<Rightarrow> ledger_error + (uuid \<times> instant) list" where
  "load_consumed_grants c L now =
     (case ld_consumed L of
        None \<Rightarrow> Inr []
      | Some f \<Rightarrow>
          (case read_journal (decode_consumed c) 0 (split_on newline (lf_bytes f)) of
             Inl e \<Rightarrow> Inl e
           | Inr grants \<Rightarrow> Inr (filter (\<lambda>(_, expires_at). expires_at > now) grants)))"

definition grant_was_consumed ::
  "ledger_codec \<Rightarrow> ledger \<Rightarrow> uuid \<Rightarrow> instant \<Rightarrow> ledger_error + bool" where
  "grant_was_consumed c L grant_id now =
     (case load_consumed_grants c L now of
        Inl e \<Rightarrow> Inl e
      | Inr grants \<Rightarrow> Inr (list_ex (\<lambda>(i, _). i = grant_id) grants))"

section \<open>What the crates promise\<close>

definition ledger_codec_ok :: "ledger_codec \<Rightarrow> bool" where
  "ledger_codec_ok c \<longleftrightarrow>
     (\<forall>e. lc_par c (lc_ser c e) = Some e \<and> newline \<notin> set (lc_ser c e) \<and> \<not> blank_line (lc_ser c e)) \<and>
     (\<forall>rs. mset (lc_hash_order c rs) = mset rs)"

definition consumed_codec_ok :: "ledger_codec \<Rightarrow> bool" where
  "consumed_codec_ok c \<longleftrightarrow>
     (\<forall>i t s. let j = JObj [(''record'', consumed_payload c i t), (''checksum_sha256'', JStr s)] in
        lc_from_slice c (lc_to_vec c j) = Some j \<and> newline \<notin> set (lc_to_vec c j) \<and>
        \<not> blank_line (lc_to_vec c j)) \<and>
     (\<forall>i. lc_uuid_of c (lc_uuid c i) = Some i) \<and> (\<forall>t. lc_time_of c (lc_time c t) = Some t)"

section \<open>The abstract ledger\<close>

text \<open>
  \<open>ledger_shape c L rs t\<close>: the job journal is safe to write and holds exactly the committed records
  \<open>rs\<close>, in order, followed by a torn tail \<open>t\<close>.
\<close>

definition ledger_shape :: "ledger_codec \<Rightarrow> ledger \<Rightarrow> ledger_record list \<Rightarrow> bytes \<Rightarrow> bool" where
  "ledger_shape c L rs t \<longleftrightarrow> newline \<notin> set t \<and>
     (case ld_jobs L of
        None \<Rightarrow> rs = [] \<and> t = []
      | Some f \<Rightarrow> lf_regular f \<and> lf_privileged f \<and>
          lf_bytes f = unlines (map (record_line c) rs) @ t)"

definition a_lookup ::
  "ledger_record list \<Rightarrow> uuid \<Rightarrow> instant \<Rightarrow> ledger_error + ledger_lookup option" where
  "a_lookup rs job_id now = lookup_result now (find_record job_id (filter (retained now) rs))"

definition ledger_small :: "ledger \<Rightarrow> bool" where
  "ledger_small L = (case ld_jobs L of None \<Rightarrow> True | Some f \<Rightarrow> length (lf_bytes f) \<le> MAX_LEDGER_BYTES)"

text \<open>The ledger after a read has moved the torn tail into quarantine.\<close>

definition recovered :: "ledger_codec \<Rightarrow> ledger \<Rightarrow> ledger_record list \<Rightarrow> bytes \<Rightarrow> ledger" where
  "recovered c L rs t =
     (if t = [] then L
      else L \<lparr> ld_quarantine := ld_quarantine L @ [t],
               ld_jobs := Some \<lparr> lf_bytes = unlines (map (record_line c) rs),
                                 lf_regular = True, lf_privileged = True \<rparr> \<rparr>)"

section \<open>Reading\<close>

lemma decode_record_line:
  "ledger_codec_ok c \<Longrightarrow> decode_record c n (record_line c r) = Inr r"
  by (simp add: ledger_codec_ok_def decode_record_def record_line_def ledger_envelope_of_def)

lemma record_line_props:
  "ledger_codec_ok c \<Longrightarrow> newline \<notin> set (record_line c r)"
  "ledger_codec_ok c \<Longrightarrow> \<not> blank_line (record_line c r)"
  by (simp_all add: ledger_codec_ok_def record_line_def)

lemma read_records:
  "ledger_codec_ok c \<Longrightarrow>
     read_journal (decode_record c) n (split_on newline (unlines (map (record_line c) rs))) = Inr rs"
  by (rule read_journal_unlines) (simp_all add: decode_record_line record_line_props)

lemma recovered_shape:
  "ledger_shape c L rs t \<Longrightarrow> ledger_shape c (recovered c L rs t) rs []"
  by (cases "t = []") (simp_all add: recovered_def ledger_shape_def)

lemma recovered_frame [simp]:
  "ld_consumed (recovered c L rs t) = ld_consumed L"
  by (simp add: recovered_def)

lemma recovered_small:
  "ledger_shape c L rs t \<Longrightarrow> ledger_small L \<Longrightarrow> ledger_small (recovered c L rs t)"
  by (auto simp: recovered_def ledger_small_def ledger_shape_def split: option.splits)

lemma recover_shape:
  assumes "ledger_shape c L rs t" and "ld_jobs L = Some f"
  shows "recover_torn_final_record L f =
    (Inr (unlines (map (record_line c) rs)), recovered c L rs t)"
proof (cases "t = []")
  case True
  with assms show ?thesis
    by (simp add: recover_torn_final_record_def ledger_shape_def split_torn_complete recovered_def)
next
  case False
  with assms have "split_torn (lf_bytes f) = (unlines (map (record_line c) rs), Some t)"
    by (simp add: ledger_shape_def split_torn_unlines)
  with False assms show ?thesis
    by (cases f) (simp add: recover_torn_final_record_def ledger_shape_def recovered_def Let_def)
qed

lemma read_committed_shape:
  assumes "ledger_codec_ok c" and "ledger_shape c L rs t" and "ld_jobs L = Some f"
  shows "read_committed c L f now = (Inr (filter (retained now) rs), recovered c L rs t)"
  using assms by (simp add: read_committed_def recover_shape read_records)

lemma lookup_shape:
  assumes "ledger_codec_ok c" and "ledger_shape c L rs t"
  shows "lookup c L j now = (a_lookup rs j now, recovered c L rs t)"
proof (cases "ld_jobs L")
  case None
  with assms show ?thesis
    by (simp add: lookup_def ledger_shape_def a_lookup_def find_record_def lookup_result_def recovered_def)
next
  case (Some f)
  with assms show ?thesis by (simp add: lookup_def read_committed_shape a_lookup_def)
qed

lemma a_lookup_not_None_jobs:
  assumes "ledger_shape c L rs t" and "a_lookup rs j now \<noteq> Inr None"
  shows "\<exists>f. ld_jobs L = Some f"
  using assms
  by (cases "ld_jobs L") (simp_all add: ledger_shape_def a_lookup_def find_record_def lookup_result_def)

section \<open>Writing\<close>

lemma ledger_append_shape:
  assumes "ledger_shape c L rs []" and "ledger_small L"
  shows "fst (ledger_append c L r wall) = Inr ()"
    and "ledger_shape c (snd (ledger_append c L r wall)) (rs @ [r]) []"
    and "ld_consumed (snd (ledger_append c L r wall)) = ld_consumed L"
  using assms
  by (auto simp: ledger_append_def compact_if_needed_def ledger_shape_def ledger_small_def Let_def
      split: option.splits)

lemma mark_executing_shape:
  assumes "ledger_codec_ok c" and "ledger_shape c L rs t" and "ledger_small L"
    and "a_lookup rs j now = Inr None"
  shows "fst (mark_executing c L j oper now wall) = Inr ()"
    and "ledger_shape c (snd (mark_executing c L j oper now wall)) (rs @ [executing_record j oper now]) []"
    and "ld_consumed (snd (mark_executing c L j oper now wall)) = ld_consumed L"
  using assms ledger_append_shape [OF recovered_shape recovered_small, of c L rs t]
  by (simp_all add: mark_executing_def lookup_shape)

lemma mark_executing_refused:
  assumes "ledger_codec_ok c" and "ledger_shape c L rs t" and "a_lookup rs j now \<noteq> Inr None"
  shows "\<not> is_ok (fst (mark_executing c L j oper now wall))"
    and "snd (mark_executing c L j oper now wall) = recovered c L rs t"
  using assms by (auto simp: mark_executing_def lookup_shape split: sum.split option.split)

lemma a_lookup_found:
  assumes "a_lookup rs j now = Inr (Some x)"
  obtains r where "find_record j (filter (retained now) rs) = Some r"
  using assms by (auto simp: a_lookup_def lookup_result_def split: option.splits)

lemma latest_operation_shape:
  assumes "ledger_codec_ok c" and "ledger_shape c L rs []"
    and "find_record j (filter (retained now) rs) = Some r"
  shows "latest_operation c L j now = (Inr (lr_operation r), L)"
proof (cases "ld_jobs L")
  case None
  with assms show ?thesis by (simp add: ledger_shape_def find_record_def)
next
  case (Some f)
  with assms show ?thesis
    by (simp add: latest_operation_def read_committed_shape recovered_def)
qed

lemma record_completed_shape:
  assumes "ledger_codec_ok c" and "ledger_shape c L rs t" and "ledger_small L"
    and "a_lookup rs j now = Inr (Some x)"
    and "length (bp_output response) \<le> MAX_RECORDED_OUTPUT_BYTES"
  shows "\<exists>oper. fst (record_completed c L j response now wall) = Inr () \<and>
    ledger_shape c (snd (record_completed c L j response now wall))
      (rs @ [completed_record j oper response now]) []"
proof -
  obtain r where r: "find_record j (filter (retained now) rs) = Some r"
    using a_lookup_found [OF assms(4)] .
  have "latest_operation c (recovered c L rs t) j now = (Inr (lr_operation r), recovered c L rs t)"
    by (rule latest_operation_shape [OF assms(1) recovered_shape [OF assms(2)] r])
  then show ?thesis
    using assms ledger_append_shape [OF recovered_shape recovered_small, of c L rs t]
    by (intro exI [of _ "lr_operation r"]) (simp add: record_completed_def lookup_shape)
qed

section \<open>The abstract operations\<close>

lemma find_record_append:
  "find_record j (rs @ [r]) = (if lr_job_id r = j then Some r else find_record j rs)"
  by (simp add: find_record_def)

lemma find_record_None: "find_record j rs = None \<longleftrightarrow> (\<forall>r \<in> set rs. lr_job_id r \<noteq> j)"
  by (auto simp: find_record_def find_None_iff)

lemma find_record_Some: "find_record j rs = Some r \<Longrightarrow> r \<in> set rs \<and> lr_job_id r = j"
  unfolding find_record_def by (auto simp: find_Some_iff) (metis nth_mem set_rev length_rev)

lemma a_lookup_marker:
  assumes "r \<in> set rs" and "lr_job_id r = j" and "lr_state r = Executing"
  shows "a_lookup rs j now \<noteq> Inr None"
proof -
  have "find_record j (filter (retained now) rs) \<noteq> None"
    using assms by (auto simp: find_record_None retained_def)
  then show ?thesis
    by (auto simp: a_lookup_def lookup_result_def split: option.splits ledger_state.splits)
qed

lemma a_lookup_after_mark:
  "a_lookup (rs @ [executing_record j oper t]) j now = Inr (Some (LookupExecuting (t + EXECUTING_MARKER_TTL \<le> now)))"
  by (simp add: a_lookup_def retained_def executing_record_def find_record_append lookup_result_def)

lemma a_lookup_after_completed:
  "now < t + RECORD_RETENTION \<Longrightarrow>
     a_lookup (rs @ [completed_record j oper response t]) j now = Inr (Some (LookupCompleted response))"
  by (simp add: a_lookup_def retained_def completed_record_def find_record_append lookup_result_def)

lemma a_lookup_other:
  "lr_job_id r \<noteq> j \<Longrightarrow> a_lookup (rs @ [r]) j now = a_lookup rs j now"
  by (simp add: a_lookup_def find_record_append)

section \<open>Compaction\<close>

lemma latest_records_subset: "set (latest_records rs) \<subseteq> set rs"
  by (induction rs) auto

lemma latest_records_jobs: "lr_job_id ` set (latest_records rs) = lr_job_id ` set rs"
  by (induction rs) auto

lemma latest_records_distinct: "distinct (map lr_job_id (latest_records rs))"
proof (induction rs)
  case (Cons r rs)
  then show ?case using latest_records_jobs [of rs] by simp
qed simp

lemma find_record_distinct:
  assumes "distinct (map lr_job_id rs)" and "r \<in> set rs"
  shows "find_record (lr_job_id r) rs = Some r"
proof -
  have "find_record (lr_job_id r) rs \<noteq> None" using assms(2) by (auto simp: find_record_None)
  then obtain r' where r': "find_record (lr_job_id r) rs = Some r'" by auto
  then have "r' \<in> set rs" and "lr_job_id r' = lr_job_id r" by (auto dest: find_record_Some)
  with assms have "r' = r" by (auto simp: distinct_map inj_on_def)
  with r' show ?thesis by simp
qed

lemma find_record_Cons:
  "find_record j (r # rs) =
     (case find_record j rs of Some r' \<Rightarrow> Some r' | None \<Rightarrow> if lr_job_id r = j then Some r else None)"
proof -
  have "find P (xs @ ys) = (case find P xs of Some x \<Rightarrow> Some x | None \<Rightarrow> find P ys)"
    for P and xs ys :: "ledger_record list" by (induction xs) auto
  then show ?thesis by (simp add: find_record_def split: option.split)
qed

lemma find_record_latest: "find_record j rs = Some r \<Longrightarrow> r \<in> set (latest_records rs)"
proof (induction rs)
  case (Cons x rs)
  show ?case
  proof (cases "find_record j rs")
    case None
    with Cons.prems have "x = r" and "lr_job_id x = j"
      by (auto simp: find_record_Cons split: if_splits)
    with None show ?thesis by (auto simp: find_record_None)
  next
    case (Some r')
    with Cons show ?thesis by (auto simp: find_record_Cons)
  qed
qed (simp add: find_record_def)

lemma hash_order_set: "ledger_codec_ok c \<Longrightarrow> set (lc_hash_order c rs) = set rs"
  unfolding ledger_codec_ok_def by (rule mset_eq_setD) blast

lemma compacted_distinct:
  assumes "ledger_codec_ok c"
  shows "distinct (map lr_job_id (compacted c rs))"
proof -
  have m: "mset (lc_hash_order c (latest_records rs)) = mset (latest_records rs)"
    using assms by (simp add: ledger_codec_ok_def)
  then have "mset (map lr_job_id (lc_hash_order c (latest_records rs))) = mset (map lr_job_id (latest_records rs))"
    by simp
  then have "distinct (map lr_job_id (lc_hash_order c (latest_records rs)))"
    using latest_records_distinct mset_eq_imp_distinct_iff by metis
  then show ?thesis by (simp add: compacted_def Let_def distinct_map_filter)
qed

lemma compacted_subset:
  assumes "ledger_codec_ok c"
  shows "set (compacted c rs) \<subseteq> set rs"
  using latest_records_subset by (auto simp: compacted_def Let_def hash_order_set [OF assms])

lemma find_record_compacted:
  assumes "ledger_codec_ok c" and "find_record j rs = Some r" and "lr_state r = Completed"
  shows "find_record j (compacted c rs) = Some r"
proof -
  have "r \<in> set (compacted c rs)"
    using find_record_latest [OF assms(2)] assms(3)
    by (auto simp: compacted_def Let_def hash_order_set [OF assms(1)])
  moreover have "lr_job_id r = j" using find_record_Some [OF assms(2)] by simp
  ultimately show ?thesis
    using find_record_distinct [OF compacted_distinct [OF assms(1)]] by blast
qed

lemma compact_shape:
  assumes "ledger_codec_ok c" and "ledger_shape c L rs t" and "\<not> ledger_small L"
  shows "fst (compact_if_needed c L wall) = Inr ()"
    and "ledger_shape c (snd (compact_if_needed c L wall)) (compacted c (filter (retained wall) rs)) []"
  using assms
  by (auto simp: compact_if_needed_def ledger_small_def read_committed_shape ledger_shape_def
      split: option.splits)

section \<open>The job operations leave the consumed-grant journal alone\<close>

lemma read_committed_consumed: "ld_consumed (snd (read_committed c L f now)) = ld_consumed L"
  by (auto simp: read_committed_def recover_torn_final_record_def Let_def split: sum.split prod.split option.split)

lemma lookup_consumed: "ld_consumed (snd (lookup c L j now)) = ld_consumed L"
  using read_committed_consumed [of c L _ now]
  by (auto simp: lookup_def split: sum.split prod.split option.split) (metis snd_conv)+

lemma latest_operation_consumed: "ld_consumed (snd (latest_operation c L j now)) = ld_consumed L"
  using read_committed_consumed [of c L _ now]
  by (auto simp: latest_operation_def split: sum.split prod.split option.split) (metis snd_conv)+

lemma ledger_append_consumed: "ld_consumed (snd (ledger_append c L r wall)) = ld_consumed L"
proof -
  have "ld_consumed (snd (compact_if_needed c L wall)) = ld_consumed L"
    using read_committed_consumed [of c L _ wall]
    by (auto simp: compact_if_needed_def split: sum.split prod.split option.split) (metis snd_conv)+
  then show ?thesis by (auto simp: ledger_append_def Let_def split: sum.split prod.split option.split)
qed

lemma mark_executing_consumed: "ld_consumed (snd (mark_executing c L j oper now wall)) = ld_consumed L"
  using lookup_consumed [of c L j now] ledger_append_consumed
  by (auto simp: mark_executing_def split: sum.split prod.split option.split)

lemma record_completed_consumed:
  "ld_consumed (snd (record_completed c L j response now wall)) = ld_consumed L"
  using lookup_consumed [of c L j now] latest_operation_consumed [of c _ j now] ledger_append_consumed
  by (auto simp: record_completed_def split: sum.split prod.split option.split) (metis snd_conv)+

section \<open>The consumed-grant journal\<close>

text \<open>The journal holds exactly the consumed grants \<open>gs\<close>, in order.\<close>

definition consumed_shape :: "ledger_codec \<Rightarrow> ledger \<Rightarrow> (uuid \<times> instant) list \<Rightarrow> bool" where
  "consumed_shape c L gs \<longleftrightarrow>
     (case ld_consumed L of
        None \<Rightarrow> gs = []
      | Some f \<Rightarrow> lf_regular f \<and> lf_bytes f = unlines (map (\<lambda>(i, e). consumed_line c i e) gs))"

lemma consumed_line_props:
  assumes "consumed_codec_ok c"
  shows "newline \<notin> set (consumed_line c i e)" and "\<not> blank_line (consumed_line c i e)"
    and "decode_consumed c n (consumed_line c i e) = Inr (i, e)"
  using assms
  by (simp_all add: consumed_codec_ok_def consumed_line_def decode_consumed_def Let_def consumed_payload_def)

lemma read_consumed:
  assumes "consumed_codec_ok c"
  shows "read_journal (decode_consumed c) n
    (split_on newline (unlines (map (\<lambda>(i, e). consumed_line c i e) gs))) = Inr gs"
  by (rule read_journal_unlines) (simp_all add: consumed_line_props [OF assms] case_prod_beta)

lemma load_consumed_shape:
  assumes "consumed_codec_ok c" and "consumed_shape c L gs"
  shows "load_consumed_grants c L now = Inr (filter (\<lambda>(_, e). e > now) gs)"
  using assms
  by (cases "ld_consumed L") (simp_all add: load_consumed_grants_def consumed_shape_def read_consumed)

lemma record_consumed_shape:
  assumes "consumed_shape c L gs"
  shows "fst (record_consumed_grant c L i e) = Inr ()"
    and "consumed_shape c (snd (record_consumed_grant c L i e)) (gs @ [(i, e)])"
    and "ld_jobs (snd (record_consumed_grant c L i e)) = ld_jobs L"
  using assms
  by (auto simp: record_consumed_grant_def consumed_shape_def Let_def split: option.splits)

lemma record_consumed_jobs: "ld_jobs (snd (record_consumed_grant c L i e)) = ld_jobs L"
  by (simp add: record_consumed_grant_def Let_def split: option.split)

section \<open>A codec for witnesses\<close>

definition code_of_operation :: "grant_operation \<Rightarrow> nat" where
  "code_of_operation p = (case p of RestartClientService \<Rightarrow> 0 | RestartMachine \<Rightarrow> 1
     | CheckOsUpdates \<Rightarrow> 2 | ApplyOsUpdates \<Rightarrow> 3 | UpdateClient \<Rightarrow> 4 | OpenLowShell \<Rightarrow> 5
     | OpenElevatedShell \<Rightarrow> 6)"

definition operation_of_code :: "nat \<Rightarrow> grant_operation" where
  "operation_of_code n = (if n = 0 then RestartClientService else if n = 1 then RestartMachine
     else if n = 2 then CheckOsUpdates else if n = 3 then ApplyOsUpdates else if n = 4 then UpdateClient
     else if n = 5 then OpenLowShell else OpenElevatedShell)"

fun nats_of_response :: "broker_response option \<Rightarrow> nat list" where
  "nats_of_response None = [0]"
| "nats_of_response (Some r) =
     [1, if bp_success r then 1 else 0, unat (bp_exit_code r), length (bp_output r)] @ map unat (bp_output r)"

fun response_of_nats :: "nat list \<Rightarrow> (broker_response option \<times> nat list) option" where
  "response_of_nats (0 # ns) = Some (None, ns)"
| "response_of_nats (Suc _ # s # x # k # ns) =
     Some (Some \<lparr> bp_success = (s = 1), bp_output = map word_of_nat (take k ns),
                  bp_exit_code = word_of_nat x \<rparr>, drop k ns)"
| "response_of_nats _ = None"

definition nats_of_envelope :: "ledger_envelope \<Rightarrow> nat list" where
  "nats_of_envelope e = (let r = le_record e in
     [unat (le_version e), unat (lr_job_id r), code_of_operation (lr_operation r),
      case lr_state r of Executing \<Rightarrow> 0 | Completed \<Rightarrow> 1,
      nat_of_instant (lr_expires_at r), nat_of_instant (lr_recorded_at r)]
     @ nats_of_response (lr_response r) @ map of_char (le_checksum_sha256 e))"

fun envelope_of_nats :: "nat list \<Rightarrow> ledger_envelope option" where
  "envelope_of_nats (v # j # p # s # x # y # ns) =
     (case response_of_nats ns of
        None \<Rightarrow> None
      | Some (response, cs) \<Rightarrow>
          Some \<lparr> le_version = word_of_nat v,
                 le_record = \<lparr> lr_job_id = word_of_nat j, lr_operation = operation_of_code p,
                   lr_state = (if s = 0 then Executing else Completed), lr_response = response,
                   lr_expires_at = instant_of_nat x, lr_recorded_at = instant_of_nat y \<rparr>,
                 le_checksum_sha256 = map char_of cs \<rparr>)"
| "envelope_of_nats _ = None"

text \<open>Consumed grants: the demo encodes the two shapes of JSON value that the journal writes.\<close>

definition nats_of_json :: "json \<Rightarrow> nat list" where
  "nats_of_json j = (case j of
     JObj [(_, JObj [(_, JNum i), (_, JNum t)]), (_, JStr s)] \<Rightarrow>
       [nat_of_instant i, nat_of_instant t] @ map of_char s
   | _ \<Rightarrow> [])"

fun json_of_nats :: "nat list \<Rightarrow> json option" where
  "json_of_nats (i # t # cs) = Some (JObj [(''record'',
       JObj [(''grant_id'', JNum (instant_of_nat i)), (''expires_at'', JNum (instant_of_nat t))]),
       (''checksum_sha256'', JStr (map char_of cs))])"
| "json_of_nats _ = None"

definition demo_codec :: ledger_codec where
  "demo_codec = \<lparr>
     lc_ser = (\<lambda>e. enc_line (nats_of_envelope e)),
     lc_par = (\<lambda>bs. Option.bind (dec_line bs) envelope_of_nats),
     lc_sum = (\<lambda>r. if lr_state r = Executing then ''e'' else ''c''),
     lc_to_vec = (\<lambda>j. enc_line (nats_of_json j)),
     lc_from_slice = (\<lambda>bs. Option.bind (dec_line bs) json_of_nats),
     lc_sha_hex = (\<lambda>bs. ''00''),
     lc_uuid = (\<lambda>i. JNum (uint i)),
     lc_uuid_of = (\<lambda>j. case j of JNum n \<Rightarrow> Some (word_of_int n) | _ \<Rightarrow> None),
     lc_time = JNum,
     lc_time_of = (\<lambda>j. case j of JNum n \<Rightarrow> Some n | _ \<Rightarrow> None),
     lc_hash_order = rev \<rparr>"

lemma operation_code_roundtrip [simp]: "operation_of_code (code_of_operation p) = p"
  by (cases p) (simp_all add: operation_of_code_def code_of_operation_def)

lemma map_unat_roundtrip [simp]: "map word_of_nat (map unat xs) = (xs :: 'a :: len word list)"
  by (induction xs) simp_all

lemma map_char_roundtrip [simp]: "map char_of (map (of_char :: char \<Rightarrow> nat) s) = s"
  by (induction s) simp_all

lemma response_nats_roundtrip: "response_of_nats (nats_of_response r @ ns) = Some (r, ns)"
proof (cases r)
  case (Some a)
  have "map (word_of_nat \<circ> unat) (bp_output a) = bp_output a"
    using map_unat_roundtrip [of "bp_output a"] by (simp del: map_unat_roundtrip)
  with Some show ?thesis by simp
qed simp

lemma envelope_nats_roundtrip: "envelope_of_nats (nats_of_envelope e) = Some e"
proof -
  have "map (char_of \<circ> (of_char :: char \<Rightarrow> nat)) s = s" for s
    using map_char_roundtrip [of s] by (simp del: map_char_roundtrip)
  then show ?thesis
    by (cases e, cases "le_record e", cases "lr_state (le_record e)")
       (simp_all add: nats_of_envelope_def Let_def response_nats_roundtrip)
qed

lemma demo_codec_ok: "ledger_codec_ok demo_codec"
  by (simp add: ledger_codec_ok_def demo_codec_def dec_enc_line envelope_nats_roundtrip
      enc_line_no_newline enc_line_not_blank)

lemma demo_consumed_codec_ok: "consumed_codec_ok demo_codec"
  by (simp add: consumed_codec_ok_def demo_codec_def consumed_payload_def Let_def nats_of_json_def
      dec_enc_line enc_line_no_newline enc_line_not_blank o_def)

definition empty_ledger :: ledger where
  "empty_ledger = \<lparr> ld_jobs = None, ld_consumed = None, ld_quarantine = [] \<rparr>"

lemma empty_ledger_shape: "ledger_shape c empty_ledger [] []" "ledger_small empty_ledger"
  "consumed_shape c empty_ledger []"
  by (simp_all add: ledger_shape_def empty_ledger_def ledger_small_def consumed_shape_def)

section \<open>Properties\<close>

text \<open>
  A finished job is replayed, not rerun: once a job was marked and its result recorded, every
  lookup during the seven days of retention returns exactly that result, whatever other records the
  journal holds and whatever torn tail it had before.
\<close>

theorem completed_result_replayed:
  assumes "ledger_codec_ok c" and "ledger_shape c L rs t" and "ledger_small L"
    and "mark_executing c L j oper now wall = (Inr (), L1)" and "ledger_small L1"
    and "record_completed c L1 j response now' wall' = (Inr (), L2)"
    and "later < now' + RECORD_RETENTION"
  shows "fst (lookup c L2 j later) = Inr (Some (LookupCompleted response))"
proof -
  have none: "a_lookup rs j now = Inr None"
    using mark_executing_refused(1) [OF assms(1,2), of j now oper wall] assms(4) by force
  let ?rs = "rs @ [executing_record j oper now]"
  have shape: "ledger_shape c L1 ?rs []"
    using mark_executing_shape(2) [OF assms(1-3) none, of oper wall] assms(4) by simp
  have "length (bp_output response) \<le> MAX_RECORDED_OUTPUT_BYTES"
    using assms(6) by (auto simp: record_completed_def split: if_splits)
  from record_completed_shape [OF assms(1) shape assms(5) a_lookup_after_mark this, of now' wall'] assms(6)
  obtain oper' where "ledger_shape c L2 (?rs @ [completed_record j oper' response now']) []" by auto
  then show ?thesis
    using assms(7) a_lookup_after_completed [of later now' ?rs] by (simp add: lookup_shape [OF assms(1)])
qed

text \<open>
  C29. A crash in the middle of an append loses nothing that was committed: when the write of a
  record stops after any number of bytes short of its newline, the next lookup of any job answers as
  before the append, and the partial bytes are moved to quarantine instead of being dropped.
\<close>

theorem torn_append_recovers:
  assumes "ledger_codec_ok c" and "ledger_shape c L rs []" and "ld_jobs L = Some f"
    and "0 < k" and "k \<le> length (record_line c r)"
    and "L' = L \<lparr> ld_jobs := Some (f \<lparr> lf_bytes := lf_bytes f @ take k (record_line c r @ [newline]) \<rparr>) \<rparr>"
  shows "fst (lookup c L' j now) = fst (lookup c L j now) \<and>
    ld_jobs (snd (lookup c L' j now)) = Some f \<and>
    ld_quarantine (snd (lookup c L' j now)) = ld_quarantine L @ [take k (record_line c r)]"
proof (intro conjI)
  have "newline \<notin> set (take k (record_line c r @ [newline]))"
    using assms(5) record_line_props(1) [OF assms(1)] by (intro torn_line_no_newline)
  then have shape: "ledger_shape c L' rs (take k (record_line c r @ [newline]))"
    using assms by (simp add: ledger_shape_def)
  have tail: "take k (record_line c r @ [newline]) = take k (record_line c r)"
    and ne: "take k (record_line c r) \<noteq> []" using assms(4,5) by auto
  show "fst (lookup c L' j now) = fst (lookup c L j now)"
    by (simp add: lookup_shape [OF assms(1) shape] lookup_shape [OF assms(1,2)])
  show "ld_jobs (snd (lookup c L' j now)) = Some f"
    using assms(2,3) ne by (cases f) (simp add: lookup_shape [OF assms(1) shape] tail recovered_def ledger_shape_def)
  show "ld_quarantine (snd (lookup c L' j now)) = ld_quarantine L @ [take k (record_line c r)]"
  proof -
    have "ld_quarantine L' = ld_quarantine L" by (simp add: assms(6))
    with ne tail show ?thesis by (simp only: lookup_shape [OF assms(1) shape] recovered_def) simp
  qed
qed

text \<open>
  C30. Compaction keeps results: when the journal outgrows its 4 MiB bound and is rewritten, every job
  whose latest retained record is an unexpired completion still answers with the same response, the
  rewritten journal has at most one record per job, and it holds no record that was not there before.
\<close>

theorem compaction_keeps_completed:
  assumes "ledger_codec_ok c" and "ledger_shape c L rs t" and "\<not> ledger_small L"
  shows "\<exists>rs'. ledger_shape c (snd (compact_if_needed c L wall)) rs' [] \<and>
    distinct (map lr_job_id rs') \<and> set rs' \<subseteq> set rs \<and>
    (\<forall>j r. find_record j (filter (retained wall) rs) = Some r \<and> lr_state r = Completed \<and>
        lr_expires_at r > later \<longrightarrow>
      fst (lookup c (snd (compact_if_needed c L wall)) j later) = lookup_result later (Some r))"
proof -
  let ?rs = "compacted c (filter (retained wall) rs)"
  have shape: "ledger_shape c (snd (compact_if_needed c L wall)) ?rs []"
    by (rule compact_shape(2) [OF assms])
  have "fst (lookup c (snd (compact_if_needed c L wall)) j later) = lookup_result later (Some r)"
    if r: "find_record j (filter (retained wall) rs) = Some r" "lr_state r = Completed"
      "lr_expires_at r > later" for j r
  proof -
    have "find_record j ?rs = Some r" using find_record_compacted [OF assms(1) r(1,2)] .
    then have "r \<in> set (filter (retained later) ?rs)" and "lr_job_id r = j"
      using r(3) by (auto simp: retained_def dest: find_record_Some)
    moreover have "distinct (map lr_job_id (filter (retained later) ?rs))"
      using compacted_distinct [OF assms(1)] by (rule distinct_map_filter)
    ultimately have "find_record j (filter (retained later) ?rs) = Some r"
      using find_record_distinct by blast
    then show ?thesis by (simp add: lookup_shape [OF assms(1) shape] a_lookup_def)
  qed
  then show ?thesis
    using shape compacted_distinct [OF assms(1)] compacted_subset [OF assms(1)]
    by (intro exI [of _ ?rs]) fastforce
qed

text \<open>
  A consumed grant survives a broker restart: after its record is appended, loading the journal
  returns everything it returned before and, until the grant expires, the grant itself.
\<close>

theorem consumed_grant_reloaded:
  assumes "consumed_codec_ok c" and "consumed_shape c L gs" and "now < expires_at"
  shows "load_consumed_grants c (snd (record_consumed_grant c L grant_id expires_at)) now =
      Inr (filter (\<lambda>(_, e). e > now) gs @ [(grant_id, expires_at)]) \<and>
    grant_was_consumed c (snd (record_consumed_grant c L grant_id expires_at)) grant_id now = Inr True"
  using assms load_consumed_shape [OF assms(1) record_consumed_shape(2) [OF assms(2)]]
  by (simp_all add: grant_was_consumed_def)

text \<open>
  C38. The consumed-grant journal has no torn-tail recovery: when the append of a grant is cut short,
  leaving a prefix that is not blank and not a JSON value, every later load fails, and it keeps
  failing after further grants are recorded behind it.
\<close>

theorem torn_consumed_journal_blocks:
  assumes "consumed_codec_ok c" and "consumed_shape c L gs" and "ld_consumed L = Some f"
    and "newline \<notin> set tail" and "\<not> blank_line tail"
    and "lc_from_slice c tail = None" and "lc_from_slice c (tail @ consumed_line c i e) = None"
    and "L' = L \<lparr> ld_consumed := Some (f \<lparr> lf_bytes := lf_bytes f @ tail \<rparr>) \<rparr>"
  shows "\<not> is_ok (load_consumed_grants c L' now) \<and>
    \<not> is_ok (load_consumed_grants c (snd (record_consumed_grant c L' i e)) now)"
proof (intro conjI)
  let ?ls = "map (\<lambda>(i, e). consumed_line c i e) gs"
  have bad: "\<not> is_ok (decode_consumed c n l)" if "lc_from_slice c l = None" for n l
    using that by (simp add: decode_consumed_def)
  have bytes: "lf_bytes f = unlines ?ls" and nl: "\<forall>l \<in> set ?ls. newline \<notin> set l"
    using assms(2,3) consumed_line_props(1) [OF assms(1)] by (auto simp: consumed_shape_def)
  have "split_on newline (lf_bytes f @ tail) = ?ls @ [tail]"
    unfolding bytes using split_on_unlines [OF nl] split_on_no_sep [OF assms(4)] by simp
  then show "\<not> is_ok (load_consumed_grants c L' now)"
    using read_journal_bad_line [where dec = "decode_consumed c", OF assms(5) bad [OF assms(6)], of 0 ?ls "[]"] assms(8)
    by (auto simp: load_consumed_grants_def not_is_ok_iff)
  let ?l = "tail @ consumed_line c i e"
  have l: "newline \<notin> set ?l" "\<not> blank_line ?l"
    using assms(4,5) consumed_line_props(1) [OF assms(1)] by (auto simp: blank_line_def)
  have "split_on newline ((lf_bytes f @ tail) @ consumed_line c i e @ [newline]) = ?ls @ [?l] @ [[]]"
    unfolding bytes using split_on_unlines [OF nl, of "?l @ [newline]"]
      split_on_append_sep [OF l(1), of "[]"] by simp
  moreover have "lf_regular f" using assms(2,3) by (simp add: consumed_shape_def)
  ultimately show "\<not> is_ok (load_consumed_grants c (snd (record_consumed_grant c L' i e)) now)"
    using read_journal_bad_line [where dec = "decode_consumed c", OF l(2) bad [OF assms(7)], of 0 ?ls "[[]]"] assms(8)
    by (auto simp: load_consumed_grants_def record_consumed_grant_def Let_def not_is_ok_iff)
qed

section \<open>Witnesses\<close>

definition demo_response :: broker_response where
  "demo_response = \<lparr> bp_success = True, bp_output = [111, 107], bp_exit_code = 0 \<rparr>"

definition demo_marked :: ledger where
  "demo_marked = snd (mark_executing demo_codec empty_ledger 5 RestartMachine (secs 1) (secs 1))"

definition demo_completed :: ledger where
  "demo_completed = snd (record_completed demo_codec demo_marked 5 demo_response (secs 1) (secs 1))"

lemma demo_a_lookup_Nil [simp]: "a_lookup [] j now = Inr None"
  by (simp add: a_lookup_def find_record_def lookup_result_def)

lemma demo_marked_eq: "mark_executing demo_codec empty_ledger 5 RestartMachine (secs 1) (secs 1) = (Inr (), demo_marked)"
  and demo_marked_shape: "ledger_shape demo_codec demo_marked [executing_record 5 RestartMachine (secs 1)] []"
  using mark_executing_shape [OF demo_codec_ok empty_ledger_shape(1,2) demo_a_lookup_Nil [of 5 "secs 1"],
      where oper = RestartMachine and wall = "secs 1"]
  by (simp_all add: demo_marked_def prod_eq_iff)

lemma demo_marked_small: "ledger_small demo_marked"
proof -
  have "length (record_line demo_codec (executing_record 5 RestartMachine (secs 1))) < 1000"
    by (simp add: record_line_def demo_codec_def ledger_envelope_of_def executing_record_def
        nats_of_envelope_def enc_line_def enc_nats_def enc_nat.simps code_of_operation_def
        nat_of_instant_def secs_def nanos_per_second_def EXECUTING_MARKER_TTL_def LEDGER_VERSION_def)
  then show ?thesis using demo_marked_shape
    by (auto simp: ledger_small_def ledger_shape_def MAX_LEDGER_BYTES_def split: option.split)
qed

lemma demo_completed_eq:
  "record_completed demo_codec demo_marked 5 demo_response (secs 1) (secs 1) = (Inr (), demo_completed)"
proof -
  have "a_lookup [executing_record 5 RestartMachine (secs 1)] 5 (secs 1) = Inr (Some (LookupExecuting False))"
    by (simp add: a_lookup_def retained_def executing_record_def find_record_def lookup_result_def
        EXECUTING_MARKER_TTL_def secs_def nanos_per_second_def)
  from record_completed_shape [OF demo_codec_ok demo_marked_shape demo_marked_small this]
  show ?thesis by (simp add: demo_completed_def prod_eq_iff demo_response_def MAX_RECORDED_OUTPUT_BYTES_def)
qed

theorem completed_result_replayed_witness:
  "fst (lookup demo_codec demo_completed 5 (secs 600000)) = Inr (Some (LookupCompleted demo_response))"
  by (rule completed_result_replayed [OF demo_codec_ok empty_ledger_shape(1,2) demo_marked_eq
        demo_marked_small demo_completed_eq])
     (simp add: RECORD_RETENTION_def secs_def nanos_per_second_def)

lemma demo_marked_jobs:
  "ld_jobs demo_marked = Some \<lparr> lf_bytes = record_line demo_codec (executing_record 5 RestartMachine (secs 1)) @ [newline],
     lf_regular = True, lf_privileged = True \<rparr>"
  using demo_marked_shape
  by (auto simp: ledger_shape_def split: option.splits intro: ledger_file.equality)

theorem torn_append_recovers_witness:
  "\<exists>L'. fst (lookup demo_codec L' 5 (secs 3)) = fst (lookup demo_codec demo_marked 5 (secs 3)) \<and>
    ld_quarantine (snd (lookup demo_codec L' 5 (secs 3))) =
      ld_quarantine demo_marked @ [take 1 (record_line demo_codec (executing_record 6 RestartMachine (secs 2)))]"
proof -
  have "1 \<le> length (record_line demo_codec (executing_record 6 RestartMachine (secs 2)))"
    using record_line_props(2) [OF demo_codec_ok, of "executing_record 6 RestartMachine (secs 2)"]
    by (cases "record_line demo_codec (executing_record 6 RestartMachine (secs 2))") auto
  from torn_append_recovers [OF demo_codec_ok demo_marked_shape demo_marked_jobs _ this refl, of 5 "secs 3"]
  show ?thesis by auto
qed

definition demo_overgrown :: ledger where
  "demo_overgrown = \<lparr> ld_jobs = Some \<lparr>
       lf_bytes = unlines (map (record_line demo_codec) [completed_record 5 RestartMachine demo_response (secs 1)])
         @ replicate (Suc MAX_LEDGER_BYTES) 120,
       lf_regular = True, lf_privileged = True \<rparr>, ld_consumed = None, ld_quarantine = [] \<rparr>"

lemma demo_overgrown_shape:
  "ledger_shape demo_codec demo_overgrown [completed_record 5 RestartMachine demo_response (secs 1)]
     (replicate (Suc MAX_LEDGER_BYTES) 120)"
  "\<not> ledger_small demo_overgrown"
  by (simp_all add: ledger_shape_def demo_overgrown_def ledger_small_def newline_def del: replicate_Suc)

theorem compaction_keeps_completed_witness:
  "fst (lookup demo_codec (snd (compact_if_needed demo_codec demo_overgrown (secs 2))) 5 (secs 3)) =
     Inr (Some (LookupCompleted demo_response))"
proof -
  let ?r = "completed_record 5 RestartMachine demo_response (secs 1)"
  have "find_record 5 (filter (retained (secs 2)) [?r]) = Some ?r"
    by (simp add: find_record_def retained_def completed_record_def RECORD_RETENTION_def secs_def
        nanos_per_second_def)
  moreover have "lr_expires_at ?r > secs 3" and "lr_state ?r = Completed"
    by (simp_all add: completed_record_def RECORD_RETENTION_def secs_def nanos_per_second_def)
  moreover have "lookup_result (secs 3) (Some ?r) = Inr (Some (LookupCompleted demo_response))"
    by (simp add: lookup_result_def completed_record_def)
  ultimately show ?thesis
    using compaction_keeps_completed [OF demo_codec_ok demo_overgrown_shape, of "secs 2" "secs 3"] by metis
qed

theorem consumed_grant_reloaded_witness:
  "load_consumed_grants demo_codec (snd (record_consumed_grant demo_codec empty_ledger 7 (secs 130))) (secs 120)
     = Inr [(7, secs 130)]"
  using consumed_grant_reloaded [OF demo_consumed_codec_ok empty_ledger_shape(3), of "secs 120" "secs 130" 7]
  by (simp add: secs_def nanos_per_second_def)

definition demo_consumed :: ledger where
  "demo_consumed = snd (record_consumed_grant demo_codec empty_ledger 7 (secs 130))"

theorem torn_consumed_journal_blocks_witness:
  "\<exists>L f. ld_consumed demo_consumed = Some f \<and>
     L = demo_consumed \<lparr> ld_consumed := Some (f \<lparr> lf_bytes := lf_bytes f @ [123] \<rparr>) \<rparr> \<and>
     \<not> is_ok (load_consumed_grants demo_codec L (secs 120)) \<and>
     \<not> is_ok (load_consumed_grants demo_codec (snd (record_consumed_grant demo_codec L 8 (secs 140))) (secs 120))"
proof -
  obtain f where f: "ld_consumed demo_consumed = Some f"
    by (simp add: demo_consumed_def record_consumed_grant_def Let_def empty_ledger_def)
  have shape: "consumed_shape demo_codec demo_consumed [(7, secs 130)]"
    using record_consumed_shape(2) [OF empty_ledger_shape(3)] by (simp add: demo_consumed_def)
  have tail: "newline \<notin> set [123]" "\<not> blank_line [123]" "lc_from_slice demo_codec [123] = None"
    by (simp_all add: newline_def blank_line_def is_ascii_whitespace_def demo_codec_def dec_line_def)
  have "lc_from_slice demo_codec ([123] @ consumed_line demo_codec 8 (secs 140)) = None"
    by (simp add: consumed_line_def Let_def demo_codec_def dec_prefixed_line)
  from torn_consumed_journal_blocks [OF demo_consumed_codec_ok shape f tail this refl]
  show ?thesis using f by blast
qed

end
