(* ===== verification/Broker_Executor.thy ===== *)
theory Broker_Executor
  imports Ledger
begin

text \<open>
  \<^verbatim>\<open>centrald-client/src/broker.rs\<close>: the executor that gives privileged jobs exactly-once semantics.
  \<^verbatim>\<open>BrokerExecutor::execute\<close> is split where its locks split it: \<open>exec_admit\<close> is what runs before the
  \<^verbatim>\<open>execution\<close> mutex is taken, \<open>exec_begin\<close> and \<open>exec_finish\<close> are the critical section, so that
  sequences of these steps are the interleavings of concurrent requests. \<open>exec_crash\<close> stops the
  critical section at any point, including inside an append, and \<open>broker_start\<close> is
  \<^verbatim>\<open>build_executor\<close>. \<open>ex_runs\<close> is a ghost: the jobs whose operation was started.
\<close>

section \<open>Data\<close>

record ('sk, 'vk, 'sig, 'w) exec_env =
  xe_crypto :: "('sk, 'vk, 'sig) grant_crypto"
  xe_codec :: ledger_codec
  xe_sha :: "bytes \<Rightarrow> string"
  xe_run :: "'w \<Rightarrow> grant_operation \<Rightarrow> bytes \<Rightarrow> (string + broker_response) \<times> 'w"

record ('vk, 'w) executor =
  ex_up :: bool
  ex_verifier :: "'vk grant_verifier"
  ex_ledger :: ledger
  ex_world :: 'w
  ex_runs :: "uuid list"

datatype exec_error = PrivilegedUnavailable | VerifierError broker_error
  | LedgerError ledger_error | DigestMismatch | InProgress | Interrupted | RunnerError string
  | BrokerDown

section \<open>Operations\<close>

definition exec_admit ::
  "('sk, 'vk, 'sig, 'w) exec_env \<Rightarrow> bool \<Rightarrow> ('vk, 'w) executor \<Rightarrow> broker_request \<Rightarrow> instant \<Rightarrow>
     (exec_error + broker_response option) \<times> ('vk, 'w) executor" where
  "exec_admit X cfg_test ex request now =
     (let g = sg_grant (br_signed_grant request) in
      if \<not> PRIVILEGED_OPERATIONS_ENABLED \<and> \<not> cfg_test then (Inl PrivilegedUnavailable, ex)
      else (case verify_and_consume (xe_crypto X) (ex_verifier ex) (br_signed_grant request) now of
          (Inl e, v) \<Rightarrow> (Inl (VerifierError e), ex \<lparr> ex_verifier := v \<rparr>)
        | (Inr _, v) \<Rightarrow>
            let ex = ex \<lparr> ex_verifier := v \<rparr> in
            (case record_consumed_grant (xe_codec X) (ex_ledger ex) (g_id g) (g_expires_at g) of
               (Inl e, L) \<Rightarrow> (Inl (LedgerError e), ex \<lparr> ex_ledger := L \<rparr>)
             | (Inr _, L) \<Rightarrow>
                 let ex = ex \<lparr> ex_ledger := L \<rparr> in
                 if xe_sha X (br_parameters_json request) \<noteq> g_parameters_sha256 g
                   then (Inl DigestMismatch, ex)
                 else (case lookup (xe_codec X) L (g_job_or_session_id g) now of
                     (Inl e, L) \<Rightarrow> (Inl (LedgerError e), ex \<lparr> ex_ledger := L \<rparr>)
                   | (Inr (Some (LookupCompleted response)), L) \<Rightarrow>
                       (Inr (Some response), ex \<lparr> ex_ledger := L \<rparr>)
                   | (Inr (Some (LookupExecuting False)), L) \<Rightarrow> (Inl InProgress, ex \<lparr> ex_ledger := L \<rparr>)
                   | (Inr (Some (LookupExecuting True)), L) \<Rightarrow> (Inl Interrupted, ex \<lparr> ex_ledger := L \<rparr>)
                   | (Inr None, L) \<Rightarrow> (Inr None, ex \<lparr> ex_ledger := L \<rparr>)))))"

definition exec_begin ::
  "('sk, 'vk, 'sig, 'w) exec_env \<Rightarrow> ('vk, 'w) executor \<Rightarrow> broker_request \<Rightarrow> instant \<Rightarrow> instant \<Rightarrow>
     (exec_error + broker_response option) \<times> ('vk, 'w) executor" where
  "exec_begin X ex request now wall =
     (let g = sg_grant (br_signed_grant request); job_id = g_job_or_session_id g in
      case lookup (xe_codec X) (ex_ledger ex) job_id now of
        (Inl e, L) \<Rightarrow> (Inl (LedgerError e), ex \<lparr> ex_ledger := L \<rparr>)
      | (Inr (Some (LookupCompleted response)), L) \<Rightarrow> (Inr (Some response), ex \<lparr> ex_ledger := L \<rparr>)
      | (Inr (Some (LookupExecuting _)), L) \<Rightarrow> (Inl Interrupted, ex \<lparr> ex_ledger := L \<rparr>)
      | (Inr None, L) \<Rightarrow>
          (case mark_executing (xe_codec X) L job_id (g_operation g) now wall of
             (Inl e, L) \<Rightarrow> (Inl (LedgerError e), ex \<lparr> ex_ledger := L \<rparr>)
           | (Inr _, L) \<Rightarrow> (Inr None, ex \<lparr> ex_ledger := L \<rparr>)))"

text \<open>The call of the runner, with the ghost log of started jobs.\<close>

definition exec_run ::
  "('sk, 'vk, 'sig, 'w) exec_env \<Rightarrow> ('vk, 'w) executor \<Rightarrow> broker_request \<Rightarrow>
     (string + broker_response) \<times> ('vk, 'w) executor" where
  "exec_run X ex request =
     (let g = sg_grant (br_signed_grant request);
          (r, w) = xe_run X (ex_world ex) (g_operation g) (br_parameters_json request)
      in (r, ex \<lparr> ex_world := w, ex_runs := ex_runs ex @ [g_job_or_session_id g] \<rparr>))"

definition exec_finish ::
  "('sk, 'vk, 'sig, 'w) exec_env \<Rightarrow> ('vk, 'w) executor \<Rightarrow> broker_request \<Rightarrow> instant \<Rightarrow> instant \<Rightarrow>
     (exec_error + broker_response) \<times> ('vk, 'w) executor" where
  "exec_finish X ex request now wall =
     (case exec_run X ex request of
        (Inl msg, ex) \<Rightarrow> (Inl (RunnerError msg), ex)
      | (Inr response, ex) \<Rightarrow>
          (case record_completed (xe_codec X) (ex_ledger ex)
                  (g_job_or_session_id (sg_grant (br_signed_grant request))) response now wall of
             (Inl e, L) \<Rightarrow> (Inl (LedgerError e), ex \<lparr> ex_ledger := L \<rparr>)
           | (Inr _, L) \<Rightarrow> (Inr response, ex \<lparr> ex_ledger := L \<rparr>)))"

definition exec_locked ::
  "('sk, 'vk, 'sig, 'w) exec_env \<Rightarrow> ('vk, 'w) executor \<Rightarrow> broker_request \<Rightarrow> instant \<Rightarrow> instant \<Rightarrow>
     (exec_error + broker_response) \<times> ('vk, 'w) executor" where
  "exec_locked X ex request now wall =
     (case exec_begin X ex request now wall of
        (Inl e, ex) \<Rightarrow> (Inl e, ex)
      | (Inr (Some response), ex) \<Rightarrow> (Inr response, ex)
      | (Inr None, ex) \<Rightarrow> exec_finish X ex request now wall)"

definition execute ::
  "('sk, 'vk, 'sig, 'w) exec_env \<Rightarrow> bool \<Rightarrow> ('vk, 'w) executor \<Rightarrow> broker_request \<Rightarrow> instant \<Rightarrow> instant \<Rightarrow>
     (exec_error + broker_response) \<times> ('vk, 'w) executor" where
  "execute X cfg_test ex request now wall =
     (case exec_admit X cfg_test ex request now of
        (Inl e, ex) \<Rightarrow> (Inl e, ex)
      | (Inr (Some response), ex) \<Rightarrow> (Inr response, ex)
      | (Inr None, ex) \<Rightarrow> exec_locked X ex request now wall)"

definition broker_start ::
  "ledger_codec \<Rightarrow> uuid \<Rightarrow> 'vk \<Rightarrow> ledger \<Rightarrow> instant \<Rightarrow> ledger_error + 'vk grant_verifier" where
  "broker_start c identity_id verifying_key L now =
     (case load_consumed_grants c L now of
        Inl e \<Rightarrow> Inl e
      | Inr grants \<Rightarrow>
          Inr (fold (\<lambda>(grant_id, expires_at) v. restore v grant_id expires_at now) grants
                 (gv_new identity_id verifying_key)))"

section \<open>Crashes\<close>

datatype crash_point = BeforeMark | TornMark nat | AfterMark | AfterRun | TornComplete nat

text \<open>A write that stops after \<open>k\<close> bytes of a line.\<close>

definition torn_write :: "ledger_codec \<Rightarrow> ledger \<Rightarrow> ledger_record \<Rightarrow> nat \<Rightarrow> ledger" where
  "torn_write c L r k =
     (let f = (case ld_jobs L of
                 None \<Rightarrow> \<lparr> lf_bytes = [], lf_regular = True, lf_privileged = True \<rparr>
               | Some f \<Rightarrow> f)
      in L \<lparr> ld_jobs := Some (f \<lparr> lf_bytes := lf_bytes f @ take (min k (length (record_line c r))) (record_line c r) \<rparr>) \<rparr>)"

definition exec_crash ::
  "('sk, 'vk, 'sig, 'w) exec_env \<Rightarrow> ('vk, 'w) executor \<Rightarrow> broker_request \<Rightarrow> instant \<Rightarrow> instant \<Rightarrow>
     crash_point \<Rightarrow> ('vk, 'w) executor" where
  "exec_crash X ex request now wall cp =
     (let g = sg_grant (br_signed_grant request); c = xe_codec X; job_id = g_job_or_session_id g in
      case lookup c (ex_ledger ex) job_id now of
        (Inr None, L) \<Rightarrow>
          (let marked = snd (exec_begin X ex request now wall) in
           case cp of
             BeforeMark \<Rightarrow> ex \<lparr> ex_ledger := L \<rparr>
           | TornMark k \<Rightarrow> ex \<lparr> ex_ledger := torn_write c L (executing_record job_id (g_operation g) now) k \<rparr>
           | AfterMark \<Rightarrow> marked
           | AfterRun \<Rightarrow> if is_ok (fst (exec_begin X ex request now wall))
                          then snd (exec_run X marked request) else marked
           | TornComplete k \<Rightarrow>
               if \<not> is_ok (fst (exec_begin X ex request now wall)) then marked
               else (case exec_run X marked request of
                   (Inl _, ex) \<Rightarrow> ex
                 | (Inr response, ex) \<Rightarrow>
                     if length (bp_output response) > MAX_RECORDED_OUTPUT_BYTES then ex
                     else ex \<lparr> ex_ledger := torn_write c (ex_ledger ex)
                                  (completed_record job_id (g_operation g) response now) k \<rparr>))
      | (_, L) \<Rightarrow> ex \<lparr> ex_ledger := L \<rparr>)"

section \<open>Interleavings\<close>

datatype exec_event = Admit broker_request instant | Locked broker_request instant instant
  | Crash broker_request instant instant crash_point | Restart instant

fun exec_step ::
  "('sk, 'vk, 'sig, 'w) exec_env \<Rightarrow> bool \<Rightarrow> ('vk, 'w) executor \<Rightarrow> exec_event \<Rightarrow>
     (exec_error + broker_response option) \<times> ('vk, 'w) executor" where
  "exec_step X cfg_test ex (Admit request now) =
     (if ex_up ex then exec_admit X cfg_test ex request now else (Inl BrokerDown, ex))"
| "exec_step X cfg_test ex (Locked request now wall) =
     (if ex_up ex then (case exec_locked X ex request now wall of
          (Inl e, ex) \<Rightarrow> (Inl e, ex) | (Inr response, ex) \<Rightarrow> (Inr (Some response), ex))
      else (Inl BrokerDown, ex))"
| "exec_step X cfg_test ex (Crash request now wall cp) =
     (if ex_up ex then (Inl BrokerDown, exec_crash X ex request now wall cp \<lparr> ex_up := False \<rparr>)
      else (Inl BrokerDown, ex))"
| "exec_step X cfg_test ex (Restart now) =
     (case broker_start (xe_codec X) (gv_device_id (ex_verifier ex)) (gv_signing_key (ex_verifier ex))
             (ex_ledger ex) now of
        Inl e \<Rightarrow> (Inl (LedgerError e), ex \<lparr> ex_up := False \<rparr>)
      | Inr v \<Rightarrow> (Inr None, ex \<lparr> ex_up := True, ex_verifier := v \<rparr>))"

text \<open>No append of the step triggers compaction.\<close>

fun exec_small :: "('sk, 'vk, 'sig, 'w) exec_env \<Rightarrow> ('vk, 'w) executor \<Rightarrow> exec_event \<Rightarrow> bool" where
  "exec_small X ex (Admit request now) = True"
| "exec_small X ex (Locked request now wall) =
     (ledger_small (ex_ledger ex) \<and> ledger_small (ex_ledger (snd (exec_begin X ex request now wall))))"
| "exec_small X ex (Crash request now wall cp) = ledger_small (ex_ledger ex)"
| "exec_small X ex (Restart now) = True"

fun run_small ::
  "('sk, 'vk, 'sig, 'w) exec_env \<Rightarrow> bool \<Rightarrow> ('vk, 'w) executor \<Rightarrow> exec_event list \<Rightarrow> bool" where
  "run_small X cfg_test ex [] = True"
| "run_small X cfg_test ex (e # es) =
     (exec_small X ex e \<and> run_small X cfg_test (snd (exec_step X cfg_test ex e)) es)"

section \<open>Invariant\<close>

text \<open>Every job that was started has an executing marker among the committed records.\<close>

definition exec_inv ::
  "('sk, 'vk, 'sig, 'w) exec_env \<Rightarrow> ('vk, 'w) executor \<Rightarrow> ledger_record list \<Rightarrow> bytes \<Rightarrow> bool" where
  "exec_inv X ex rs t \<longleftrightarrow> ledger_shape (xe_codec X) (ex_ledger ex) rs t \<and> distinct (ex_runs ex) \<and>
     (\<forall>j \<in> set (ex_runs ex). \<exists>r \<in> set rs. lr_job_id r = j \<and> lr_state r = Executing)"

definition exec_safe :: "('sk, 'vk, 'sig, 'w) exec_env \<Rightarrow> ('vk, 'w) executor \<Rightarrow> bool" where
  "exec_safe X ex \<longleftrightarrow> (\<exists>rs t. exec_inv X ex rs t)"

abbreviation job_of :: "broker_request \<Rightarrow> uuid" where
  "job_of request \<equiv> g_job_or_session_id (sg_grant (br_signed_grant request))"

abbreviation op_of :: "broker_request \<Rightarrow> grant_operation" where
  "op_of request \<equiv> g_operation (sg_grant (br_signed_grant request))"

lemma ledger_shape_jobs_cong: "ld_jobs L = ld_jobs L' \<Longrightarrow> ledger_shape c L rs t = ledger_shape c L' rs t"
  by (simp add: ledger_shape_def)

lemma exec_safeI [intro]: "exec_inv X ex rs t \<Longrightarrow> exec_safe X ex"
  by (auto simp: exec_safe_def)

lemma exec_inv_not_started:
  assumes "exec_inv X ex rs t" and "a_lookup rs j now = Inr None"
  shows "j \<notin> set (ex_runs ex)"
  using assms a_lookup_marker by (fastforce simp: exec_inv_def)

lemma exec_inv_ledger:
  assumes "exec_inv X ex rs t" and "ledger_shape (xe_codec X) L (rs @ rs') t'"
  shows "exec_inv X (ex \<lparr> ex_ledger := L \<rparr>) (rs @ rs') t'"
  using assms by (auto simp: exec_inv_def)

lemma exec_inv_verifier [simp]:
  "exec_inv X (ex \<lparr> ex_verifier := v \<rparr>) rs t = exec_inv X ex rs t"
  "exec_inv X (ex \<lparr> ex_up := b \<rparr>) rs t = exec_inv X ex rs t"
  by (simp_all add: exec_inv_def)

lemma exec_safe_frame [simp]:
  "exec_safe X (ex \<lparr> ex_up := b \<rparr>) = exec_safe X ex"
  "exec_safe X (ex \<lparr> ex_up := b, ex_verifier := v \<rparr>) = exec_safe X ex"
  by (simp_all add: exec_safe_def)

lemma exec_inv_recovered:
  assumes "exec_inv X ex rs t"
  shows "exec_inv X (ex \<lparr> ex_ledger := recovered (xe_codec X) (ex_ledger ex) rs t \<rparr>) rs []"
  using exec_inv_ledger [OF assms, of _ "[]"] recovered_shape assms by (simp add: exec_inv_def)

section \<open>Steps keep the invariant\<close>

lemma exec_admit_inv:
  assumes "ledger_codec_ok (xe_codec X)" and "exec_inv X ex rs t"
  shows "\<exists>t'. exec_inv X (snd (exec_admit X cfg_test ex request now)) rs t'"
proof -
  have frame: "exec_inv X (ex \<lparr> ex_verifier := v, ex_ledger := L \<rparr>) rs t"
    if "ld_jobs L = ld_jobs (ex_ledger ex)" for v L
    using assms(2) ledger_shape_jobs_cong [OF that] by (simp add: exec_inv_def)
  have lk: "exec_inv X (ex \<lparr> ex_verifier := v, ex_ledger := snd (lookup (xe_codec X) L j now) \<rparr>) rs []"
    if "ld_jobs L = ld_jobs (ex_ledger ex)" for v L j
    using exec_inv_recovered [OF frame [OF that, of v]] lookup_shape [OF assms(1)] frame [OF that, of v]
    by (simp add: exec_inv_def)
  obtain v1 r1 where v1: "verify_and_consume (xe_crypto X) (ex_verifier ex) (br_signed_grant request) now = (r1, v1)"
    by fastforce
  obtain L2 r2 where L2: "record_consumed_grant (xe_codec X) (ex_ledger ex) (g_id (sg_grant (br_signed_grant request)))
      (g_expires_at (sg_grant (br_signed_grant request))) = (r2, L2)" by fastforce
  have jobs: "ld_jobs L2 = ld_jobs (ex_ledger ex)"
    using record_consumed_jobs [of "xe_codec X" "ex_ledger ex"] L2 by (metis snd_conv)
  obtain L3 r3 where L3: "lookup (xe_codec X) L2 (job_of request) now = (r3, L3)" by fastforce
  have "snd (exec_admit X cfg_test ex request now) \<in>
    {ex, ex \<lparr> ex_verifier := v1 \<rparr>, ex \<lparr> ex_verifier := v1, ex_ledger := L2 \<rparr>,
     ex \<lparr> ex_verifier := v1, ex_ledger := L3 \<rparr>}"
    unfolding exec_admit_def Let_def v1
    by (auto simp: L2 L3 split: sum.split option.split ledger_lookup.split bool.split)
  then show ?thesis
    using assms(2) frame [OF jobs, where v = v1] lk [OF jobs, where v = v1 and j = "job_of request"] L3 by force
qed

lemma exec_begin_cases:
  assumes "ledger_codec_ok (xe_codec X)" and "exec_inv X ex rs t" and "ledger_small (ex_ledger ex)"
  shows "exec_inv X (snd (exec_begin X ex request now wall)) rs [] \<and>
      fst (exec_begin X ex request now wall) \<noteq> Inr None \<or>
    a_lookup rs (job_of request) now = Inr None \<and> fst (exec_begin X ex request now wall) = Inr None \<and>
      exec_inv X (snd (exec_begin X ex request now wall))
        (rs @ [executing_record (job_of request) (op_of request) now]) [] \<and>
      ex_runs (snd (exec_begin X ex request now wall)) = ex_runs ex"
proof -
  let ?c = "xe_codec X" and ?L = "recovered (xe_codec X) (ex_ledger ex) rs t"
  have shape: "ledger_shape ?c (ex_ledger ex) rs t" using assms(2) by (simp add: exec_inv_def)
  note lk = lookup_shape [OF assms(1) shape]
  note rec = exec_inv_recovered [OF assms(2)]
  show ?thesis
  proof (cases "a_lookup rs (job_of request) now = Inr None")
    case True
    note m = mark_executing_shape [OF assms(1) recovered_shape [OF shape] recovered_small [OF shape assms(3)] True,
        of "op_of request" wall]
    then have "exec_inv X (ex \<lparr> ex_ledger := snd (mark_executing ?c ?L (job_of request) (op_of request) now wall) \<rparr>)
        (rs @ [executing_record (job_of request) (op_of request) now]) []"
      by (intro exec_inv_ledger [OF assms(2)])
    with True m show ?thesis by (simp add: exec_begin_def lk Let_def case_prod_beta)
  next
    case False
    with rec show ?thesis
      by (auto simp: exec_begin_def lk Let_def split: sum.split option.split ledger_lookup.split)
  qed
qed

lemma exec_run_inv:
  assumes "exec_inv X ex (rs @ [executing_record (job_of request) oper now]) t"
    and "job_of request \<notin> set (ex_runs ex)"
  shows "exec_inv X (snd (exec_run X ex request)) (rs @ [executing_record (job_of request) oper now]) t"
    and "ex_ledger (snd (exec_run X ex request)) = ex_ledger ex"
  using assms by (auto simp: exec_run_def Let_def case_prod_beta exec_inv_def executing_record_def)

lemma record_completed_inv:
  assumes "ledger_codec_ok c" and "ledger_shape c L rs t" and "ledger_small L"
  shows "\<exists>rs' t'. ledger_shape c (snd (record_completed c L j response now wall)) (rs @ rs') t'"
proof (cases "length (bp_output response) > MAX_RECORDED_OUTPUT_BYTES")
  case True
  then show ?thesis using assms(2) by (intro exI [of _ "[]"] exI [of _ t]) (simp add: record_completed_def)
next
  case False
  show ?thesis
  proof (cases "\<exists>x. a_lookup rs j now = Inr (Some x)")
    case True
    then obtain x where "a_lookup rs j now = Inr (Some x)" by blast
    from record_completed_shape [OF assms this] False show ?thesis by (meson not_less)
  next
    case nf: False
    then have "snd (record_completed c L j response now wall) = recovered c L rs t"
      using False by (auto simp: record_completed_def lookup_shape [OF assms(1,2)] split: sum.split option.split)
    then show ?thesis using recovered_shape [OF assms(2)] by (intro exI [of _ "[]"]) auto
  qed
qed

lemma exec_finish_inv:
  assumes "ledger_codec_ok (xe_codec X)" and "ledger_small (ex_ledger ex)"
    and "exec_inv X ex (rs @ [executing_record (job_of request) oper now]) t"
    and "job_of request \<notin> set (ex_runs ex)"
  shows "exec_safe X (snd (exec_finish X ex request now' wall))"
proof -
  let ?rs = "rs @ [executing_record (job_of request) oper now]" and ?ex = "snd (exec_run X ex request)"
  note run = exec_run_inv [OF assms(3,4)]
  have "ledger_shape (xe_codec X) (ex_ledger ?ex) ?rs t" "ledger_small (ex_ledger ?ex)"
    using run assms(2) by (auto simp: exec_inv_def)
  from record_completed_inv [OF assms(1) this]
  have fin: "exec_safe X (?ex \<lparr> ex_ledger := snd (record_completed (xe_codec X) (ex_ledger ?ex) (job_of request) response now' wall) \<rparr>)"
    for response using exec_inv_ledger [OF run(1)] by blast
  obtain r ex' where r: "exec_run X ex request = (r, ex')" by fastforce
  then show ?thesis using exec_safeI [OF run(1)] fin
    by (cases r) (simp_all add: exec_finish_def split: prod.split sum.split, (metis snd_conv)+)
qed

lemma exec_locked_inv:
  assumes "ledger_codec_ok (xe_codec X)" and "exec_inv X ex rs t"
    and "exec_small X ex (Locked request now wall)"
  shows "exec_safe X (snd (exec_locked X ex request now wall))"
proof -
  let ?b = "exec_begin X ex request now wall"
  have small: "ledger_small (ex_ledger ex)" "ledger_small (ex_ledger (snd ?b))" using assms(3) by auto
  show ?thesis
  proof (cases "fst ?b = Inr None")
    case True
    then have "job_of request \<notin> set (ex_runs (snd ?b))"
      and "exec_inv X (snd ?b) (rs @ [executing_record (job_of request) (op_of request) now]) []"
      using exec_begin_cases [OF assms(1,2) small(1), of request now wall] exec_inv_not_started [OF assms(2)]
      by auto
    then show ?thesis using exec_finish_inv [OF assms(1) small(2)] True
      by (simp add: exec_locked_def case_prod_beta)
  next
    case False
    then have "exec_inv X (snd ?b) rs []"
      using exec_begin_cases [OF assms(1,2) small(1), of request now wall] by auto
    moreover have "snd (exec_locked X ex request now wall) = snd ?b"
      using False by (cases ?b) (auto simp: exec_locked_def split: sum.split option.split)
    ultimately show ?thesis by (simp add: exec_safeI)
  qed
qed

lemma torn_write_shape:
  assumes "ledger_codec_ok c" and "ledger_shape c L rs []"
  shows "\<exists>t. ledger_shape c (torn_write c L r k) rs t"
proof -
  have "newline \<notin> set (take (min k (length (record_line c r))) (record_line c r))"
    using record_line_props(1) [OF assms(1), of r] in_set_takeD by fastforce
  then show ?thesis using assms(2)
    by (intro exI [of _ "take (min k (length (record_line c r))) (record_line c r)"])
       (auto simp: torn_write_def Let_def ledger_shape_def split: option.splits)
qed

lemma exec_crash_inv:
  assumes "ledger_codec_ok (xe_codec X)" and "exec_inv X ex rs t" and "ledger_small (ex_ledger ex)"
  shows "exec_safe X (exec_crash X ex request now wall cp)"
proof -
  let ?c = "xe_codec X" and ?L = "recovered (xe_codec X) (ex_ledger ex) rs t"
  let ?b = "exec_begin X ex request now wall"
  have shape: "ledger_shape ?c (ex_ledger ex) rs t" using assms(2) by (simp add: exec_inv_def)
  note lk = lookup_shape [OF assms(1) shape]
  show ?thesis
  proof (cases "a_lookup rs (job_of request) now = Inr None")
    case False
    then have "exec_crash X ex request now wall cp = ex \<lparr> ex_ledger := ?L \<rparr>"
      by (auto simp: exec_crash_def lk Let_def split: sum.split option.split)
    then show ?thesis using exec_safeI [OF exec_inv_recovered [OF assms(2)]] by simp
  next
    case True
    let ?rs = "rs @ [executing_record (job_of request) (op_of request) now]"
    have ok: "fst ?b = Inr None" using True assms(1) shape assms(3)
        mark_executing_shape(1) [OF assms(1) recovered_shape [OF shape] recovered_small [OF shape assms(3)] True]
      by (simp add: exec_begin_def lk Let_def case_prod_beta)
    then have inv: "exec_inv X (snd ?b) ?rs []" and fresh: "job_of request \<notin> set (ex_runs (snd ?b))"
      using exec_begin_cases [OF assms, of request now wall] exec_inv_not_started [OF assms(2) True] by auto
    note run = exec_run_inv [OF inv fresh]
    have torn: "exec_safe X (ex' \<lparr> ex_ledger := torn_write ?c (ex_ledger ex') r k \<rparr>)"
      if "exec_inv X ex' rs' []" for ex' :: "('b, 'd) executor" and rs' r k
      using torn_write_shape [OF assms(1), of "ex_ledger ex'" rs' r k] exec_inv_ledger [OF that, of _ "[]"] that
      by (auto simp: exec_inv_def)
    show ?thesis
    proof (cases cp)
      case (TornMark k)
      then show ?thesis using True torn [OF exec_inv_recovered [OF assms(2)]]
        by (simp add: exec_crash_def lk Let_def)
    next
      case (TornComplete k)
      have "exec_crash X ex request now wall cp \<in> {snd (exec_run X (snd ?b) request)} \<union>
          {snd (exec_run X (snd ?b) request) \<lparr> ex_ledger :=
             torn_write ?c (ex_ledger (snd (exec_run X (snd ?b) request))) r k \<rparr> |r. True}"
        using True ok TornComplete by (auto simp: exec_crash_def lk Let_def split: prod.split sum.split)
      then show ?thesis using exec_safeI [OF run(1)] torn [OF run(1)] by auto
    qed (use True ok exec_safeI [OF inv] exec_safeI [OF run(1)] exec_safeI [OF exec_inv_recovered [OF assms(2)]]
        in \<open>simp_all add: exec_crash_def lk Let_def\<close>)
  qed
qed

lemma exec_step_inv:
  assumes "ledger_codec_ok (xe_codec X)" and "exec_safe X ex" and "exec_small X ex e"
  shows "exec_safe X (snd (exec_step X cfg_test ex e))"
proof -
  obtain rs t where inv: "exec_inv X ex rs t" using assms(2) by (auto simp: exec_safe_def)
  show ?thesis
  proof (cases e)
    case (Admit request now)
    have "exec_safe X (snd (exec_admit X cfg_test ex request now))"
      using exec_admit_inv [OF assms(1) inv] by blast
    then show ?thesis using assms(2) Admit by simp
  next
    case (Locked request now wall)
    have "exec_safe X (snd (exec_locked X ex request now wall))"
      using exec_locked_inv [OF assms(1) inv] assms(3) Locked by blast
    then show ?thesis using assms(2) Locked by (simp split: sum.split prod.split) auto
  next
    case (Crash request now wall cp)
    have "exec_safe X (exec_crash X ex request now wall cp)"
      using exec_crash_inv [OF assms(1) inv] assms(3) Crash by simp
    then show ?thesis using assms(2) Crash by simp
  next
    case (Restart now)
    then show ?thesis using assms(2) by (simp split: sum.split)
  qed
qed

lemma run_safe:
  assumes "ledger_codec_ok (xe_codec X)" and "exec_safe X ex" and "run_small X cfg_test ex es"
  shows "exec_safe X (snd (run_ops (exec_step X cfg_test) ex es))"
  using assms(2,3)
proof (induction es arbitrary: ex)
  case (Cons e es)
  then have "exec_safe X (snd (exec_step X cfg_test ex e))"
    using exec_step_inv [OF assms(1)] by simp
  with Cons show ?case by (simp add: Let_def case_prod_beta)
qed simp

section \<open>Restarting\<close>

lemma restore_fold:
  assumes "gv_inv v"
  shows "gv_inv (fold (\<lambda>(i, e) v. restore v i e now) gs v)"
    and "gv_until v i = Some e \<Longrightarrow> gv_until (fold (\<lambda>(i, e) v. restore v i e now) gs v) i = Some e"
  using assms
proof (induction gs arbitrary: v)
  case (Cons g gs)
  {
    case 1
    then show ?case using Cons.IH(1) gv_step_inv [of v undefined "Restore (fst g) (snd g) now"]
      by (simp add: case_prod_beta)
  next
    case 2
    have inv: "gv_inv (restore v (fst g) (snd g) now)"
      using gv_step_inv [OF 2(2), of undefined "Restore (fst g) (snd g) now"] by simp
    have "(e, i) \<in> set (gv_order (restore v (fst g) (snd g) now))"
      using 2 by (simp add: gv_until_iff restore_def set_insort_key)
    then have "gv_until (restore v (fst g) (snd g) now) i = Some e" by (simp add: gv_until_iff [OF inv])
    then show ?case using Cons.IH(2) [OF _ inv] by (simp add: case_prod_beta)
  }
qed simp_all

lemma restore_fold_holds:
  assumes "gv_inv v" and "(i, e) \<in> set gs" and "e > now" and "\<forall>e'. (i, e') \<in> set gs \<longrightarrow> e' = e"
    and "gv_until v i \<in> {None, Some e}"
  shows "gv_until (fold (\<lambda>(i, e) v. restore v i e now) gs v) i = Some e"
  using assms
proof (induction gs arbitrary: v)
  case (Cons g gs)
  let ?v = "restore v (fst g) (snd g) now"
  have inv: "gv_inv ?v"
    using gv_step_inv [OF Cons.prems(1), of undefined "Restore (fst g) (snd g) now"] by simp
  have iff: "\<And>t. gv_until ?v i = Some t \<longleftrightarrow> (t, i) \<in> set (gv_order ?v)"
    "\<And>t. gv_until v i = Some t \<longleftrightarrow> (t, i) \<in> set (gv_order v)"
    by (rule gv_until_iff [OF inv], rule gv_until_iff [OF Cons.prems(1)])
  show ?case
  proof (cases "fst g = i")
    case True
    then have "snd g = e" using Cons.prems(4) by (cases g) auto
    with True Cons.prems(3) have "(e, i) \<in> set (gv_order ?v)"
      using iff(2) Cons.prems(1,5) gv_consumed_iff [OF Cons.prems(1), of i]
      by (cases "gv_until v i") (auto simp: restore_def set_insort_key)
    then have "gv_until ?v i = Some e" using iff(1) by blast
    then show ?thesis using restore_fold(2) [OF inv, of i e now gs] by (cases g) simp
  next
    case False
    then have "gv_until ?v i = gv_until v i"
      using iff by (cases "gv_until ?v i"; cases "gv_until v i") (auto simp: restore_def set_insort_key split: if_splits)
    then have same: "gv_until ?v i \<in> {None, Some e}" using Cons.prems(5) by simp
    have mem: "(i, e) \<in> set gs" using False Cons.prems(2) by auto
    have uniq: "\<forall>e'. (i, e') \<in> set gs \<longrightarrow> e' = e"
      using Cons.prems(4) by (meson list.set_intros(2))
    have "gv_until (fold (\<lambda>(i, e) v. restore v i e now) gs ?v) i = Some e"
      by (rule Cons.IH [OF inv mem Cons.prems(3) uniq same])
    then show ?thesis by (cases g) simp
  qed
qed simp

section \<open>Properties\<close>


lemma exec_admit_accepted:
  assumes "ledger_codec_ok (xe_codec X)" and "ledger_shape (xe_codec X) (ex_ledger ex) rs t"
    and "consumed_shape (xe_codec X) (ex_ledger ex) gs"
    and "verify_and_consume (xe_crypto X) (ex_verifier ex) (br_signed_grant request) now = (Inr (), v)"
    and "xe_sha X (br_parameters_json request) = g_parameters_sha256 (sg_grant (br_signed_grant request))"
    and "a_lookup rs (job_of request) now = Inr (Some x)"
  shows "fst (exec_admit X True ex request now) =
      (case x of LookupCompleted response \<Rightarrow> Inr (Some response)
       | LookupExecuting interrupted \<Rightarrow> Inl (if interrupted then Interrupted else InProgress))"
    and "ex_runs (snd (exec_admit X True ex request now)) = ex_runs ex"
    and "ex_world (snd (exec_admit X True ex request now)) = ex_world ex"
proof -
  let ?g = "sg_grant (br_signed_grant request)"
  obtain L where L: "record_consumed_grant (xe_codec X) (ex_ledger ex) (g_id ?g) (g_expires_at ?g) = (Inr (), L)"
    using record_consumed_shape(1) [OF assms(3)] by (metis prod.collapse)
  then have "ld_jobs L = ld_jobs (ex_ledger ex)"
    using record_consumed_jobs [of "xe_codec X" "ex_ledger ex"] by (metis snd_conv)
  then have "ledger_shape (xe_codec X) L rs t" using assms(2) ledger_shape_jobs_cong by blast
  note lk = lookup_shape [OF assms(1) this]
  show "fst (exec_admit X True ex request now) =
      (case x of LookupCompleted response \<Rightarrow> Inr (Some response)
       | LookupExecuting interrupted \<Rightarrow> Inl (if interrupted then Interrupted else InProgress))"
    "ex_runs (snd (exec_admit X True ex request now)) = ex_runs ex"
    "ex_world (snd (exec_admit X True ex request now)) = ex_world ex"
    by (simp_all add: exec_admit_def Let_def assms(4,5,6) L lk split: ledger_lookup.split bool.split)
qed

text \<open>
  C27. A redispatched job replays its result: after a run of a job completed, a second request for the
  same job, carrying another acceptable grant and arriving within the retention of seven days, is
  answered with the recorded response, and the operation is not started again.
\<close>

theorem redispatch_replays_result:
  assumes "ledger_codec_ok (xe_codec X)" and "ledger_shape (xe_codec X) (ex_ledger ex) rs t"
    and "consumed_shape (xe_codec X) (ex_ledger ex1) gs"
    and "ledger_small (ex_ledger ex)"
    and "exec_begin X ex request now wall = (Inr None, exb)" and "ledger_small (ex_ledger exb)"
    and "exec_finish X exb request now wall = (Inr response, ex1)"
    and "job_of request2 = job_of request"
    and "verify_and_consume (xe_crypto X) (ex_verifier ex1) (br_signed_grant request2) later = (Inr (), v)"
    and "xe_sha X (br_parameters_json request2) = g_parameters_sha256 (sg_grant (br_signed_grant request2))"
    and "later < now + RECORD_RETENTION"
  shows "fst (execute X True ex1 request2 later wall2) = Inr response \<and>
    ex_runs (snd (execute X True ex1 request2 later wall2)) = ex_runs ex1 \<and>
    ex_world (snd (execute X True ex1 request2 later wall2)) = ex_world ex1"
proof -
  let ?c = "xe_codec X" and ?j = "job_of request"
  let ?rs = "rs @ [executing_record ?j (op_of request) now]"
  have none: "a_lookup rs ?j now = Inr None"
    using assms(5) by (auto simp: exec_begin_def Let_def lookup_shape [OF assms(1,2)]
        split: sum.splits option.splits ledger_lookup.splits prod.splits)
  have shape: "ledger_shape ?c (ex_ledger exb) ?rs []"
    using mark_executing_shape [OF assms(1) recovered_shape [OF assms(2)] recovered_small [OF assms(2,4)] none,
        of "op_of request" wall] assms(5) none
    by (auto simp: exec_begin_def Let_def lookup_shape [OF assms(1,2)] case_prod_beta)
  have rl: "ex_ledger (snd (exec_run X exb request)) = ex_ledger exb"
    by (simp add: exec_run_def Let_def case_prod_beta)
  obtain L where L: "record_completed ?c (ex_ledger exb) ?j response now wall = (Inr (), L)" and exL: "ex_ledger ex1 = L"
    using assms(7) rl by (auto simp: exec_finish_def split: prod.splits sum.splits)
  have "length (bp_output response) \<le> MAX_RECORDED_OUTPUT_BYTES"
    using L by (auto simp: record_completed_def split: if_splits)
  from record_completed_shape [OF assms(1) shape assms(6) a_lookup_after_mark this, of now wall] L
  obtain oper where shape1: "ledger_shape ?c (ex_ledger ex1) (?rs @ [completed_record ?j oper response now]) []"
    using exL by auto
  have "a_lookup (?rs @ [completed_record ?j oper response now]) (job_of request2) later =
      Inr (Some (LookupCompleted response))"
    using a_lookup_after_completed [OF assms(11), of ?rs] by (simp add: assms(8))
  from exec_admit_accepted [OF assms(1) shape1 assms(3,9,10) this]
  show ?thesis by (cases "exec_admit X True ex1 request2 later") (simp add: execute_def)
qed

text \<open>
  While an operation is still running, a second acceptable request for its job is refused as
  already in progress: the first ledger lookup happens before the execution lock is taken, so the
  request neither waits for the running operation nor replays its result.
\<close>

theorem inflight_redispatch_refused:
  assumes "ledger_codec_ok (xe_codec X)" and "ledger_shape (xe_codec X) (ex_ledger ex) rs t"
    and "ledger_small (ex_ledger ex)" and "exec_begin X ex request now wall = (Inr None, exb)"
    and "consumed_shape (xe_codec X) (ex_ledger exb) gs"
    and "job_of request2 = job_of request"
    and "verify_and_consume (xe_crypto X) (ex_verifier exb) (br_signed_grant request2) later = (Inr (), v)"
    and "xe_sha X (br_parameters_json request2) = g_parameters_sha256 (sg_grant (br_signed_grant request2))"
    and "later < now + EXECUTING_MARKER_TTL"
  shows "fst (execute X True exb request2 later wall2) = Inl InProgress"
proof -
  let ?c = "xe_codec X" and ?j = "job_of request"
  let ?rs = "rs @ [executing_record ?j (op_of request) now]"
  have none: "a_lookup rs ?j now = Inr None"
    using assms(4) by (auto simp: exec_begin_def Let_def lookup_shape [OF assms(1,2)]
        split: sum.splits option.splits ledger_lookup.splits prod.splits)
  have shape: "ledger_shape ?c (ex_ledger exb) ?rs []"
    using mark_executing_shape [OF assms(1) recovered_shape [OF assms(2)] recovered_small [OF assms(2,3)] none,
        of "op_of request" wall] assms(4) none
    by (auto simp: exec_begin_def Let_def lookup_shape [OF assms(1,2)] case_prod_beta)
  have "a_lookup ?rs (job_of request2) later = Inr (Some (LookupExecuting False))"
    using a_lookup_after_mark [of rs ?j "op_of request" now later] assms(6,9) by simp
  from exec_admit_accepted [OF assms(1) shape assms(5,7,8) this]
  show ?thesis by (cases "exec_admit X True exb request2 later") (simp add: execute_def)
qed

text \<open>
  C28. Restarting the broker does not reopen the replay window: a grant whose consumption is in the
  journal is refused by the verifier that \<open>broker_start\<close> builds, at every clock reading from the
  restart to just before its expiry.
\<close>

theorem restart_keeps_replay_protection:
  assumes "consumed_codec_ok c" and "consumed_shape c L gs" and "(g_id (sg_grant sg), e) \<in> set gs"
    and "\<forall>e'. (g_id (sg_grant sg), e') \<in> set gs \<longrightarrow> e' = e"
    and "broker_start c device key L now = Inr v" and "now \<le> later" and "later < e"
  shows "\<not> is_ok (fst (verify_and_consume cr v sg later))"
proof -
  let ?gs = "filter (\<lambda>(_, e). e > now) gs"
  have v: "v = fold (\<lambda>(i, e) v. restore v i e now) ?gs (gv_new device key)"
    using assms(5) by (simp add: broker_start_def load_consumed_shape [OF assms(1,2)])
  have "gv_until v (g_id (sg_grant sg)) = Some e" unfolding v
  proof (rule restore_fold_holds)
    show "\<forall>e'. (g_id (sg_grant sg), e') \<in> set ?gs \<longrightarrow> e' = e" using assms(4) by (meson filter_is_subset subsetD)
  qed (use assms(3,6,7) in \<open>simp_all add: gv_until_def gv_new_def gv_inv_def\<close>)
  moreover have "gv_inv v" unfolding v by (rule restore_fold(1)) simp
  ultimately show ?thesis
    using gv_step_refuse [of v "g_id (sg_grant sg)" e "Verify sg later" "g_expires_at (sg_grant sg)" cr] assms(7) by simp
qed

text \<open>
  The released broker executes nothing: outside the test configuration every request fails with
  the unavailability error and leaves replay set, journals and machine as they were.
\<close>

theorem executor_release_refuses:
  "execute X False ex request now wall = (Inl PrivilegedUnavailable, ex)"
  by (simp add: execute_def exec_admit_def PRIVILEGED_OPERATIONS_ENABLED_def)

section \<open>Witnesses\<close>

definition demo_env :: "(byte, byte, bytes, nat) exec_env" where
  "demo_env = \<lparr> xe_crypto = demo_crypto, xe_codec = demo_codec, xe_sha = (\<lambda>_. ''44136fa3''),
     xe_run = (\<lambda>w _ _. (Inr demo_response, w + 1)) \<rparr>"

definition demo_executor :: "(byte, nat) executor" where
  "demo_executor = \<lparr> ex_up = True, ex_verifier = demo_verifier, ex_ledger = empty_ledger,
     ex_world = 0, ex_runs = [] \<rparr>"

definition demo_request :: broker_request where
  "demo_request = \<lparr> br_signed_grant = demo_signed_grant, br_parameters_json = [123, 125] \<rparr>"

lemma demo_env_simps [simp]:
  "xe_crypto demo_env = demo_crypto" "xe_codec demo_env = demo_codec"
  "xe_sha demo_env bs = ''44136fa3''" "xe_run demo_env w oper bs = (Inr demo_response, w + 1)"
  by (simp_all add: demo_env_def)

lemma demo_executor_simps [simp]:
  "ex_up demo_executor" "ex_verifier demo_executor = demo_verifier"
  "ex_ledger demo_executor = empty_ledger" "ex_runs demo_executor = []"
  by (simp_all add: demo_executor_def)

lemma demo_request_simps [simp]:
  "br_signed_grant demo_request = demo_signed_grant" "sg_grant demo_signed_grant = demo_grant"
  "g_job_or_session_id demo_grant = 5" "g_operation demo_grant = RestartMachine"
  "g_parameters_sha256 demo_grant = ''44136fa3''" "g_id demo_grant = 7"
  by (simp_all add: demo_request_def demo_signed_grant_def demo_grant_def)

lemma demo_empty_lookup: "lookup demo_codec empty_ledger j now = (Inr None, empty_ledger)"
  by (simp add: lookup_def empty_ledger_def)

lemma demo_begin:
  "exec_begin demo_env demo_executor demo_request (secs 1) (secs 1) =
     (Inr None, demo_executor \<lparr> ex_ledger := demo_marked \<rparr>)"
  by (simp add: exec_begin_def Let_def demo_empty_lookup demo_marked_eq)

lemma demo_finish:
  "exec_finish demo_env (demo_executor \<lparr> ex_ledger := demo_marked \<rparr>) demo_request (secs 1) (secs 1) =
     (Inr demo_response, demo_executor \<lparr> ex_ledger := demo_completed, ex_world := ex_world demo_executor + 1, ex_runs := [5] \<rparr>)"
  by (simp add: exec_finish_def exec_run_def Let_def demo_completed_eq)

lemma demo_ledgers_consumed:
  "consumed_shape demo_codec demo_marked []" "consumed_shape demo_codec demo_completed []"
  by (simp_all add: consumed_shape_def demo_marked_def demo_completed_def record_completed_consumed
      mark_executing_consumed empty_ledger_def)

definition demo_events :: "exec_event list" where
  "demo_events = [Crash demo_request (secs 1) (secs 1) AfterRun, Restart (secs 121),
     Locked demo_request (secs 122) (secs 122)]"

lemma demo_marked_lookup:
  "lookup demo_codec demo_marked 5 (secs 122) = (Inr (Some (LookupExecuting False)), demo_marked)"
  using lookup_shape [OF demo_codec_ok demo_marked_shape, of 5 "secs 122"]
  by (simp add: recovered_def a_lookup_def retained_def executing_record_def find_record_def lookup_result_def
      EXECUTING_MARKER_TTL_def secs_def nanos_per_second_def)

lemma demo_run_small: "run_small demo_env True demo_executor demo_events"
proof -
  have "load_consumed_grants demo_codec demo_marked now = Inr []" for now
    using load_consumed_shape [OF demo_consumed_codec_ok demo_ledgers_consumed(1)] by simp
  then have "broker_start demo_codec d k demo_marked now = Inr (gv_new d k)" for d now and k :: byte
    by (simp add: broker_start_def)
  then show ?thesis
    by (simp add: demo_events_def exec_crash_def Let_def demo_empty_lookup demo_begin exec_run_def
        empty_ledger_shape(2) demo_marked_small exec_begin_def demo_marked_lookup demo_marked_eq)
qed


theorem redispatch_replays_result_witness:
  "fst (execute demo_env True
     (demo_executor \<lparr> ex_ledger := demo_completed, ex_world := ex_world demo_executor + 1, ex_runs := [5] \<rparr>)
     demo_request (secs 120) (secs 120)) = Inr demo_response"
proof -
  have "secs 120 < secs 1 + RECORD_RETENTION"
    by (simp add: RECORD_RETENTION_def secs_def nanos_per_second_def)
  from redispatch_replays_result [where X = demo_env and rs = "[]" and t = "[]" and gs = "[]",
      OF _ _ _ _ demo_begin _ demo_finish refl _ _ this]
  show ?thesis
    using demo_codec_ok empty_ledger_shape demo_ledgers_consumed demo_marked_small demo_first_use by simp
qed

theorem inflight_redispatch_refused_witness:
  "fst (execute demo_env True (demo_executor \<lparr> ex_ledger := demo_marked \<rparr>) demo_request (secs 120) (secs 120)) =
     Inl InProgress"
proof -
  have "secs 120 < secs 1 + EXECUTING_MARKER_TTL"
    by (simp add: EXECUTING_MARKER_TTL_def secs_def nanos_per_second_def)
  from inflight_redispatch_refused [where X = demo_env and rs = "[]" and t = "[]" and gs = "[]",
      OF _ _ _ demo_begin _ refl _ _ this]
  show ?thesis
    using demo_codec_ok empty_ledger_shape demo_ledgers_consumed demo_first_use by simp
qed

theorem restart_keeps_replay_protection_witness:
  "\<exists>v. broker_start demo_codec 3 9 demo_consumed (secs 121) = Inr v \<and>
     \<not> is_ok (fst (verify_and_consume demo_crypto v demo_signed_grant (secs 122)))"
proof -
  have shape: "consumed_shape demo_codec demo_consumed [(7, secs 130)]"
    using record_consumed_shape(2) [OF empty_ledger_shape(3)] by (simp add: demo_consumed_def)
  obtain v where "broker_start demo_codec 3 (9 :: byte) demo_consumed (secs 121) = Inr v"
    by (simp add: broker_start_def load_consumed_shape [OF demo_consumed_codec_ok shape])
  with restart_keeps_replay_protection [OF demo_consumed_codec_ok shape, of demo_signed_grant "secs 130" 3 9 "secs 121" v "secs 122" demo_crypto]
  show ?thesis by (auto simp: secs_def nanos_per_second_def)
qed

end
