(* ===== verification/Wire_Frames.thy ===== *)
theory Wire_Frames
  imports Broker_Executor
begin

text \<open>
  The local channel between daemon and broker: the length-prefixed frames of
  \<^verbatim>\<open>centrald-client/src/broker.rs\<close> (\<^verbatim>\<open>frame_bytes\<close>, \<^verbatim>\<open>unframe_bytes\<close>) and
  \<^verbatim>\<open>broker_session.rs\<close> (\<^verbatim>\<open>read_frame\<close>, \<^verbatim>\<open>write_frame\<close>, \<^verbatim>\<open>unframe_message\<close>), the dispatch of a
  connection by its first frame, and the bound on concurrent connections. A stream is the list of
  bytes still to be read.
\<close>

unbundle bit_operations_syntax

section \<open>Frames\<close>

text \<open>\<^verbatim>\<open>u32::to_be_bytes\<close> and \<^verbatim>\<open>u32::from_be_bytes\<close>.\<close>

definition to_be_bytes :: "32 word \<Rightarrow> bytes" where
  "to_be_bytes w = [ucast (drop_bit 24 w), ucast (drop_bit 16 w), ucast (drop_bit 8 w), ucast w]"

definition from_be_bytes :: "byte \<Rightarrow> byte \<Rightarrow> byte \<Rightarrow> byte \<Rightarrow> 32 word" where
  "from_be_bytes a b c d =
     push_bit 24 (ucast a) OR push_bit 16 (ucast b) OR push_bit 8 (ucast c) OR ucast d"

datatype frame_error = TooLarge | Truncated | BadLength | TrailingBytes | TimedOut

text \<open>\<^verbatim>\<open>u32::try_from(len)\<close>.\<close>

definition u32_of_len :: "nat \<Rightarrow> 32 word option" where
  "u32_of_len n = (if n < 2 ^ 32 then Some (word_of_nat n) else None)"

definition frame_bytes :: "bytes \<Rightarrow> frame_error + bytes" where
  "frame_bytes body =
     (case u32_of_len (length body) of
        None \<Rightarrow> Inl TooLarge
      | Some sz \<Rightarrow> Inr (to_be_bytes sz @ body))"

fun unframe_bytes :: "bytes \<Rightarrow> nat \<Rightarrow> frame_error + bytes \<times> nat" where
  "unframe_bytes (a # b # c # d # rest) max_body =
     (let sz = unat (from_be_bytes a b c d) in
      if sz = 0 \<or> sz > max_body then Inl BadLength
      else if 4 + sz > length (a # b # c # d # rest) then Inl Truncated
      else Inr (take sz rest, 4 + sz))"
| "unframe_bytes _ max_body = Inl Truncated"

text \<open>Reading from a stream: the frame's body and the bytes that follow it.\<close>

fun read_frame :: "bytes \<Rightarrow> nat \<Rightarrow> frame_error + bytes \<times> bytes" where
  "read_frame (a # b # c # d # rest) max_bytes =
     (let sz = unat (from_be_bytes a b c d) in
      if sz = 0 \<or> sz > max_bytes then Inl BadLength
      else if length rest < sz then Inl Truncated
      else Inr (take sz rest, drop sz rest))"
| "read_frame _ max_bytes = Inl Truncated"

definition write_frame :: "bytes \<Rightarrow> bytes \<Rightarrow> (frame_error + unit) \<times> bytes" where
  "write_frame out body =
     (case u32_of_len (length body) of
        None \<Rightarrow> (Inl TooLarge, out)
      | Some sz \<Rightarrow> (Inr (), out @ to_be_bytes sz @ body))"

fun unframe_message :: "bytes \<Rightarrow> nat \<Rightarrow> frame_error + bytes" where
  "unframe_message (a # b # c # d # rest) max_body =
     (let sz = unat (from_be_bytes a b c d) in
      if sz = 0 \<or> sz > max_body \<or> 4 + sz \<noteq> length (a # b # c # d # rest) then Inl BadLength
      else Inr (take sz rest))"
| "unframe_message _ max_body = Inl Truncated"

text \<open>
  The loop of \<^verbatim>\<open>poll_first_frame\<close> over what the pipe delivers: a chunk, or nothing yet, in which
  case the flag says whether the wait has exceeded its limit. The list ends when the pipe fails.
\<close>

datatype poll = Chunk bytes | Nothing bool

definition MAX_FIRST_FRAME_BYTES :: nat where
  "MAX_FIRST_FRAME_BYTES = 128 * 1024"

text \<open>The test on the bytes received so far: \<open>None\<close> means more are needed.\<close>

fun first_frame_ready :: "bytes \<Rightarrow> (frame_error + bytes) option" where
  "first_frame_ready (a # b # c # d # rest) =
     (let frame = a # b # c # d # rest; sz = unat (from_be_bytes a b c d) in
      if sz = 0 \<or> sz > MAX_FIRST_FRAME_BYTES then Some (Inl BadLength)
      else if length frame = 4 + sz then Some (unframe_message frame MAX_FIRST_FRAME_BYTES)
      else if length frame > 4 + sz then Some (Inl TrailingBytes)
      else None)"
| "first_frame_ready _ = None"

fun poll_first_frame :: "bytes \<Rightarrow> poll list \<Rightarrow> frame_error + bytes" where
  "poll_first_frame frame ps =
     (case first_frame_ready frame of
        Some r \<Rightarrow> r
      | None \<Rightarrow> (case ps of
          [] \<Rightarrow> Inl Truncated
        | Chunk bs # ps \<Rightarrow>
            if length (frame @ bs) > 4 + MAX_FIRST_FRAME_BYTES then Inl TooLarge
            else poll_first_frame (frame @ bs) ps
        | Nothing late # ps \<Rightarrow> if late then Inl TimedOut else poll_first_frame frame ps))"

declare poll_first_frame.simps [simp del]

section \<open>Dispatch\<close>

definition MAX_WIRE_REQUEST_BYTES :: nat where
  "MAX_WIRE_REQUEST_BYTES = 16 * 1024"

definition MAX_WIRE_RESPONSE_BYTES :: nat where
  "MAX_WIRE_RESPONSE_BYTES = 384 * 1024"

datatype wire_result = WireOk broker_response | WireError string

text \<open>
  The JSON crate at the channel: values and requests from bytes, results to bytes; \<open>wc_message\<close> is
  the display text of an execution error.
\<close>

record wire_codec =
  wc_value :: "bytes \<Rightarrow> json option"
  wc_request :: "bytes \<Rightarrow> broker_request option"
  wc_result :: "wire_result \<Rightarrow> bytes"
  wc_decode_result :: "bytes \<Rightarrow> wire_result option"
  wc_message :: "exec_error \<Rightarrow> string"

definition encode_wire_error :: "wire_codec \<Rightarrow> string \<Rightarrow> bytes" where
  "encode_wire_error w message = wc_result w (WireError message)"

definition execute_request ::
  "wire_codec \<Rightarrow> ('sk, 'vk, 'sig, 'w) exec_env \<Rightarrow> bool \<Rightarrow> ('vk, 'w) executor \<Rightarrow> bytes \<Rightarrow>
     instant \<Rightarrow> instant \<Rightarrow> (string + bytes) \<times> ('vk, 'w) executor" where
  "execute_request w X cfg_test ex request_bytes now wall =
     (case wc_request w request_bytes of
        None \<Rightarrow> (Inl ''decode broker request'', ex)
      | Some request \<Rightarrow> (case execute X cfg_test ex request now wall of
          (Inl e, ex) \<Rightarrow> (Inl (wc_message w e), ex)
        | (Inr response, ex) \<Rightarrow> (Inr (wc_result w (WireOk response)), ex)))"

datatype dispatched = ServeSession bytes | Written bytes

definition dispatch_connection ::
  "wire_codec \<Rightarrow> ('sk, 'vk, 'sig, 'w) exec_env \<Rightarrow> bool \<Rightarrow> ('vk, 'w) executor \<Rightarrow> bytes \<Rightarrow>
     instant \<Rightarrow> instant \<Rightarrow> (frame_error + dispatched) \<times> ('vk, 'w) executor" where
  "dispatch_connection w X cfg_test ex first_frame now wall =
     (let is_session_open = (case wc_value w first_frame of
            None \<Rightarrow> False
          | Some v \<Rightarrow> Option.bind (json_get ''kind'' v) json_as_str = Some ''open'') in
      if is_session_open then (Inr (ServeSession first_frame), ex)
      else
        let (response, ex) =
              (if length first_frame > MAX_WIRE_REQUEST_BYTES
               then (encode_wire_error w ''broker request exceeds the wire bound'', ex)
               else (case execute_request w X cfg_test ex first_frame now wall of
                   (Inr response, ex) \<Rightarrow> (response, ex)
                 | (Inl message, ex) \<Rightarrow> (encode_wire_error w message, ex)));
            body = (if length response > MAX_WIRE_RESPONSE_BYTES
                    then encode_wire_error w ''broker response exceeded the wire bound''
                    else response) in
        (case write_frame [] body of
           (Inl e, _) \<Rightarrow> (Inl e, ex)
         | (Inr _, out) \<Rightarrow> (Inr (Written out), ex)))"

definition submit_request ::
  "wire_codec \<Rightarrow> (broker_request \<Rightarrow> bytes) \<Rightarrow> (bytes \<Rightarrow> bytes) \<Rightarrow> broker_request \<Rightarrow> string + wire_result"
where
  "submit_request w ser channel request =
     (let body = ser request in
      if length body > MAX_WIRE_REQUEST_BYTES then Inl ''broker request exceeds the wire bound''
      else (case frame_bytes body of
          Inl _ \<Rightarrow> Inl ''broker request is too large''
        | Inr framed \<Rightarrow>
            (case unframe_bytes (take (MAX_WIRE_RESPONSE_BYTES + 8) (channel framed)) MAX_WIRE_RESPONSE_BYTES of
               Inl _ \<Rightarrow> Inl ''broker response is malformed''
             | Inr (response, _) \<Rightarrow> (case wc_decode_result w response of
                 None \<Rightarrow> Inl ''decode broker response''
               | Some r \<Rightarrow> Inr r))))"

section \<open>Connection slots\<close>

definition MAX_INFLIGHT_CONNECTIONS :: nat where
  "MAX_INFLIGHT_CONNECTIONS = 64"

text \<open>
  The shared counter and the connections being served. \<^verbatim>\<open>accept\<close> adds one before it compares, and
  takes it back when the connection is dropped; the guard takes it back when the worker ends.
\<close>

record conn_state =
  cs_inflight :: nat
  cs_active :: "nat list"

datatype conn_op = Accept nat bool | Close nat

fun conn_step :: "conn_state \<Rightarrow> conn_op \<Rightarrow> bool \<times> conn_state" where
  "conn_step s (Accept i peer_ok) =
     (if \<not> peer_ok then (False, s)
      else let current = cs_inflight s; s = s \<lparr> cs_inflight := current + 1 \<rparr> in
        if current \<ge> MAX_INFLIGHT_CONNECTIONS then (False, s \<lparr> cs_inflight := cs_inflight s - 1 \<rparr>)
        else (True, s \<lparr> cs_active := i # cs_active s \<rparr>))"
| "conn_step s (Close i) =
     (if i \<in> set (cs_active s)
      then (True, s \<lparr> cs_inflight := cs_inflight s - 1, cs_active := remove1 i (cs_active s) \<rparr>)
      else (False, s))"

section \<open>Lemmas\<close>

lemma from_to_be_bytes:
  "from_be_bytes (ucast (drop_bit 24 w)) (ucast (drop_bit 16 w)) (ucast (drop_bit 8 w)) (ucast w) = w"
proof (rule bit_word_eqI)
  fix n :: nat
  assume "n < LENGTH(32)"
  then have "n < 32" by simp
  then consider "n < 8" | "8 \<le> n" "n < 16" | "16 \<le> n" "n < 24" | "24 \<le> n" "n < 32" by linarith
  then show "bit (from_be_bytes (ucast (drop_bit 24 w)) (ucast (drop_bit 16 w)) (ucast (drop_bit 8 w)) (ucast w)) n = bit w n"
    by cases (auto simp: from_be_bytes_def bit_simps)
qed

lemma to_be_bytes_length [simp]: "length (to_be_bytes w) = 4"
  by (simp add: to_be_bytes_def)

lemma unat_len: "n < 2 ^ 32 \<Longrightarrow> unat (word_of_nat n :: 32 word) = n"
  by (simp add: unat_of_nat)

lemma read_written:
  assumes "0 < length body" and "length body \<le> max_bytes" and "length body < 2 ^ 32"
  shows "read_frame (to_be_bytes (word_of_nat (length body)) @ body @ rest) max_bytes = Inr (body, rest)"
  using assms by (simp add: to_be_bytes_def from_to_be_bytes Let_def unat_len)

section \<open>Properties\<close>

fun read_frames :: "nat \<Rightarrow> bytes \<Rightarrow> nat \<Rightarrow> frame_error + bytes list \<times> bytes" where
  "read_frames 0 s max_bytes = Inr ([], s)"
| "read_frames (Suc n) s max_bytes =
     (case read_frame s max_bytes of
        Inl e \<Rightarrow> Inl e
      | Inr (body, s) \<Rightarrow> (case read_frames n s max_bytes of
          Inl e \<Rightarrow> Inl e
        | Inr (bodies, s) \<Rightarrow> Inr (body # bodies, s)))"

text \<open>
  C33. Frames survive the stream: when any number of non-empty bodies within the reader's bound are
  written one after the other, reading that many frames returns exactly those bodies in order and
  leaves exactly the bytes that followed them.
\<close>

theorem frames_roundtrip:
  assumes "\<forall>b \<in> set bodies. 0 < length b \<and> length b \<le> max_bytes" and "max_bytes < 2 ^ 32"
  shows "read_frames (length bodies) (snd (run_ops write_frame [] bodies) @ rest) max_bytes = Inr (bodies, rest)"
proof -
  have out: "snd (run_ops write_frame out bodies) = out @ concat (map (\<lambda>b. to_be_bytes (word_of_nat (length b)) @ b) bodies)"
    for out using assms
  proof (induction bodies arbitrary: out)
    case (Cons b bodies)
    then have "length b < 2 ^ 32" by auto
    then have "snd (write_frame out b) = out @ to_be_bytes (word_of_nat (length b)) @ b"
      by (simp add: write_frame_def u32_of_len_def)
    with Cons show ?case by (simp add: Let_def case_prod_beta)
  qed simp
  have "read_frames (length bodies) (concat (map (\<lambda>b. to_be_bytes (word_of_nat (length b)) @ b) bodies) @ rest) max_bytes
      = Inr (bodies, rest)" using assms
  proof (induction bodies)
    case (Cons b bodies)
    then show ?case by (simp add: read_written)
  qed simp
  then show ?thesis by (simp add: out)
qed

text \<open>
  The request and response framing of the one-shot channel agree: framing a non-empty body within
  the bound and unframing it, also with trailing bytes, returns the body and the exact number of
  bytes it took; the message-mode variant accepts exactly the frame without trailing bytes.
\<close>

theorem unframe_frame:
  assumes "0 < length body" and "length body \<le> max_body" and "frame_bytes body = Inr framed"
  shows "unframe_bytes (framed @ rest) max_body = Inr (body, length framed) \<and>
    unframe_message (framed @ rest) max_body = (if rest = [] then Inr body else Inl BadLength)"
proof -
  have "length body < 2 ^ 32"
    using assms(3) by (auto simp: frame_bytes_def u32_of_len_def split: if_splits)
  with assms show ?thesis
    by (auto simp: frame_bytes_def u32_of_len_def to_be_bytes_def from_to_be_bytes Let_def unat_len)
qed

text \<open>
  Polling a pipe for the first frame is independent of how the bytes are cut into chunks: however
  a framed body within the bound is delivered, with any number of empty polls in between before the
  deadline, the loop returns the body.
\<close>

theorem poll_first_frame_chunks:
  assumes "0 < length body" and "length body \<le> MAX_FIRST_FRAME_BYTES" and "frame_bytes body = Inr framed"
    and "framed = concat (map (\<lambda>p. case p of Chunk bs \<Rightarrow> bs | Nothing _ \<Rightarrow> []) ps)"
    and "Nothing True \<notin> set ps"
  shows "poll_first_frame [] ps = Inr body"
proof -
  have len: "length body < 2 ^ 32"
    using assms(2) by (simp add: MAX_FIRST_FRAME_BYTES_def)
  then have fr: "framed = to_be_bytes (word_of_nat (length body)) @ body"
    using assms(3) by (auto simp: frame_bytes_def u32_of_len_def)
  have ready: "first_frame_ready p = (if length p = length framed then Some (Inr body) else None)"
    if "framed = p @ q" for p q
  proof (cases "length p < 4")
    case True
    then have "first_frame_ready p = None" by (cases p rule: first_frame_ready.cases) auto
    with True show ?thesis by (simp add: fr)
  next
    case False
    then have "take 4 framed = take 4 p" using that by simp
    then have "take 4 p = to_be_bytes (word_of_nat (length body))" by (simp add: fr)
    then obtain r where p: "p = to_be_bytes (word_of_nat (length body)) @ r"
      by (metis append_take_drop_id)
    have "length p \<le> length framed" using that by simp
    moreover have "length p = length framed \<Longrightarrow> r = body" using that p fr by auto
    ultimately show ?thesis using assms(1,2) len
      by (auto simp: p fr to_be_bytes_def from_to_be_bytes Let_def unat_len)
  qed
  have "poll_first_frame p ps = Inr body"
    if "framed = p @ concat (map (\<lambda>p. case p of Chunk bs \<Rightarrow> bs | Nothing _ \<Rightarrow> []) ps)" "Nothing True \<notin> set ps" for p
    using that
  proof (induction ps arbitrary: p)
    case Nil
    then show ?case using ready [of p "[]"] by (simp add: poll_first_frame.simps)
  next
    case (Cons x ps)
    show ?case
    proof (cases "length p = length framed")
      case True
      then show ?thesis using ready [OF Cons.prems(1)] by (subst poll_first_frame.simps) simp
    next
      case False
      have bound: "length framed \<le> 4 + MAX_FIRST_FRAME_BYTES" using assms(2) by (simp add: fr)
      show ?thesis
      proof (cases x)
        case (Chunk bs)
        then have "framed = (p @ bs) @ concat (map (\<lambda>p. case p of Chunk bs \<Rightarrow> bs | Nothing _ \<Rightarrow> []) ps)"
          using Cons.prems(1) by simp
        moreover from this have "length (p @ bs) \<le> 4 + MAX_FIRST_FRAME_BYTES" using bound by simp
        ultimately show ?thesis using Cons.IH [of "p @ bs"] Cons.prems Chunk False ready [OF Cons.prems(1)]
          by (subst poll_first_frame.simps) simp
      next
        case (Nothing late)
        then show ?thesis using Cons False ready [OF Cons.prems(1)]
          by (subst poll_first_frame.simps) auto
      qed
    qed
  qed
  from this [of "[]"] show ?thesis using assms(4,5) by simp
qed

text \<open>
  Connection slots neither leak nor overflow: after any sequence of accepted, dropped, rejected
  and closed connections the counter equals the number of connections being served and never exceeds
  64.
\<close>

theorem connection_slots_exact:
  "let s = snd (run_ops conn_step \<lparr> cs_inflight = 0, cs_active = [] \<rparr> xs) in
     cs_inflight s = length (cs_active s) \<and> cs_inflight s \<le> MAX_INFLIGHT_CONNECTIONS"
  unfolding Let_def
proof (rule run_ops_invariant [where I = "\<lambda>s. cs_inflight s = length (cs_active s) \<and> cs_inflight s \<le> MAX_INFLIGHT_CONNECTIONS"])
  fix s :: conn_state and x
  assume "cs_inflight s = length (cs_active s) \<and> cs_inflight s \<le> MAX_INFLIGHT_CONNECTIONS"
  then show "cs_inflight (snd (conn_step s x)) = length (cs_active (snd (conn_step s x))) \<and>
      cs_inflight (snd (conn_step s x)) \<le> MAX_INFLIGHT_CONNECTIONS"
    by (cases x) (auto simp: Let_def length_remove1)
qed simp

section \<open>Witnesses\<close>

theorem frames_roundtrip_witness:
  "read_frames (length [[1, 2], [3 :: byte]]) (snd (run_ops write_frame [] [[1, 2], [3]]) @ [9]) 1024 =
     Inr ([[1, 2], [3]], [9])"
  by (rule frames_roundtrip) simp_all

lemma demo_frame: "frame_bytes [7, 8] = Inr [0, 0, 0, 2, 7, 8]"
  by (simp add: frame_bytes_def u32_of_len_def to_be_bytes_def)

theorem unframe_frame_witness:
  "unframe_bytes ([0, 0, 0, 2, 7, 8] @ [5]) 16 = Inr ([7, 8], 6)"
  using unframe_frame [OF _ _ demo_frame, of 16 "[5]"] by simp

theorem poll_first_frame_chunks_witness:
  "poll_first_frame [] [Chunk [0, 0], Nothing False, Chunk [0, 2, 7], Chunk [8]] = Inr [7, 8]"
  by (rule poll_first_frame_chunks [OF _ _ demo_frame]) (simp_all add: MAX_FIRST_FRAME_BYTES_def)

end
