(* ===== verification/Server_Db.thy ===== *)
theory Server_Db
  imports Grants
begin

text \<open>
  The server's \<^verbatim>\<open>PostgreSQL\<close> schema (\<^verbatim>\<open>centrald-server/migrations/0001_initial.sql\<close>) as far as
  \<^verbatim>\<open>services.rs\<close> uses it: one record per table, a database as the lists of their rows, the CHECK and
  key constraints as the predicate \<open>db_constraints\<close>, and the effect of deleting identities with its
  ON DELETE actions. A TEXT column that a CHECK restricts to finitely many values is a datatype.
  A transaction is a function from a database to a result and a database, which is the old one when
  the transaction returns an error. Columns that no query reads (\<^verbatim>\<open>updated_at\<close>, \<^verbatim>\<open>inventory\<close>) are
  left out.
\<close>

section \<open>Rows\<close>

datatype identity_role = RoleUnspecified | RoleClient | RoleAdmin

record identity_row =
  i_id :: uuid
  i_role :: identity_role
  i_name :: string
  i_serial :: "string option"
  i_fingerprint :: "string option"
  i_elevation_public_key :: "bytes option"
  i_activated_at :: "instant option"
  i_activation_expires_at :: "instant option"
  i_revoked_at :: "instant option"
  i_revoked_reason :: "string option"

datatype certificate_state = CertPending | CertActive

record certificate_row =
  c_fingerprint :: string
  c_identity_id :: uuid
  c_serial :: string
  c_state :: certificate_state
  c_activation_expires_at :: "instant option"
  c_expires_at :: instant
  c_retire_at :: "instant option"
  c_revoked_at :: "instant option"

record enrollment_key_row =
  k_id :: uuid
  k_role :: identity_role
  k_name :: string
  k_secret_hash :: string
  k_expires_at :: instant
  k_consumed_at :: "instant option"
  k_consumed_by :: "uuid option"
  k_revoked_at :: "instant option"
  k_revoked_by :: "uuid option"
  k_revoked_reason :: "string option"
  k_created_at :: instant

record client_row =
  cl_identity_id :: uuid
  cl_hostname :: string
  cl_os :: string
  cl_os_version :: string
  cl_architecture :: string
  cl_client_version :: string
  cl_capabilities :: "string list"
  cl_boot_id :: string
  cl_last_seen :: "instant option"

datatype job_kind = KindUnspecified | KindRestartClientService | KindRestartMachine
  | KindCheckOsUpdates | KindApplyOsUpdates | KindUpdateClient

datatype job_state = StateUnspecified | Queued | Dispatched | Acknowledged | Running | Succeeded
  | Failed | Canceled | TimedOut

record job_row =
  jb_id :: uuid
  jb_request_id :: uuid
  jb_target_id :: uuid
  jb_actor_id :: uuid
  jb_kind :: job_kind
  jb_state :: job_state
  jb_parameters :: json
  jb_reason :: string
  jb_idempotency_key :: uuid
  jb_delivery_id :: "uuid option"
  jb_delivery_lease :: "instant option"
  jb_execution_start :: "instant option"
  jb_expires_at :: instant
  jb_created_at :: instant

record job_event_row =
  ev_job_id :: uuid
  ev_sequence :: int
  ev_state :: job_state
  ev_output :: bytes
  ev_stderr :: bool
  ev_exit_code :: "32 word option"
  ev_terminal :: bool

record audit_row =
  a_sequence :: int
  a_id :: uuid
  a_actor_id :: "uuid option"
  a_actor_label :: string
  a_action :: string
  a_target_id :: "uuid option"
  a_outcome :: string
  a_metadata :: json
  a_previous_hash :: "bytes option"
  a_entry_hash :: bytes
  a_created_at :: instant

record db =
  db_identities :: "identity_row list"
  db_certificates :: "certificate_row list"
  db_keys :: "enrollment_key_row list"
  db_clients :: "client_row list"
  db_jobs :: "job_row list"
  db_events :: "job_event_row list"
  db_audit :: "audit_row list"
  db_audit_next :: int

definition empty_db :: db where
  "empty_db = \<lparr> db_identities = [], db_certificates = [], db_keys = [], db_clients = [],
     db_jobs = [], db_events = [], db_audit = [], db_audit_next = 1 \<rparr>"

section \<open>Statements\<close>

text \<open>\<^verbatim>\<open>UPDATE ... WHERE\<close> and the number of rows it affects.\<close>

definition update_where :: "('r \<Rightarrow> bool) \<Rightarrow> ('r \<Rightarrow> 'r) \<Rightarrow> 'r list \<Rightarrow> 'r list" where
  "update_where P f rows = map (\<lambda>r. if P r then f r else r) rows"

definition rows_affected :: "('r \<Rightarrow> bool) \<Rightarrow> 'r list \<Rightarrow> nat" where
  "rows_affected P rows = length (filter P rows)"

text \<open>\<^verbatim>\<open>DELETE FROM identities\<close> with the ON DELETE actions of the tables that refer to it.\<close>

definition set_null :: "(uuid \<Rightarrow> bool) \<Rightarrow> uuid option \<Rightarrow> uuid option" where
  "set_null deleted i = (case i of None \<Rightarrow> None | Some j \<Rightarrow> if deleted j then None else Some j)"

definition delete_identities :: "(identity_row \<Rightarrow> bool) \<Rightarrow> db \<Rightarrow> db" where
  "delete_identities P d =
     (let gone = set (map i_id (filter P (db_identities d))) in
      d \<lparr> db_identities := filter (\<lambda>i. \<not> P i) (db_identities d),
          db_certificates := filter (\<lambda>c. c_identity_id c \<notin> gone) (db_certificates d),
          db_clients := filter (\<lambda>c. cl_identity_id c \<notin> gone) (db_clients d),
          db_keys := map (\<lambda>k. k \<lparr> k_consumed_by := set_null (\<lambda>i. i \<in> gone) (k_consumed_by k),
                                k_revoked_by := set_null (\<lambda>i. i \<in> gone) (k_revoked_by k) \<rparr>) (db_keys d),
          db_audit := map (\<lambda>a. a \<lparr> a_actor_id := set_null (\<lambda>i. i \<in> gone) (a_actor_id a),
                                 a_target_id := set_null (\<lambda>i. i \<in> gone) (a_target_id a) \<rparr>) (db_audit d) \<rparr>)"

section \<open>Constraints\<close>

definition is_terminal_job_state :: "job_state \<Rightarrow> bool" where
  "is_terminal_job_state s \<longleftrightarrow> s \<in> {Succeeded, Failed, Canceled, TimedOut}"

definition identity_check :: "identity_row \<Rightarrow> bool" where
  "identity_check i \<longleftrightarrow> i_role i \<in> {RoleClient, RoleAdmin} \<and>
     (i_activated_at i = None) = (i_activation_expires_at i \<noteq> None)"

definition certificate_check :: "certificate_row \<Rightarrow> bool" where
  "certificate_check c \<longleftrightarrow> (c_state c = CertPending) = (c_activation_expires_at c \<noteq> None)"

definition key_check :: "enrollment_key_row \<Rightarrow> bool" where
  "key_check k \<longleftrightarrow> k_role k \<in> {RoleClient, RoleAdmin} \<and> \<not> (k_consumed_at k \<noteq> None \<and> k_revoked_at k \<noteq> None)"

definition job_check :: "job_row \<Rightarrow> bool" where
  "job_check j \<longleftrightarrow> jb_state j \<noteq> StateUnspecified \<and>
     (jb_state j = Dispatched) = (jb_delivery_id j \<noteq> None \<and> jb_delivery_lease j \<noteq> None) \<and>
     (jb_state j = Acknowledged) = (jb_execution_start j \<noteq> None)"

definition event_check :: "job_event_row \<Rightarrow> bool" where
  "event_check e \<longleftrightarrow> 0 \<le> ev_sequence e \<and> ev_state e \<notin> {StateUnspecified, Queued} \<and>
     length (ev_output e) \<le> 65536 \<and> ev_terminal e = is_terminal_job_state (ev_state e)"

definition db_constraints :: "db \<Rightarrow> bool" where
  "db_constraints d \<longleftrightarrow>
     list_all identity_check (db_identities d) \<and> distinct (map i_id (db_identities d)) \<and>
     list_all certificate_check (db_certificates d) \<and> distinct (map c_fingerprint (db_certificates d)) \<and>
     list_all key_check (db_keys d) \<and> distinct (map k_id (db_keys d)) \<and>
     list_all job_check (db_jobs d) \<and> distinct (map jb_id (db_jobs d)) \<and>
     distinct (map (\<lambda>j. (jb_actor_id j, jb_request_id j)) (db_jobs d)) \<and>
     list_all event_check (db_events d) \<and> distinct (map (\<lambda>e. (ev_job_id e, ev_sequence e)) (db_events d)) \<and>
     distinct (map a_id (db_audit d))"

section \<open>Lemmas on statements\<close>

lemma update_where_simps [simp]:
  "update_where P f [] = []"
  "update_where P f (r # rs) = (if P r then f r else r) # update_where P f rs"
  by (simp_all add: update_where_def)

lemma set_update_where: "set (update_where P f rows) = (\<lambda>r. if P r then f r else r) ` set rows"
  by (simp add: update_where_def)

lemma map_update_where:
  "(\<And>r. g (f r) = g r) \<Longrightarrow> map g (update_where P f rows) = map g rows"
  by (simp add: update_where_def)

lemma list_all_update_where:
  "list_all Q rows \<Longrightarrow> (\<And>r. Q r \<Longrightarrow> P r \<Longrightarrow> Q (f r)) \<Longrightarrow> list_all Q (update_where P f rows)"
  by (induction rows) auto

lemma find_update_where:
  assumes "\<And>r. key (f r) = key r"
  shows "find (\<lambda>r. key r = k) (update_where P f rows) =
    map_option (\<lambda>r. if P r then f r else r) (find (\<lambda>r. key r = k) rows)"
  using assms by (induction rows) auto

lemma rows_affected_key:
  assumes "distinct (map key rows)"
  shows "rows_affected (\<lambda>r. key r = k \<and> P r) rows =
    (case find (\<lambda>r. key r = k) rows of None \<Rightarrow> 0 | Some r \<Rightarrow> if P r then 1 else 0)"
  using assms
proof (induction rows)
  case (Cons r rows)
  show ?case
  proof (cases "key r = k")
    case True
    with Cons.prems have "filter (\<lambda>r. key r = k \<and> P r) rows = []"
      by (auto simp: filter_empty_conv) (metis imageI)
    with True show ?thesis by (simp add: rows_affected_def)
  next
    case False
    with Cons show ?thesis by (simp add: rows_affected_def)
  qed
qed (simp add: rows_affected_def)

lemma find_key_iff:
  assumes "distinct (map key rows)"
  shows "find (\<lambda>r. key r = k) rows = Some r \<longleftrightarrow> r \<in> set rows \<and> key r = k"
proof
  show "find (\<lambda>r. key r = k) rows = Some r \<Longrightarrow> r \<in> set rows \<and> key r = k"
    by (auto simp: find_Some_iff)
next
  assume r: "r \<in> set rows \<and> key r = k"
  then have "find (\<lambda>r. key r = k) rows \<noteq> None" by (auto simp: find_None_iff)
  then obtain r' where r': "find (\<lambda>r. key r = k) rows = Some r'" by blast
  then have "r' \<in> set rows" "key r' = k" by (auto simp: find_Some_iff)
  then have "r' = r" using r assms by (auto simp: distinct_map inj_on_def)
  with r' show "find (\<lambda>r. key r = k) rows = Some r" by simp
qed

lemma empty_db_constraints: "db_constraints empty_db"
  by (simp add: db_constraints_def empty_db_def)

end
