(* ===== verification/Audit_Chain.thy ===== *)
theory Audit_Chain
  imports Server_Db Journal
begin

text \<open>
  The audit hash chain: \<^verbatim>\<open>append_audit\<close> of \<^verbatim>\<open>centrald-server/src/services.rs\<close>, the export and its
  verification in \<^verbatim>\<open>audit_export.rs\<close>, and the local journal of \<^verbatim>\<open>local_audit.rs\<close> with its
  reconciliation into the database. \<open>hash_chain\<close> is the contract of an appender, interpreted on the
  appender of the RPC handlers and on the one of the reconciliation. SHA-256, hexadecimal and JSON
  are a parameter, an \<open>audit_env\<close> record.
\<close>

section \<open>Canonical records\<close>

record audit_env =
  au_to_vec :: "json \<Rightarrow> bytes"
  au_from_slice :: "bytes \<Rightarrow> json option"
  au_sha :: "bytes \<Rightarrow> bytes"
  au_hex :: "bytes \<Rightarrow> string"
  au_unhex :: "string \<Rightarrow> bytes option"
  au_uuid :: "uuid \<Rightarrow> json"
  au_time :: "instant \<Rightarrow> json"

definition opt_json :: "('a \<Rightarrow> json) \<Rightarrow> 'a option \<Rightarrow> json" where
  "opt_json f x = (case x of None \<Rightarrow> JNull | Some y \<Rightarrow> f y)"

text \<open>Truncation to microseconds: seconds and whole microseconds of the instant.\<close>

definition normalized_audit_timestamp :: "instant \<Rightarrow> instant" where
  "normalized_audit_timestamp v =
     (v div nanos_per_second) * nanos_per_second + ((v mod nanos_per_second) div 1000) * 1000"

definition canonical_json ::
  "audit_env \<Rightarrow> uuid \<Rightarrow> uuid option \<Rightarrow> string \<Rightarrow> string \<Rightarrow> uuid option \<Rightarrow> string \<Rightarrow> json \<Rightarrow>
     bytes option \<Rightarrow> instant \<Rightarrow> (string \<times> json) list" where
  "canonical_json A i actor_id actor_label action target_id outcome metadata previous_hash created_at =
     [(''id'', au_uuid A i), (''actorId'', opt_json (au_uuid A) actor_id),
      (''actorLabel'', JStr actor_label), (''action'', JStr action),
      (''targetId'', opt_json (au_uuid A) target_id), (''outcome'', JStr outcome),
      (''metadata'', metadata), (''previousHash'', opt_json (\<lambda>h. JStr (au_hex A h)) previous_hash),
      (''createdAt'', au_time A created_at)]"

definition canonical_record :: "audit_env \<Rightarrow> audit_row \<Rightarrow> json" where
  "canonical_record A row =
     JObj (canonical_json A (a_id row) (a_actor_id row) (a_actor_label row) (a_action row)
       (a_target_id row) (a_outcome row) (a_metadata row) (a_previous_hash row)
       (normalized_audit_timestamp (a_created_at row)))"

section \<open>Appending\<close>

text \<open>\<^verbatim>\<open>SELECT entry_hash FROM audit_entries ORDER BY sequence DESC LIMIT 1\<close>.\<close>

definition audit_tail :: "db \<Rightarrow> bytes option" where
  "audit_tail d =
     (case rev (sort_key a_sequence (db_audit d)) of [] \<Rightarrow> None | r # _ \<Rightarrow> Some (a_entry_hash r))"

definition fk_identity :: "db \<Rightarrow> uuid option \<Rightarrow> bool" where
  "fk_identity d i = (case i of None \<Rightarrow> True | Some j \<Rightarrow> j \<in> set (map i_id (db_identities d)))"

definition insert_audit :: "db \<Rightarrow> audit_row \<Rightarrow> status + db" where
  "insert_audit d r =
     (if a_id r \<in> set (map a_id (db_audit d)) \<or> \<not> fk_identity d (a_actor_id r) \<or>
         \<not> fk_identity d (a_target_id r)
      then Inl internal_status
      else Inr (d \<lparr> db_audit := db_audit d @ [r \<lparr> a_sequence := db_audit_next d \<rparr>],
                    db_audit_next := db_audit_next d + 1 \<rparr>))"

definition append_audit ::
  "audit_env \<Rightarrow> db \<Rightarrow> uuid \<Rightarrow> instant \<Rightarrow> uuid option \<Rightarrow> string \<Rightarrow> string \<Rightarrow> uuid option \<Rightarrow> string \<Rightarrow>
     json \<Rightarrow> status + db" where
  "append_audit A d i now actor_id actor_label action target_id outcome metadata =
     (let created_at = normalized_audit_timestamp now;
          previous_hash = audit_tail d;
          canonical = au_to_vec A (JObj (canonical_json A i actor_id actor_label action target_id
            outcome metadata previous_hash created_at))
      in insert_audit d \<lparr> a_sequence = 0, a_id = i, a_actor_id = actor_id,
           a_actor_label = actor_label, a_action = action, a_target_id = target_id,
           a_outcome = outcome, a_metadata = metadata, a_previous_hash = previous_hash,
           a_entry_hash = au_sha A canonical, a_created_at = created_at \<rparr>)"

section \<open>Verification and export\<close>

datatype export_error = UnsafeExportDirectory | TooManyEntries | BadExportName | EmptyExportFile
  | BadTailRecord | NotAfterPrevious | GapOrTampering | BadTailHex | BrokenAt int | HashMismatch int
  | ExportExists

fun verify_rows :: "audit_env \<Rightarrow> bytes option \<Rightarrow> audit_row list \<Rightarrow> export_error + unit" where
  "verify_rows A expected_previous [] = Inr ()"
| "verify_rows A expected_previous (row # rows) =
     (if a_previous_hash row \<noteq> expected_previous then Inl (BrokenAt (a_sequence row))
      else if au_sha A (au_to_vec A (canonical_record A row)) \<noteq> a_entry_hash row
        then Inl (HashMismatch (a_sequence row))
      else verify_rows A (Some (a_entry_hash row)) rows)"

definition verify_chain ::
  "audit_env \<Rightarrow> audit_row list \<Rightarrow> int \<Rightarrow> string option \<Rightarrow> export_error + unit" where
  "verify_chain A rows from_sequence previous_tail =
     (case rows of
        [] \<Rightarrow> Inl EmptyExportFile
      | first # _ \<Rightarrow>
          if a_sequence first \<le> from_sequence then Inl NotAfterPrevious
          else (case previous_tail of
              None \<Rightarrow> verify_rows A None rows
            | Some tail \<Rightarrow>
                if map_option (au_hex A) (a_previous_hash first) \<noteq> Some tail then Inl GapOrTampering
                else (case au_unhex A tail of
                    None \<Rightarrow> Inl BadTailHex
                  | Some h \<Rightarrow> verify_rows A (Some h) rows)))"

text \<open>An export file: the range of sequences in its name and its bytes.\<close>

record export_file =
  ef_from :: int
  ef_to :: int
  ef_bytes :: bytes

definition MAX_EXPORT_DIRECTORY_ENTRIES :: nat where
  "MAX_EXPORT_DIRECTORY_ENTRIES = 4096"

definition MAX_BATCH_ENTRIES :: nat where
  "MAX_BATCH_ENTRIES = 50000"

definition export_range_ok :: "export_file \<Rightarrow> bool" where
  "export_range_ok f \<longleftrightarrow> \<not> (ef_from f > ef_to f \<or> ef_from f \<le> 0 \<or> ef_to f \<le> 0)"

fun newest_export :: "export_file option \<Rightarrow> export_file list \<Rightarrow> export_file option" where
  "newest_export best [] = best"
| "newest_export best (f # fs) =
     newest_export (case best of None \<Rightarrow> Some f
                    | Some b \<Rightarrow> if ef_to f > ef_to b then Some f else Some b) fs"

definition existing_export_tail ::
  "audit_env \<Rightarrow> export_file list \<Rightarrow> export_error + int \<times> string option" where
  "existing_export_tail A files =
     (if length files > MAX_EXPORT_DIRECTORY_ENTRIES then Inl TooManyEntries
      else if \<not> list_all export_range_ok files then Inl BadExportName
      else (case newest_export None files of
          None \<Rightarrow> Inr (0, None)
        | Some f \<Rightarrow>
            (case find (\<lambda>l. \<not> blank_line l) (rev (split_on newline (ef_bytes f))) of
               None \<Rightarrow> Inl EmptyExportFile
             | Some l \<Rightarrow>
                 (case Option.bind (Option.bind (au_from_slice A l) (json_get ''entryHash'')) json_as_str of
                    None \<Rightarrow> Inl BadTailRecord
                  | Some tail_hash \<Rightarrow> Inr (ef_to f, Some tail_hash)))))"

definition fetch_window :: "db \<Rightarrow> int \<Rightarrow> nat \<Rightarrow> audit_row list" where
  "fetch_window d from_sequence limit =
     take limit (sort_key a_sequence (filter (\<lambda>r. a_sequence r > from_sequence) (db_audit d)))"

definition export_line :: "audit_env \<Rightarrow> audit_row \<Rightarrow> bytes" where
  "export_line A row = au_to_vec A
     (case canonical_record A row of
        JObj kvs \<Rightarrow> JObj (kvs @ [(''entryHash'', JStr (au_hex A (a_entry_hash row)))])
      | j \<Rightarrow> j)"

definition export_audit_chain ::
  "audit_env \<Rightarrow> bool \<Rightarrow> db \<Rightarrow> export_file list \<Rightarrow> nat \<Rightarrow>
     (export_error + int \<times> int \<times> nat \<times> string) \<times> export_file list" where
  "export_audit_chain A directory_safe d files max_entries =
     (let max_entries = max 1 (min max_entries MAX_BATCH_ENTRIES) in
      if \<not> directory_safe then (Inl UnsafeExportDirectory, files)
      else (case existing_export_tail A files of
          Inl e \<Rightarrow> (Inl e, files)
        | Inr (from_sequence, tail_hash) \<Rightarrow>
            let rows = fetch_window d from_sequence max_entries in
            if rows = [] then
              (Inr (from_sequence, from_sequence, 0,
                    case tail_hash of None \<Rightarrow> [] | Some h \<Rightarrow> h), files)
            else (case verify_chain A rows from_sequence tail_hash of
                Inl e \<Rightarrow> (Inl e, files)
              | Inr _ \<Rightarrow>
                  let f = \<lparr> ef_from = a_sequence (hd rows), ef_to = a_sequence (last rows),
                            ef_bytes = unlines (map (export_line A) rows) \<rparr> in
                  if (ef_from f, ef_to f) \<in> set (map (\<lambda>g. (ef_from g, ef_to g)) files)
                    then (Inl ExportExists, files)
                  else (Inr (from_sequence, ef_to f, length rows, au_hex A (a_entry_hash (last rows))),
                        files @ [f]))))"

section \<open>The local journal\<close>

record local_audit_record =
  la_id :: uuid
  la_created_at :: instant
  la_action :: string
  la_outcome :: string
  la_metadata :: json

record local_audit_envelope =
  le_audit_version :: "32 word"
  le_audit_record :: local_audit_record
  le_audit_checksum :: string

record local_codec =
  la_ser :: "local_audit_envelope \<Rightarrow> bytes"
  la_par :: "bytes \<Rightarrow> local_audit_envelope option"
  la_sum :: "local_audit_record \<Rightarrow> string"

datatype local_error = UnsafeJournal | LocalParse nat | LocalVersion nat | LocalChecksum nat
  | LocalDatabase

text \<open>
  The journal file (its bytes, whether it is a regular file, whether it is single-linked and closed
  to group and world), and the torn tails that were set aside.
\<close>

record local_journal =
  lj_file :: "bytes option"
  lj_regular :: bool
  lj_private :: bool
  lj_quarantine :: "bytes list"

definition recover_torn_local :: "local_journal \<Rightarrow> bytes \<Rightarrow> bytes \<times> local_journal" where
  "recover_torn_local J raw =
     (case split_torn raw of
        (complete, None) \<Rightarrow> (complete, J)
      | (complete, Some tail) \<Rightarrow>
          (complete, J \<lparr> lj_file := Some complete, lj_quarantine := lj_quarantine J @ [tail] \<rparr>))"

definition local_envelope :: "local_codec \<Rightarrow> local_audit_record \<Rightarrow> local_audit_envelope" where
  "local_envelope L r =
     \<lparr> le_audit_version = 1, le_audit_record = r, le_audit_checksum = la_sum L r \<rparr>"

definition local_line :: "local_codec \<Rightarrow> local_audit_record \<Rightarrow> bytes" where
  "local_line L r = la_ser L (local_envelope L r)"

definition local_record ::
  "local_codec \<Rightarrow> local_journal \<Rightarrow> local_audit_record \<Rightarrow> (local_error + unit) \<times> local_journal" where
  "local_record L J r =
     (case lj_file J of
        None \<Rightarrow> (Inr (), J \<lparr> lj_file := Some (local_line L r @ [newline]), lj_regular := True, lj_private := True \<rparr>)
      | Some raw \<Rightarrow>
          if \<not> lj_regular J then (Inl UnsafeJournal, J)
          else let (complete, J) = recover_torn_local J raw in
            if \<not> lj_private J then (Inl UnsafeJournal, J)
            else (Inr (), J \<lparr> lj_file := Some (complete @ local_line L r @ [newline]) \<rparr>))"

definition decode_local :: "local_codec \<Rightarrow> nat \<Rightarrow> bytes \<Rightarrow> local_error + local_audit_record" where
  "decode_local L index line =
     (case la_par L line of
        None \<Rightarrow> Inl (LocalParse (index + 1))
      | Some envelope \<Rightarrow>
          if le_audit_version envelope \<noteq> 1 then Inl (LocalVersion (index + 1))
          else if le_audit_checksum envelope \<noteq> la_sum L (le_audit_record envelope)
            then Inl (LocalChecksum (index + 1))
          else Inr (le_audit_record envelope))"

definition append_record :: "audit_env \<Rightarrow> db \<Rightarrow> local_audit_record \<Rightarrow> status + db" where
  "append_record A d r =
     (let previous_hash = audit_tail d;
          created_at = normalized_audit_timestamp (la_created_at r);
          canonical = au_to_vec A (JObj (canonical_json A (la_id r) None ''server-local-root''
            (la_action r) None (la_outcome r) (la_metadata r) previous_hash created_at))
      in insert_audit d \<lparr> a_sequence = 0, a_id = la_id r, a_actor_id = None,
           a_actor_label = ''server-local-root'', a_action = la_action r, a_target_id = None,
           a_outcome = la_outcome r, a_metadata = la_metadata r, a_previous_hash = previous_hash,
           a_entry_hash = au_sha A canonical, a_created_at = created_at \<rparr>)"

text \<open>The loop of \<^verbatim>\<open>reconcile\<close>: records whose id is already in the table are skipped.\<close>

fun insert_missing :: "audit_env \<Rightarrow> db \<Rightarrow> local_audit_record list \<Rightarrow> nat \<Rightarrow> status + nat \<times> db" where
  "insert_missing A d [] inserted = Inr (inserted, d)"
| "insert_missing A d (r # rs) inserted =
     (if la_id r \<in> set (map a_id (db_audit d)) then insert_missing A d rs inserted
      else (case append_record A d r of
          Inl e \<Rightarrow> Inl e
        | Inr d \<Rightarrow> insert_missing A d rs (inserted + 1)))"

text \<open>\<open>crash_before_delete\<close> stops after the commit, before the journal is removed.\<close>

definition reconcile ::
  "audit_env \<Rightarrow> local_codec \<Rightarrow> bool \<Rightarrow> db \<Rightarrow> local_journal \<Rightarrow>
     (local_error + nat) \<times> db \<times> local_journal" where
  "reconcile A L crash_before_delete d J =
     (case lj_file J of
        None \<Rightarrow> (Inr 0, d, J)
      | Some raw \<Rightarrow>
          if \<not> lj_regular J then (Inl UnsafeJournal, d, J)
          else let (raw, J) = recover_torn_local J raw in
            (case read_journal (decode_local L) 0 (split_on newline raw) of
               Inl e \<Rightarrow> (Inl e, d, J)
             | Inr [] \<Rightarrow> (Inr 0, d, J \<lparr> lj_file := None \<rparr>)
             | Inr records \<Rightarrow>
                 (case insert_missing A d records 0 of
                    Inl e \<Rightarrow> (Inl LocalDatabase, d, J)
                  | Inr (inserted, d) \<Rightarrow>
                      if crash_before_delete then (Inr inserted, d, J)
                      else (Inr inserted, d, J \<lparr> lj_file := None \<rparr>))))"

section \<open>Well-formed chains\<close>

fun chain_from :: "audit_env \<Rightarrow> bytes option \<Rightarrow> audit_row list \<Rightarrow> bool" where
  "chain_from A previous [] = True"
| "chain_from A previous (r # rs) =
     (a_previous_hash r = previous \<and>
      a_entry_hash r = au_sha A (au_to_vec A (canonical_record A r)) \<and>
      chain_from A (Some (a_entry_hash r)) rs)"

definition audit_wf :: "audit_env \<Rightarrow> db \<Rightarrow> bool" where
  "audit_wf A d \<longleftrightarrow> sorted_wrt (<) (map a_sequence (db_audit d)) \<and>
     (\<forall>r \<in> set (db_audit d). 0 < a_sequence r \<and> a_sequence r < db_audit_next d) \<and>
     0 < db_audit_next d \<and> chain_from A None (db_audit d)"

definition last_hash :: "bytes option \<Rightarrow> audit_row list \<Rightarrow> bytes option" where
  "last_hash previous rs = (if rs = [] then previous else Some (a_entry_hash (last rs)))"

lemma chain_from_append:
  "chain_from A p (rs @ rs') \<longleftrightarrow> chain_from A p rs \<and> chain_from A (last_hash p rs) rs'"
  by (induction rs arbitrary: p) (auto simp: last_hash_def)

lemma verify_rows_iff: "verify_rows A p rs = Inr () \<longleftrightarrow> chain_from A p rs"
  by (induction rs arbitrary: p) auto

lemma audit_sorted: "audit_wf A d \<Longrightarrow> sort_key a_sequence (db_audit d) = db_audit d"
  by (intro sort_key_id_if_sorted strict_sorted_imp_sorted) (simp add: audit_wf_def)

lemma audit_tail_last: "audit_wf A d \<Longrightarrow> audit_tail d = last_hash None (db_audit d)"
  using audit_sorted [of A d]
  by (cases "db_audit d" rule: rev_cases) (simp_all add: audit_tail_def last_hash_def)

lemma normalized_idem: "normalized_audit_timestamp (normalized_audit_timestamp v) = normalized_audit_timestamp v"
proof -
  define m where "m = v mod nanos_per_second div 1000"
  have "0 \<le> m" "m * 1000 < nanos_per_second"
    by (simp_all add: m_def nanos_per_second_def)
  then have "(v div nanos_per_second * nanos_per_second + m * 1000) div nanos_per_second = v div nanos_per_second"
    and "(v div nanos_per_second * nanos_per_second + m * 1000) mod nanos_per_second = m * 1000"
    by (simp_all add: nanos_per_second_def)
  then show ?thesis by (simp add: normalized_audit_timestamp_def flip: m_def)
qed

section \<open>The contract of an appender\<close>

locale hash_chain =
  fixes env :: audit_env and add :: "db \<Rightarrow> 'x \<Rightarrow> status + db"
  assumes add_row: "add d x = Inr d' \<Longrightarrow>
    \<exists>r. db_audit d' = db_audit d @ [r] \<and> a_sequence r = db_audit_next d \<and>
      db_audit_next d' = db_audit_next d + 1 \<and> a_previous_hash r = audit_tail d \<and>
      a_entry_hash r = au_sha env (au_to_vec env (canonical_record env r)) \<and>
      a_id r \<notin> set (map a_id (db_audit d))"
begin

lemma add_wf:
  assumes "audit_wf env d" and "add d x = Inr d'"
  shows "audit_wf env d'"
proof -
  obtain r where r: "db_audit d' = db_audit d @ [r]" "a_sequence r = db_audit_next d"
    "db_audit_next d' = db_audit_next d + 1" "a_previous_hash r = audit_tail d"
    "a_entry_hash r = au_sha env (au_to_vec env (canonical_record env r))"
    using add_row [OF assms(2)] by blast
  have "chain_from env None (db_audit d')"
    using assms(1) r audit_tail_last [OF assms(1)] by (simp add: chain_from_append audit_wf_def)
  then show ?thesis using assms(1) r by (auto simp: audit_wf_def sorted_wrt_append)
qed

lemma add_extends:
  assumes "add d x = Inr d'"
  shows "\<exists>r. db_audit d' = db_audit d @ [r]"
  using add_row [OF assms] by blast

lemma add_distinct:
  assumes "distinct (map a_id (db_audit d))" and "add d x = Inr d'"
  shows "distinct (map a_id (db_audit d'))"
  using add_row [OF assms(2)] assms(1) by auto

end

lemma insert_audit_iff:
  "insert_audit d r = Inr d' \<longleftrightarrow> a_id r \<notin> set (map a_id (db_audit d)) \<and>
     fk_identity d (a_actor_id r) \<and> fk_identity d (a_target_id r) \<and>
     d' = d \<lparr> db_audit := db_audit d @ [r \<lparr> a_sequence := db_audit_next d \<rparr>],
              db_audit_next := db_audit_next d + 1 \<rparr>"
  by (auto simp: insert_audit_def)

lemma canonical_record_seq [simp]: "canonical_record A (r \<lparr> a_sequence := s \<rparr>) = canonical_record A r"
  by (simp add: canonical_record_def)

interpretation rpc: hash_chain A
  "\<lambda>d (i, now, actor_id, actor_label, action, target_id, outcome, metadata).
     append_audit A d i now actor_id actor_label action target_id outcome metadata" for A
  by unfold_locales
     (auto simp: append_audit_def Let_def canonical_record_def normalized_idem insert_audit_iff)

interpretation loc: hash_chain A "append_record A" for A
  by unfold_locales
     (auto simp: append_record_def Let_def canonical_record_def normalized_idem insert_audit_iff)

text \<open>The RPC appender changes nothing but the audit table.\<close>

lemma append_audit_wf:
  "audit_wf A d \<Longrightarrow> append_audit A d i now ac al an t oc m = Inr d' \<Longrightarrow> audit_wf A d'"
  using rpc.add_wf [of A d "(i, now, ac, al, an, t, oc, m)"] by simp

lemma append_audit_frame:
  assumes "append_audit A d i now ac al an t oc m = Inr d'"
  shows "db_identities d' = db_identities d" "db_certificates d' = db_certificates d"
    "db_keys d' = db_keys d" "db_clients d' = db_clients d" "db_jobs d' = db_jobs d"
    "db_events d' = db_events d"
  using assms by (auto simp: append_audit_def insert_audit_def Let_def split: if_splits)

lemma append_audit_grows:
  assumes "append_audit A d i now ac al an t oc m = Inr d'"
  shows "\<exists>r. db_audit d' = db_audit d @ [r]"
  using rpc.add_extends [of A d "(i, now, ac, al, an, t, oc, m)" d'] assms by simp

lemma append_audit_ids:
  assumes "distinct (map a_id (db_audit d))" and "append_audit A d i now ac al an t oc m = Inr d'"
  shows "distinct (map a_id (db_audit d'))"
  using rpc.add_distinct [of d A "(i, now, ac, al, an, t, oc, m)" d'] assms by simp

section \<open>Export\<close>

text \<open>What the export relies on in the crates.\<close>

definition audit_env_ok :: "audit_env \<Rightarrow> bool" where
  "audit_env_ok A \<longleftrightarrow> (\<forall>h. au_unhex A (au_hex A h) = Some h) \<and>
     (\<forall>r. newline \<notin> set (export_line A r) \<and> \<not> blank_line (export_line A r) \<and>
        Option.bind (Option.bind (au_from_slice A (export_line A r)) (json_get ''entryHash'')) json_as_str =
          Some (au_hex A (a_entry_hash r)))"

text \<open>The export directory ends in the row \<open>r\<close> of the table.\<close>

definition exports_end :: "audit_env \<Rightarrow> export_file list \<Rightarrow> audit_row option \<Rightarrow> bool" where
  "exports_end A files tail \<longleftrightarrow>
     (case tail of
        None \<Rightarrow> files = []
      | Some r \<Rightarrow> \<exists>fs ls f. files = fs @ [f] \<and> list_all export_range_ok files \<and>
          (\<forall>g \<in> set fs. ef_to g < ef_to f) \<and> ef_to f = a_sequence r \<and>
          ef_bytes f = unlines (map (export_line A) (ls @ [r])))"

lemma newest_export_last:
  assumes "\<forall>g \<in> set fs. ef_to g < ef_to f"
  shows "newest_export None (fs @ [f]) = Some f"
proof -
  have "newest_export b (fs @ [f]) = Some f"
    if "\<forall>g \<in> set fs. ef_to g < ef_to f" "\<forall>g. b = Some g \<longrightarrow> ef_to g < ef_to f" for b
    using that by (induction fs arbitrary: b) (auto split: option.split)
  then show ?thesis using assms by simp
qed

lemma last_line:
  assumes "audit_env_ok A"
  shows "find (\<lambda>l. \<not> blank_line l) (rev (split_on newline (unlines (map (export_line A) (ls @ [r]))))) =
    Some (export_line A r)"
proof -
  have "split_on newline (unlines (map (export_line A) (ls @ [r])) @ []) = map (export_line A) (ls @ [r]) @ [[]]"
    by (subst split_on_unlines) (use assms in \<open>auto simp: audit_env_ok_def\<close>)
  then show ?thesis using assms by (simp add: audit_env_ok_def)
qed

lemma existing_tail:
  assumes "audit_env_ok A" and "exports_end A files tail" and "length files \<le> MAX_EXPORT_DIRECTORY_ENTRIES"
  shows "existing_export_tail A files =
    Inr (case tail of None \<Rightarrow> (0, None) | Some r \<Rightarrow> (a_sequence r, Some (au_hex A (a_entry_hash r))))"
proof (cases tail)
  case None
  then show ?thesis using assms by (simp add: existing_export_tail_def exports_end_def)
next
  case (Some r)
  then obtain fs ls f where f: "files = fs @ [f]" "list_all export_range_ok files"
    "\<forall>g \<in> set fs. ef_to g < ef_to f" "ef_to f = a_sequence r"
    "ef_bytes f = unlines (map (export_line A) (ls @ [r]))"
    using assms(2) by (auto simp: exports_end_def)
  then show ?thesis using assms(1,3) Some
    by (simp add: existing_export_tail_def newest_export_last last_line [OF assms(1), simplified] audit_env_ok_def)
qed

lemma window_after:
  assumes "audit_wf A d" and "db_audit d = before @ after" and "before = [] \<or> tail = a_sequence (last before)"
    and "before = [] \<Longrightarrow> tail = 0"
  shows "fetch_window d tail n = take n after"
proof -
  have sorted: "sorted_wrt (<) (map a_sequence before @ map a_sequence after)"
    and pos: "\<forall>r \<in> set after. 0 < a_sequence r" using assms(1,2) by (auto simp: audit_wf_def)
  have "filter (\<lambda>r. a_sequence r > tail) before = []"
  proof (cases "before = []")
    case False
    then obtain bs b where b: "before = bs @ [b]" by (metis rev_exhaust)
    with sorted assms(3) show ?thesis by (fastforce simp: sorted_wrt_append filter_empty_conv)
  qed simp
  moreover have "filter (\<lambda>r. a_sequence r > tail) after = after"
  proof (cases "before = []")
    case True
    then show ?thesis using pos assms(4) by simp
  next
    case False
    then obtain bs b where b: "before = bs @ [b]" by (metis rev_exhaust)
    with sorted assms(3) show ?thesis by (auto simp: sorted_wrt_append)
  qed
  moreover have "sort_key a_sequence after = after"
    using sorted by (intro sort_key_id_if_sorted strict_sorted_imp_sorted) (simp add: sorted_wrt_append)
  ultimately show ?thesis by (simp add: fetch_window_def assms(2))
qed

section \<open>Reconciliation\<close>

text \<open>What the reconciliation relies on in the JSON crate, for the journaled records.\<close>

definition local_codec_ok :: "local_codec \<Rightarrow> local_audit_record list \<Rightarrow> bool" where
  "local_codec_ok L rs \<longleftrightarrow>
     (\<forall>r \<in> set rs. la_par L (local_line L r) = Some (local_envelope L r) \<and>
        newline \<notin> set (local_line L r) \<and> \<not> blank_line (local_line L r))"

lemma read_local:
  assumes "local_codec_ok L rs"
  shows "read_journal (decode_local L) n (split_on newline (unlines (map (local_line L) rs))) = Inr rs"
  by (rule read_journal_unlines)
     (use assms in \<open>simp_all add: local_codec_ok_def decode_local_def local_envelope_def\<close>)

lemma recover_local:
  assumes "newline \<notin> set t"
  shows "fst (recover_torn_local J (unlines ls @ t)) = unlines ls"
    and "lj_regular (snd (recover_torn_local J (unlines ls @ t))) = lj_regular J"
    and "lj_file J = Some (unlines ls @ t) \<Longrightarrow> lj_file (snd (recover_torn_local J (unlines ls @ t))) = Some (unlines ls)"
  using assms split_torn_unlines [OF assms, of ls] split_torn_complete [of ls]
  by (cases "t = []"; simp add: recover_torn_local_def)+

lemma append_record_ok:
  assumes "la_id r \<notin> set (map a_id (db_audit d))"
  obtains d' a where "append_record A d r = Inr d'" and "db_audit d' = db_audit d @ [a]" and "a_id a = la_id r"
  using assms by (auto simp: append_record_def Let_def insert_audit_def fk_identity_def)

lemma insert_missing_ok:
  "\<exists>n d'. insert_missing A d rs k = Inr (n, d') \<and> (audit_wf A d \<longrightarrow> audit_wf A d') \<and>
     set (map a_id (db_audit d')) = set (map a_id (db_audit d)) \<union> set (map la_id rs) \<and>
     (\<exists>as. db_audit d' = db_audit d @ as)"
proof (induction rs arbitrary: d k)
  case (Cons r rs)
  show ?case
  proof (cases "la_id r \<in> set (map a_id (db_audit d))")
    case True
    then show ?thesis using Cons.IH [of d k] by auto
  next
    case False
    then obtain d1 a where d1: "append_record A d r = Inr d1" "db_audit d1 = db_audit d @ [a]" "a_id a = la_id r"
      by (rule append_record_ok)
    obtain n d' where "insert_missing A d1 rs (k + 1) = Inr (n, d')" "audit_wf A d1 \<longrightarrow> audit_wf A d'"
      "set (map a_id (db_audit d')) = set (map a_id (db_audit d1)) \<union> set (map la_id rs)"
      "\<exists>as. db_audit d' = db_audit d1 @ as" using Cons.IH [of d1 "k + 1"] by blast
    then show ?thesis using False d1 loc.add_wf [of A d r d1] by auto
  qed
qed auto

lemma insert_missing_none:
  "set (map la_id rs) \<subseteq> set (map a_id (db_audit d)) \<Longrightarrow> insert_missing A d rs k = Inr (k, d)"
  by (induction rs) auto

section \<open>Properties\<close>

text \<open>
  C19. The audit chain is tamper evident: when two tables both pass verification and end in the same
  entry hash, and the digest does not collide on their records, then they have the same records from
  first to last; no entry can be changed, removed, inserted or reordered without changing the tail
  hash that exports carry forward.
\<close>

theorem audit_chain_commits:
  assumes "audit_env_ok A" and "inj_on (\<lambda>j. au_sha A (au_to_vec A j)) (canonical_record A ` (set rows \<union> set rows'))"
    and "verify_rows A None rows = Inr ()" and "verify_rows A None rows' = Inr ()"
    and "last_hash None rows = last_hash None rows'"
  shows "map (canonical_record A) rows = map (canonical_record A) rows'"
proof -
  have "map (canonical_record A) rows = map (canonical_record A) rows'"
    if "chain_from A None rows" "chain_from A None rows'" "last_hash None rows = last_hash None rows'"
      "inj_on (\<lambda>j. au_sha A (au_to_vec A j)) (canonical_record A ` (set rows \<union> set rows'))" for rows rows'
    using that
  proof (induction rows arbitrary: rows' rule: rev_induct)
    case Nil
    then show ?case by (simp add: last_hash_def split: if_splits)
  next
    case (snoc r rows)
    from snoc.prems(3) obtain rs r' where r': "rows' = rs @ [r']"
      by (cases rows' rule: rev_cases) (auto simp: last_hash_def)
    have "au_sha A (au_to_vec A (canonical_record A r)) = au_sha A (au_to_vec A (canonical_record A r'))"
      using snoc.prems(1-3) r' by (simp add: chain_from_append last_hash_def)
    then have "canonical_record A r = canonical_record A r'"
      by (rule inj_onD [OF snoc.prems(4)]) (simp_all add: r')
    moreover from this have "map_option (au_hex A) (a_previous_hash r) = map_option (au_hex A) (a_previous_hash r')"
      by (auto simp: canonical_record_def canonical_json_def opt_json_def split: option.splits)
    then have "a_previous_hash r = a_previous_hash r'"
      using assms(1) by (cases "a_previous_hash r"; cases "a_previous_hash r'")
        (auto simp: audit_env_ok_def dest: arg_cong [of "au_hex A _" _ "au_unhex A"])
    then have "last_hash None rows = last_hash None rs"
      using snoc.prems(1,2) r' by (simp add: chain_from_append)
    ultimately show ?case
      using snoc.IH [of rs] snoc.prems r' by (auto simp: chain_from_append elim: inj_on_subset)
  qed
  then show ?thesis using assms by (simp add: verify_rows_iff)
qed

text \<open>
  Exports make progress and leave no gap: on an untampered table whose first part has been
  exported, the next export succeeds, verifies against the tail of the newest file, writes exactly
  the next rows in order (at most the batch bound), and the directory then ends in the last of them.
\<close>

theorem export_next_window:
  assumes "audit_env_ok A" and "audit_wf A d" and "db_audit d = before @ after" and "after \<noteq> []"
    and "exports_end A files (if before = [] then None else Some (last before))"
    and "length files \<le> MAX_EXPORT_DIRECTORY_ENTRIES"
    and "w = take (max 1 (min m MAX_BATCH_ENTRIES)) after"
    and "f = \<lparr> ef_from = a_sequence (hd w), ef_to = a_sequence (last w), ef_bytes = unlines (map (export_line A) w) \<rparr>"
  shows "snd (export_audit_chain A True d files m) = files @ [f] \<and>
    is_ok (fst (export_audit_chain A True d files m)) \<and> exports_end A (files @ [f]) (Some (last w))"
proof -
  define from_seq where "from_seq = (if before = [] then 0 else a_sequence (last before))"
  define tail_hex where "tail_hex = (if before = [] then None else Some (au_hex A (a_entry_hash (last before))))"
  have w: "w \<noteq> []" "set w \<subseteq> set after" using assms(4,7) by (auto dest: in_set_takeD)
  have sorted: "sorted_wrt (<) (map a_sequence before @ map a_sequence after)"
    and pos: "\<forall>r \<in> set (before @ after). 0 < a_sequence r" using assms(2,3) by (auto simp: audit_wf_def)
  have win: "fetch_window d from_seq (max 1 (min m MAX_BATCH_ENTRIES)) = w"
    using window_after [OF assms(2,3), of from_seq] assms(7) by (simp add: from_seq_def)
  have tail: "existing_export_tail A files = Inr (from_seq, tail_hex)"
    using existing_tail [OF assms(1,5,6)] by (simp add: from_seq_def tail_hex_def split: if_splits)
  have later: "from_seq < a_sequence r" if "r \<in> set w" for r
    using that w(2) sorted pos by (cases "before = []") (auto simp: from_seq_def sorted_wrt_append)
  have "chain_from A (last_hash None before) after"
    using assms(2,3) by (simp add: audit_wf_def chain_from_append)
  then have chain: "chain_from A (last_hash None before) w"
    using assms(7) by (metis append_take_drop_id chain_from_append)
  then have hd: "a_previous_hash (hd w) = last_hash None before" using w by (cases w) auto
  have ver: "verify_chain A w from_seq tail_hex = Inr ()"
    using w(1) later [of "hd w"] chain hd assms(1)
    by (cases w) (auto simp: verify_chain_def last_hash_def verify_rows_iff audit_env_ok_def tail_hex_def split: if_splits)
  have newest: "\<forall>g \<in> set files. ef_to g < ef_to f"
  proof -
    have "\<forall>g \<in> set files. ef_to g \<le> from_seq"
      using assms(5) by (fastforce simp: exports_end_def from_seq_def split: if_splits)
    then show ?thesis using later [of "last w"] w(1) assms(8) by fastforce
  qed
  have range: "export_range_ok f"
  proof -
    have "sorted_wrt (<) (map a_sequence w)"
      using sorted assms(7) by (simp add: sorted_wrt_append sorted_wrt_take take_map flip: take_map)
    then have "a_sequence (hd w) \<le> a_sequence (last w)" using w(1)
      by (cases w) (auto simp: order_le_less)
    moreover have "0 < a_sequence (hd w)" using pos w by (metis UnCI hd_in_set set_append subsetD)
    ultimately show ?thesis using assms(8) by (simp add: export_range_ok_def)
  qed
  have "(ef_from f, ef_to f) \<notin> set (map (\<lambda>g. (ef_from g, ef_to g)) files)" using newest by auto
  then have "export_audit_chain A True d files m =
      (Inr (from_seq, ef_to f, length w, au_hex A (a_entry_hash (last w))), files @ [f])"
    using w(1) ver unfolding export_audit_chain_def Let_def tail by (simp add: win [simplified] assms(8))
  moreover have "list_all export_range_ok files"
    using assms(5) by (auto simp: exports_end_def split: if_splits option.splits)
  moreover have "ef_bytes f = unlines (map (export_line A) (butlast w @ [last w]))" "ef_to f = a_sequence (last w)"
    using w(1) assms(8) by simp_all
  ultimately show ?thesis using newest range by (auto simp: exports_end_def simp del: map_append)
qed

text \<open>
  Reconciling the local journal is idempotent: when the process stops after the database commit
  and before the journal is deleted, running it again inserts nothing, leaves the table as it was and
  removes the journal; every journaled record is in the table exactly then, and the chain still
  verifies. A torn last record does not get in the way.
\<close>

theorem reconcile_idempotent:
  assumes "local_codec_ok L rs" and "audit_wf A d" and "lj_regular J" and "rs \<noteq> []"
    and "lj_file J = Some (unlines (map (local_line L) rs) @ t)" and "newline \<notin> set t"
  shows "\<exists>n d' J'. reconcile A L True d J = (Inr n, d', J') \<and>
    reconcile A L False d' J' = (Inr 0, d', J' \<lparr> lj_file := None \<rparr>) \<and>
    audit_wf A d' \<and> set (map a_id (db_audit d')) = set (map a_id (db_audit d)) \<union> set (map la_id rs) \<and>
    (\<exists>as. db_audit d' = db_audit d @ as)"
proof -
  let ?raw = "unlines (map (local_line L) rs)"
  define J' where "J' = snd (recover_torn_local J (?raw @ t))"
  have rec: "recover_torn_local J (?raw @ t) = (?raw, J')"
    using recover_local(1) [OF assms(6)] by (metis J'_def prod.collapse)
  have J': "lj_file J' = Some ?raw" "lj_regular J'"
    using recover_local(2,3) [OF assms(6)] assms(3,5) by (simp_all add: J'_def)
  have rec': "recover_torn_local J' ?raw = (?raw, J')"
    by (simp add: recover_torn_local_def split_torn_complete)
  obtain n d' where ins: "insert_missing A d rs 0 = Inr (n, d')" "audit_wf A d'"
    "set (map a_id (db_audit d')) = set (map a_id (db_audit d)) \<union> set (map la_id rs)"
    "\<exists>as. db_audit d' = db_audit d @ as" using insert_missing_ok [of A d rs 0] assms(2) by blast
  have step: "reconcile A L cr d J =
      (case insert_missing A d rs 0 of Inl e \<Rightarrow> (Inl LocalDatabase, d, J1)
       | Inr (n, d) \<Rightarrow> if cr then (Inr n, d, J1) else (Inr n, d, J1 \<lparr> lj_file := None \<rparr>))"
    if "lj_file J = Some raw" "lj_regular J" "recover_torn_local J raw = (?raw, J1)" for cr d J raw J1
    using assms(4) read_local [OF assms(1), of 0]
    by (simp add: reconcile_def that split: list.split)
  have "reconcile A L True d J = (Inr n, d', J')"
    using ins(1) by (simp add: step [OF assms(5,3) rec])
  moreover have "reconcile A L False d' J' = (Inr 0, d', J' \<lparr> lj_file := None \<rparr>)"
    using insert_missing_none [of rs d' A 0] ins(3) by (simp add: step [OF J' rec'])
  ultimately show ?thesis using ins by blast
qed

text \<open>
  C39. Deleting an identity breaks the chain: when the database nulls the actor of an audit entry
  because the identity it names is deleted, and the digest tells the two versions of the entry
  apart, the table no longer verifies, although nobody tampered with it.
\<close>

theorem identity_deletion_breaks_chain:
  assumes "audit_wf A d" and "i \<in> set (db_identities d)" and "P i"
    and "r \<in> set (db_audit d)" and "a_actor_id r = Some (i_id i)"
    and "au_uuid A (i_id i) \<noteq> JNull"
    and "inj_on (\<lambda>j. au_sha A (au_to_vec A j))
      (canonical_record A ` (set (db_audit d) \<union> set (db_audit (delete_identities P d))))"
  shows "verify_rows A None (db_audit (delete_identities P d)) \<noteq> Inr ()"
proof
  define gone where "gone = set (map i_id (filter P (db_identities d)))"
  define nul where "nul a = a \<lparr> a_actor_id := set_null (\<lambda>i. i \<in> gone) (a_actor_id a),
      a_target_id := set_null (\<lambda>i. i \<in> gone) (a_target_id a) \<rparr>" for a :: audit_row
  have rows: "db_audit (delete_identities P d) = map nul (db_audit d)"
    by (simp add: delete_identities_def Let_def gone_def nul_def)
  have hashed: "chain_from A p rs \<Longrightarrow> a \<in> set rs \<Longrightarrow> a_entry_hash a = au_sha A (au_to_vec A (canonical_record A a))"
    for p rs a by (induction rs arbitrary: p) auto
  assume "verify_rows A None (db_audit (delete_identities P d)) = Inr ()"
  then have "chain_from A None (map nul (db_audit d))" by (simp add: verify_rows_iff rows)
  then have "a_entry_hash (nul r) = au_sha A (au_to_vec A (canonical_record A (nul r)))"
    using assms(4) by (intro hashed) auto
  moreover have "a_entry_hash r = au_sha A (au_to_vec A (canonical_record A r))"
    using assms(1,4) by (intro hashed [of None "db_audit d"]) (simp_all add: audit_wf_def)
  moreover have "a_entry_hash (nul r) = a_entry_hash r" by (simp add: nul_def)
  ultimately have "canonical_record A (nul r) = canonical_record A r"
    using assms(4,7) by (intro inj_onD [OF assms(7)]) (simp_all add: rows)
  moreover have "i_id i \<in> gone" using assms(2,3) by (auto simp: gone_def)
  ultimately show False
    using assms(5,6) by (simp add: canonical_record_def canonical_json_def opt_json_def nul_def set_null_def)
qed

section \<open>Witnesses\<close>

text \<open>An encoding that keeps the texts and the null values of a record, and the identity as digest.\<close>

definition demo_flat :: "(string \<times> json) list \<Rightarrow> nat list" where
  "demo_flat kvs = concat (map (\<lambda>(_, v). case v of JNull \<Rightarrow> [0] | JNum n \<Rightarrow> [1, nat_of_instant n]
     | JStr s \<Rightarrow> 2 # length s # map of_char s | _ \<Rightarrow> [3]) kvs)"

definition demo_to_vec :: "json \<Rightarrow> bytes" where
  "demo_to_vec j = (case j of
     JObj kvs \<Rightarrow> (case map_of kvs ''entryHash'' of
         Some (JStr s) \<Rightarrow> enc_line (1 # length s # map of_char s @ demo_flat kvs)
       | _ \<Rightarrow> enc_line (0 # demo_flat kvs))
   | _ \<Rightarrow> enc_line [])"

definition demo_from_slice :: "bytes \<Rightarrow> json option" where
  "demo_from_slice bs = (case dec_line bs of
     Some (Suc _ # n # ns) \<Rightarrow> Some (JObj [(''entryHash'', JStr (map char_of (take n ns)))])
   | _ \<Rightarrow> None)"

definition demo_audit :: audit_env where
  "demo_audit = \<lparr> au_to_vec = demo_to_vec, au_from_slice = demo_from_slice, au_sha = (\<lambda>bs. bs),
     au_hex = map (\<lambda>b. char_of (unat b)),
     au_unhex = (\<lambda>s. Some (map (\<lambda>ch. word_of_nat (of_char ch)) s)),
     au_uuid = (\<lambda>i. JNum (uint i)), au_time = JNum \<rparr>"

lemma demo_export_line:
  "export_line demo_audit r = enc_line (1 # length (a_entry_hash r) #
     map of_char (au_hex demo_audit (a_entry_hash r)) @
     demo_flat (canonical_json demo_audit (a_id r) (a_actor_id r) (a_actor_label r) (a_action r)
       (a_target_id r) (a_outcome r) (a_metadata r) (a_previous_hash r)
       (normalized_audit_timestamp (a_created_at r)) @
       [(''entryHash'', JStr (au_hex demo_audit (a_entry_hash r)))]))"
  by (simp add: export_line_def canonical_record_def canonical_json_def demo_audit_def demo_to_vec_def)

lemma demo_audit_ok: "audit_env_ok demo_audit"
proof -
  have "map (\<lambda>b. word_of_nat (of_char (char_of (unat b)))) bs = (bs :: bytes)" for bs
    by (simp only: byte_char_roundtrip list.map_ident)
  then have "au_unhex demo_audit (au_hex demo_audit h) = Some h" for h
    by (simp add: demo_audit_def o_def del: of_char_of)
  moreover have "map char_of (take (length s) (map of_char s @ ns)) = s" for s :: string and ns :: "nat list"
    by (simp add: o_def)
  then have "demo_from_slice (enc_line (1 # length s # map of_char s @ ns)) = Some (JObj [(''entryHash'', JStr s)])"
    for s and ns by (simp add: demo_from_slice_def dec_enc_line)
  then have "au_from_slice demo_audit (export_line demo_audit r) =
      Some (JObj [(''entryHash'', JStr (au_hex demo_audit (a_entry_hash r)))])" for r
  proof -
    have "length (a_entry_hash r) = length (au_hex demo_audit (a_entry_hash r))"
      and "au_from_slice demo_audit = demo_from_slice" by (simp_all add: demo_audit_def)
    then show ?thesis
      using \<open>\<And>s ns. demo_from_slice (enc_line (1 # length s # map of_char s @ ns)) = Some (JObj [(''entryHash'', JStr s)])\<close>
      unfolding demo_export_line by metis
  qed
  ultimately show ?thesis
    by (simp add: audit_env_ok_def demo_export_line enc_line_no_newline enc_line_not_blank)
qed

definition demo_identity :: identity_row where
  "demo_identity = \<lparr> i_id = 21, i_role = RoleClient, i_name = ''nas'', i_serial = Some ''01'',
     i_fingerprint = Some ''f1'', i_elevation_public_key = None, i_activated_at = None,
     i_activation_expires_at = Some (secs 86400), i_revoked_at = None, i_revoked_reason = None \<rparr>"

definition demo_audit_row :: audit_row where
  "demo_audit_row = \<lparr> a_sequence = 1, a_id = 31, a_actor_id = Some 21, a_actor_label = ''client'',
     a_action = ''identity.enroll_pending'', a_target_id = Some 21, a_outcome = ''succeeded'',
     a_metadata = JNull, a_previous_hash = None,
     a_entry_hash = demo_to_vec (JObj (canonical_json demo_audit 31 (Some 21) ''client''
       ''identity.enroll_pending'' (Some 21) ''succeeded'' JNull None (secs 5))),
     a_created_at = secs 5 \<rparr>"

definition demo_db :: db where
  "demo_db = empty_db \<lparr> db_identities := [demo_identity], db_audit := [demo_audit_row], db_audit_next := 2 \<rparr>"

lemma demo_normalized: "normalized_audit_timestamp (secs 5) = secs 5"
  by (simp add: normalized_audit_timestamp_def secs_def nanos_per_second_def)

lemma demo_append:
  "append_audit demo_audit (empty_db \<lparr> db_identities := [demo_identity] \<rparr>) 31 (secs 5) (Some 21) ''client''
     ''identity.enroll_pending'' (Some 21) ''succeeded'' JNull = Inr demo_db"
  by (simp add: append_audit_def insert_audit_def Let_def empty_db_def audit_tail_def fk_identity_def
      demo_identity_def demo_db_def demo_audit_row_def demo_normalized demo_audit_def)

lemma demo_db_wf: "audit_wf demo_audit demo_db"
  by (rule append_audit_wf [OF _ demo_append]) (simp add: audit_wf_def empty_db_def)

lemma demo_db_rows: "db_audit demo_db = [demo_audit_row]"
  by (simp add: demo_db_def)

theorem audit_chain_commits_witness:
  "map (canonical_record demo_audit) [demo_audit_row] =
     map (canonical_record demo_audit) [demo_audit_row \<lparr> a_sequence := 6 \<rparr>]"
proof (rule audit_chain_commits [OF demo_audit_ok])
  have "chain_from demo_audit None [demo_audit_row]"
    using demo_db_wf by (simp add: audit_wf_def demo_db_rows)
  then show "verify_rows demo_audit None [demo_audit_row] = Inr ()"
    "verify_rows demo_audit None [demo_audit_row \<lparr> a_sequence := 6 \<rparr>] = Inr ()" by simp_all
qed (simp_all add: last_hash_def)

theorem export_next_window_witness:
  "is_ok (fst (export_audit_chain demo_audit True demo_db [] 100)) \<and>
   snd (export_audit_chain demo_audit True demo_db [] 100) =
     [\<lparr> ef_from = 1, ef_to = 1, ef_bytes = unlines [export_line demo_audit demo_audit_row] \<rparr>]"
  using export_next_window [where before = "[]" and files = "[]" and m = 100,
      OF demo_audit_ok demo_db_wf _ _ _ _ refl refl]
  by (simp add: demo_db_rows exports_end_def MAX_BATCH_ENTRIES_def) (simp add: demo_audit_row_def)

definition demo_local_record :: local_audit_record where
  "demo_local_record = \<lparr> la_id = 77, la_created_at = secs 9, la_action = ''config.reset'',
     la_outcome = ''succeeded'', la_metadata = JNull \<rparr>"

definition demo_local_codec :: local_codec where
  "demo_local_codec = \<lparr> la_ser = (\<lambda>e. enc_line [unat (la_id (le_audit_record e))]),
     la_par = (\<lambda>bs. if bs = enc_line [77] then Some \<lparr> le_audit_version = 1,
       le_audit_record = demo_local_record, le_audit_checksum = ''s'' \<rparr> else None),
     la_sum = (\<lambda>_. ''s'') \<rparr>"

lemma demo_local_ok: "local_codec_ok demo_local_codec [demo_local_record]"
  by (simp add: local_codec_ok_def local_line_def local_envelope_def demo_local_codec_def
      demo_local_record_def enc_line_no_newline enc_line_not_blank)

theorem reconcile_idempotent_witness:
  "\<exists>n d' J'. reconcile demo_audit demo_local_codec True demo_db
      \<lparr> lj_file = Some (unlines [local_line demo_local_codec demo_local_record] @ [120]),
        lj_regular = True, lj_private = True, lj_quarantine = [] \<rparr> = (Inr n, d', J') \<and>
    reconcile demo_audit demo_local_codec False d' J' = (Inr 0, d', J' \<lparr> lj_file := None \<rparr>)"
proof -
  have nl: "newline \<notin> set [120]" by (simp add: newline_def)
  show ?thesis
    using reconcile_idempotent [OF demo_local_ok demo_db_wf, where t = "[120]" and
      J = "\<lparr> lj_file = Some (unlines [local_line demo_local_codec demo_local_record] @ [120]),
        lj_regular = True, lj_private = True, lj_quarantine = [] \<rparr>"] nl by auto
qed

theorem identity_deletion_breaks_chain_witness:
  "verify_rows demo_audit None (db_audit (delete_identities (\<lambda>i. i_activated_at i = None) demo_db)) \<noteq> Inr ()"
proof (rule identity_deletion_breaks_chain [OF demo_db_wf, of demo_identity _ demo_audit_row])
  show "inj_on (\<lambda>j. au_sha demo_audit (au_to_vec demo_audit j)) (canonical_record demo_audit `
      (set (db_audit demo_db) \<union> set (db_audit (delete_identities (\<lambda>i. i_activated_at i = None) demo_db))))"
    by (simp add: inj_on_def delete_identities_def Let_def demo_db_def empty_db_def demo_identity_def
        demo_audit_row_def set_null_def canonical_record_def canonical_json_def opt_json_def
        demo_audit_def demo_to_vec_def demo_flat_def)
qed (simp_all add: demo_db_def demo_identity_def demo_audit_row_def demo_audit_def)

end
