(* ===== verification/Invitation.thy ===== *)
theory Invitation
  imports Server_Db
begin

text \<open>
  \<^verbatim>\<open>centrald-common/src/enrollment.rs\<close>: the one-time invitation token, its claims and their
  validation, generation and parsing, the HMAC construction and the constant-time comparison. Base64,
  JSON, SHA-256 and Argon2 are a parameter, an \<open>invitation_env\<close> record.
\<close>

unbundle bit_operations_syntax

section \<open>Data\<close>

definition INVITATION_SECRET_BYTES :: nat where "INVITATION_SECRET_BYTES = 32"
definition HMAC_BLOCK_BYTES :: nat where "HMAC_BLOCK_BYTES = 64"
definition INVITATION_PREFIX :: string where "INVITATION_PREFIX = ''centrald-invite1''"
definition INVITATION_SCHEMA_VERSION :: "32 word" where "INVITATION_SCHEMA_VERSION = 1"
definition MAX_INVITATION_BYTES :: nat where "MAX_INVITATION_BYTES = 128 * 1024"
definition MAX_ROOT_CA_BYTES :: nat where "MAX_ROOT_CA_BYTES = 64 * 1024"

datatype enrollment_role = EClient | EAdmin

fun enrollment_role_str :: "enrollment_role \<Rightarrow> string" where
  "enrollment_role_str EClient = ''client''"
| "enrollment_role_str EAdmin = ''admin''"

record invitation_claims =
  ic_schema_version :: "32 word"
  ic_id :: uuid
  ic_server_instance_id :: uuid
  ic_role :: enrollment_role
  ic_name :: string
  ic_server_name :: string
  ic_enrollment_port :: "16 word"
  ic_client_port :: "16 word"
  ic_admin_port :: "16 word"
  ic_root_ca_pem :: string
  ic_expires_at :: instant

datatype enrollment_secret_error = Salt | Hash | InvalidHash | InvalidFormat | InvalidClaims
  | Integrity | InvitationSerialization

record invitation_env =
  iv_claims_to_vec :: "invitation_claims \<Rightarrow> bytes option"
  iv_claims_from_slice :: "bytes \<Rightarrow> invitation_claims option"
  iv_b64 :: "bytes \<Rightarrow> string"
  iv_unb64 :: "string \<Rightarrow> bytes option"
  iv_sha256 :: "bytes \<Rightarrow> bytes"
  iv_hash_password :: "bytes \<Rightarrow> string \<Rightarrow> string option"
  iv_salt :: "bytes \<Rightarrow> string option"
  iv_valid_hash :: "string \<Rightarrow> bool"
  iv_verify_password :: "bytes \<Rightarrow> string \<Rightarrow> bool"

section \<open>Operations\<close>

text \<open>\<^verbatim>\<open>str::as_bytes\<close>, \<^verbatim>\<open>str::contains\<close> and \<^verbatim>\<open>contains(char::is_whitespace)\<close>.\<close>

definition str_bytes :: "string \<Rightarrow> bytes" where
  "str_bytes s = map (\<lambda>ch. word_of_nat (of_char ch)) s"

fun str_contains :: "string \<Rightarrow> string \<Rightarrow> bool" where
  "str_contains needle [] = (needle = [])"
| "str_contains needle (x # xs) =
     (take (length needle) (x # xs) = needle \<or> str_contains needle xs)"

fun has_space_codes :: "nat list \<Rightarrow> bool" where
  "has_space_codes (x # y # z # r) =
     (is_space1 x \<or> is_space2 x y \<or> is_space3 x y z \<or> has_space_codes (y # z # r))"
| "has_space_codes [x, y] = (is_space1 x \<or> is_space2 x y \<or> is_space1 y)"
| "has_space_codes [x] = is_space1 x"
| "has_space_codes [] = False"

definition has_whitespace :: "string \<Rightarrow> bool" where
  "has_whitespace s = has_space_codes (map of_char s)"

definition new_claims ::
  "uuid \<Rightarrow> uuid \<Rightarrow> enrollment_role \<Rightarrow> string \<Rightarrow> string \<Rightarrow> 16 word \<Rightarrow> 16 word \<Rightarrow> 16 word \<Rightarrow> string \<Rightarrow>
     instant \<Rightarrow> invitation_claims" where
  "new_claims i server_instance_id role name server_name enrollment_port client_port admin_port
       root_ca_pem expires_at =
     \<lparr> ic_schema_version = INVITATION_SCHEMA_VERSION, ic_id = i,
       ic_server_instance_id = server_instance_id, ic_role = role, ic_name = name,
       ic_server_name = server_name, ic_enrollment_port = enrollment_port,
       ic_client_port = client_port, ic_admin_port = admin_port, ic_root_ca_pem = root_ca_pem,
       ic_expires_at = expires_at \<rparr>"

definition validate_claims :: "invitation_claims \<Rightarrow> enrollment_secret_error + unit" where
  "validate_claims c =
     (let server_name = trim (ic_server_name c);
          p0 = ic_enrollment_port c; p1 = ic_client_port c; p2 = ic_admin_port c in
      if ic_schema_version c \<noteq> INVITATION_SCHEMA_VERSION \<or> ic_id c = 0 \<or> ic_server_instance_id c = 0
        then Inl InvalidClaims
      else if trim (ic_name c) = [] \<or> length (ic_name c) > 128 \<or> has_control (ic_name c)
        then Inl InvalidClaims
      else if server_name = [] \<or> length server_name > 253 \<or> str_contains ''//'' server_name \<or>
              CHR ''/'' \<in> set server_name \<or> has_whitespace server_name \<or> has_control server_name
        then Inl InvalidClaims
      else if p0 < 1024 \<or> p1 < 1024 \<or> p2 < 1024 \<or> p0 = p1 \<or> p0 = p2 \<or> p1 = p2
        then Inl InvalidClaims
      else if length (ic_root_ca_pem c) > MAX_ROOT_CA_BYTES \<or>
              \<not> str_contains ''-----BEGIN CERTIFICATE-----'' (ic_root_ca_pem c) \<or>
              \<not> str_contains ''-----END CERTIFICATE-----'' (ic_root_ca_pem c)
        then Inl InvalidClaims
      else Inr ())"

text \<open>\<^verbatim>\<open>Uuid::into_bytes\<close>: big-endian.\<close>

definition uuid_bytes :: "uuid \<Rightarrow> bytes" where
  "uuid_bytes u = map (\<lambda>k. ucast (drop_bit (8 * k) u)) (rev [0..<16])"

definition hmac_sha256 :: "invitation_env \<Rightarrow> bytes \<Rightarrow> bytes \<Rightarrow> bytes" where
  "hmac_sha256 E key message =
     (let key_block =
            (if length key > HMAC_BLOCK_BYTES then iv_sha256 E key @ replicate (HMAC_BLOCK_BYTES - 32) 0
             else key @ replicate (HMAC_BLOCK_BYTES - length key) 0);
          inner_pad = map (\<lambda>b. 0x36 XOR b) key_block;
          outer_pad = map (\<lambda>b. 0x5c XOR b) key_block;
          inner_hash = iv_sha256 E (inner_pad @ message)
      in iv_sha256 E (outer_pad @ inner_hash))"

definition constant_time_equal :: "bytes \<Rightarrow> bytes \<Rightarrow> bool" where
  "constant_time_equal left right =
     (if length left \<noteq> length right then False
      else foldl (\<lambda>difference (l, r). difference OR (l XOR r)) 0 (zip left right) = 0)"

text \<open>The 32 random bytes are an argument.\<close>

definition signed_part :: "string \<Rightarrow> string \<Rightarrow> string" where
  "signed_part payload encoded_secret = INVITATION_PREFIX @ ''.'' @ payload @ ''.'' @ encoded_secret"

definition generate_enrollment_invitation ::
  "invitation_env \<Rightarrow> bytes \<Rightarrow> invitation_claims \<Rightarrow> enrollment_secret_error + string" where
  "generate_enrollment_invitation E secret claims =
     (case validate_claims claims of
        Inl e \<Rightarrow> Inl e
      | Inr _ \<Rightarrow> (case iv_claims_to_vec E claims of
          None \<Rightarrow> Inl InvitationSerialization
        | Some payload \<Rightarrow>
            let signed = signed_part (iv_b64 E payload) (iv_b64 E secret);
                mac = hmac_sha256 E (uuid_bytes (ic_server_instance_id claims)) (str_bytes signed)
            in Inr (signed @ ''.'' @ iv_b64 E mac)))"

definition parse_enrollment_invitation ::
  "invitation_env \<Rightarrow> string \<Rightarrow> enrollment_secret_error + invitation_claims" where
  "parse_enrollment_invitation E token =
     (if length token > MAX_INVITATION_BYTES then Inl InvalidFormat
      else (case split_on (CHR ''.'') token of
          [prefix, payload, encoded_secret, encoded_mac] \<Rightarrow>
            if prefix \<noteq> INVITATION_PREFIX then Inl InvalidFormat
            else (case iv_unb64 E encoded_secret of
                None \<Rightarrow> Inl InvalidFormat
              | Some random \<Rightarrow>
                  if length random \<noteq> INVITATION_SECRET_BYTES then Inl InvalidFormat
                  else (case iv_unb64 E encoded_mac of
                      None \<Rightarrow> Inl InvalidFormat
                    | Some mac \<Rightarrow>
                        if length mac \<noteq> 32 then Inl InvalidFormat
                        else (case Option.bind (iv_unb64 E payload) (iv_claims_from_slice E) of
                            None \<Rightarrow> Inl InvalidFormat
                          | Some claims \<Rightarrow>
                              if \<not> constant_time_equal
                                   (hmac_sha256 E (uuid_bytes (ic_server_instance_id claims))
                                      (str_bytes (signed_part payload encoded_secret))) mac
                              then Inl Integrity
                              else (case validate_claims claims of
                                  Inl e \<Rightarrow> Inl e
                                | Inr _ \<Rightarrow> Inr claims))))
        | _ \<Rightarrow> Inl InvalidFormat))"

definition enrollment_key_id :: "invitation_env \<Rightarrow> string \<Rightarrow> enrollment_secret_error + uuid" where
  "enrollment_key_id E token =
     (case parse_enrollment_invitation E token of Inl e \<Rightarrow> Inl e | Inr c \<Rightarrow> Inr (ic_id c))"

definition hash_enrollment_key ::
  "invitation_env \<Rightarrow> bytes \<Rightarrow> string \<Rightarrow> enrollment_secret_error + string" where
  "hash_enrollment_key E salt_bytes token =
     (case iv_salt E salt_bytes of
        None \<Rightarrow> Inl Salt
      | Some salt \<Rightarrow> (case iv_hash_password E (str_bytes token) salt of
          None \<Rightarrow> Inl Hash
        | Some h \<Rightarrow> Inr h))"

definition verify_enrollment_key ::
  "invitation_env \<Rightarrow> string \<Rightarrow> string \<Rightarrow> enrollment_secret_error + bool" where
  "verify_enrollment_key E token encoded_hash =
     (if \<not> iv_valid_hash E encoded_hash then Inl InvalidHash
      else Inr (iv_verify_password E (str_bytes token) encoded_hash))"

section \<open>Lemmas\<close>

lemma or_fold_zero:
  "foldl (\<lambda>d (l, r). d OR (l XOR r)) (a :: byte) zs = 0 \<longleftrightarrow> a = 0 \<and> (\<forall>(l, r) \<in> set zs. l = r)"
proof (induction zs arbitrary: a)
  case (Cons z zs)
  obtain l r where z: "z = (l, r)" by fastforce
  have "a OR (l XOR r) = 0 \<longleftrightarrow> a = 0 \<and> l = r"
    by (simp add: or_eq_0_iff) (metis xor_self_eq xor.right_neutral xor.assoc)
  with Cons z show ?case by auto
qed simp

lemma constant_time_equal_iff: "constant_time_equal l r \<longleftrightarrow> l = r"
proof (cases "length l = length r")
  case True
  have "(\<forall>(a, b) \<in> set (zip l r). a = b) \<longleftrightarrow> l = r"
    using True by (induction l r rule: list_induct2) auto
  with True show ?thesis by (simp add: constant_time_equal_def or_fold_zero)
qed (auto simp: constant_time_equal_def)

lemma split_four:
  assumes "sep \<notin> set a" "sep \<notin> set b" "sep \<notin> set c" "sep \<notin> set d"
  shows "split_on sep (a @ sep # b @ sep # c @ sep # d) = [a, b, c, d]"
  using assms by (simp add: split_on_append_sep split_on_no_sep)

text \<open>What the crates promise: the Base64 alphabet has no dot, decoding inverts encoding, and SHA-256
  has 32 bytes.\<close>

definition invitation_env_ok :: "invitation_env \<Rightarrow> bool" where
  "invitation_env_ok E \<longleftrightarrow> (\<forall>bs. iv_unb64 E (iv_b64 E bs) = Some bs \<and> CHR ''.'' \<notin> set (iv_b64 E bs)) \<and>
     (\<forall>c bs. iv_claims_to_vec E c = Some bs \<longrightarrow> iv_claims_from_slice E bs = Some c) \<and>
     (\<forall>bs. length (iv_sha256 E bs) = 32)"

section \<open>Properties\<close>

text \<open>
  C31. Every invitation the server generates is accepted by the parser, with exactly the claims it was
  generated from, provided the random secret has its 32 bytes and the token stays within the size
  bound of 128 KiB.
\<close>

theorem invitation_roundtrip:
  assumes "invitation_env_ok E" and "length secret = INVITATION_SECRET_BYTES"
    and "generate_enrollment_invitation E secret claims = Inr token"
    and "length token \<le> MAX_INVITATION_BYTES"
  shows "parse_enrollment_invitation E token = Inr claims"
proof -
  have valid: "validate_claims claims = Inr ()"
    using assms(3) by (auto simp: generate_enrollment_invitation_def split: sum.splits)
  then obtain payload where payload: "iv_claims_to_vec E claims = Some payload"
    using assms(3) by (auto simp: generate_enrollment_invitation_def split: option.splits)
  define signed where "signed = signed_part (iv_b64 E payload) (iv_b64 E secret)"
  define mac where "mac = hmac_sha256 E (uuid_bytes (ic_server_instance_id claims)) (str_bytes signed)"
  have token: "token = signed @ ''.'' @ iv_b64 E mac"
    using assms(3) valid payload by (simp add: generate_enrollment_invitation_def Let_def signed_def mac_def)
  have "split_on (CHR ''.'') token = [INVITATION_PREFIX, iv_b64 E payload, iv_b64 E secret, iv_b64 E mac]"
    using split_four [of "CHR ''.''" INVITATION_PREFIX "iv_b64 E payload" "iv_b64 E secret" "iv_b64 E mac"] assms(1)
    by (simp add: token signed_def signed_part_def invitation_env_ok_def INVITATION_PREFIX_def)
  moreover have "length mac = 32" using assms(1) by (simp add: mac_def hmac_sha256_def Let_def invitation_env_ok_def)
  ultimately show ?thesis
    using assms(1,2,4) payload valid
    by (simp add: parse_enrollment_invitation_def invitation_env_ok_def constant_time_equal_iff flip: signed_def mac_def)
qed

text \<open>
  C32. Whatever the parser accepts is well formed: the token is the fixed prefix, payload, a 32-byte
  secret and the HMAC of the first three parts under the claimed server instance, joined by dots; and
  the claims have the current schema, non-nil identifiers, three distinct unprivileged ports and a
  bounded root certificate.
\<close>

theorem parsed_invitation_sound:
  assumes "parse_enrollment_invitation E token = Inr claims"
  shows "(\<exists>payload secret mac. token = signed_part payload secret @ ''.'' @ mac \<and>
      Option.bind (iv_unb64 E payload) (iv_claims_from_slice E) = Some claims \<and>
      (\<exists>random. iv_unb64 E secret = Some random \<and> length random = 32) \<and>
      iv_unb64 E mac = Some (hmac_sha256 E (uuid_bytes (ic_server_instance_id claims))
        (str_bytes (signed_part payload secret)))) \<and>
    ic_schema_version claims = 1 \<and> ic_id claims \<noteq> 0 \<and> ic_server_instance_id claims \<noteq> 0 \<and>
      distinct [ic_enrollment_port claims, ic_client_port claims, ic_admin_port claims] \<and>
      (\<forall>p \<in> {ic_enrollment_port claims, ic_client_port claims, ic_admin_port claims}. 1024 \<le> p) \<and>
      length (ic_root_ca_pem claims) \<le> 65536"
proof -
  have joined: "token = foldr (\<lambda>a b. a @ CHR ''.'' # b) (butlast (split_on (CHR ''.'') token)) (last (split_on (CHR ''.'') token))"
    for token by (induction token) (auto split: list.split)
  obtain payload secret mac where parts: "split_on (CHR ''.'') token = [INVITATION_PREFIX, payload, secret, mac]"
    using assms by (auto simp: parse_enrollment_invitation_def split: list.splits if_splits)
  have "token = signed_part payload secret @ ''.'' @ mac"
    using joined [of token] by (simp add: parts signed_part_def)
  moreover have "Option.bind (iv_unb64 E payload) (iv_claims_from_slice E) = Some claims \<and>
      (\<exists>random. iv_unb64 E secret = Some random \<and> length random = 32) \<and>
      iv_unb64 E mac = Some (hmac_sha256 E (uuid_bytes (ic_server_instance_id claims)) (str_bytes (signed_part payload secret)))"
    and valid: "validate_claims claims = Inr ()"
    using assms by (auto simp: parse_enrollment_invitation_def parts constant_time_equal_iff
        INVITATION_SECRET_BYTES_def split: option.splits if_splits sum.splits)
  moreover have "ic_schema_version claims = 1 \<and> ic_id claims \<noteq> 0 \<and> ic_server_instance_id claims \<noteq> 0 \<and>
      distinct [ic_enrollment_port claims, ic_client_port claims, ic_admin_port claims] \<and>
      (\<forall>p \<in> {ic_enrollment_port claims, ic_client_port claims, ic_admin_port claims}. 1024 \<le> p) \<and>
      length (ic_root_ca_pem claims) \<le> 65536"
    using valid by (auto simp: validate_claims_def Let_def INVITATION_SCHEMA_VERSION_def
        MAX_ROOT_CA_BYTES_def not_less split: if_splits)
  ultimately show ?thesis by blast
qed

text \<open>
  The constant-time comparison decides equality: folding the bitwise differences of two byte
  strings of the same length gives zero exactly when they are the same.
\<close>

theorem constant_time_equal_correct: "constant_time_equal left right = (left = right)"
  by (rule constant_time_equal_iff)

section \<open>Witnesses\<close>

definition demo_claims :: invitation_claims where
  "demo_claims = new_claims 41 42 EClient ''nas'' ''centrald.lan'' 7445 7443 7444
     ''-----BEGIN CERTIFICATE-----x-----END CERTIFICATE-----'' (secs 3600)"

definition demo_b64 :: "bytes \<Rightarrow> string" where
  "demo_b64 bs = concat (map (\<lambda>b. [char_of (65 + unat b div 16), char_of (65 + unat b mod 16)]) bs)"

fun demo_unb64 :: "string \<Rightarrow> bytes option" where
  "demo_unb64 [] = Some []"
| "demo_unb64 (h # l # s) = (case demo_unb64 s of
     None \<Rightarrow> None
   | Some bs \<Rightarrow> Some (word_of_nat (16 * (of_char h - 65) + (of_char l - 65)) # bs))"
| "demo_unb64 _ = None"

definition demo_invitation_env :: invitation_env where
  "demo_invitation_env = \<lparr>
     iv_claims_to_vec = (\<lambda>c. if c = demo_claims then Some [1] else None),
     iv_claims_from_slice = (\<lambda>bs. if bs = [1] then Some demo_claims else None),
     iv_b64 = demo_b64, iv_unb64 = demo_unb64,
     iv_sha256 = (\<lambda>bs. replicate 32 (word_of_nat (length bs))),
     iv_hash_password = (\<lambda>bs salt. Some salt), iv_salt = (\<lambda>bs. Some ''s''),
     iv_valid_hash = (\<lambda>h. True), iv_verify_password = (\<lambda>bs h. True) \<rparr>"

lemma demo_b64_roundtrip: "demo_unb64 (demo_b64 bs) = Some bs"
proof (induction bs)
  case (Cons b bs)
  have b: "unat b < 256" by (rule order_less_le_trans [OF unsigned_less]) simp
  then have "16 * (unat b div 16) + unat b mod 16 = unat b" by simp
  moreover have "unat b div 16 < 16" using b by simp
  ultimately show ?case using Cons by (simp add: demo_b64_def of_char_of)
qed (simp add: demo_b64_def)

lemma demo_b64_no_dot: "CHR ''.'' \<notin> set (demo_b64 bs)"
proof -
  have "CHR ''.'' \<noteq> char_of (65 + k)" if "k < 16" for k :: nat
  proof
    assume "CHR ''.'' = char_of (65 + k)"
    then have "(of_char (CHR ''.'') :: nat) = (65 + k) mod 256" by (simp only: of_char_of)
    with that show False by simp
  qed
  moreover have "unat b div 16 < 16" for b :: byte
  proof -
    have "unat b < 256" by (rule order_less_le_trans [OF unsigned_less]) simp
    then show ?thesis by simp
  qed
  ultimately show ?thesis by (auto simp: demo_b64_def)
qed

lemma demo_invitation_ok: "invitation_env_ok demo_invitation_env"
  by (simp add: invitation_env_ok_def demo_invitation_env_def demo_b64_roundtrip demo_b64_no_dot)

lemma demo_claims_valid: "validate_claims demo_claims = Inr ()"
  by (simp add: validate_claims_def demo_claims_def new_claims_def Let_def trim_def has_control_def
      has_whitespace_def is_space1_def is_space2_def is_space3_def INVITATION_SCHEMA_VERSION_def
      MAX_ROOT_CA_BYTES_def char_of_def bit_0)

lemma demo_invitation:
  obtains token where "generate_enrollment_invitation demo_invitation_env (replicate 32 7) demo_claims = Inr token"
    and "length token \<le> MAX_INVITATION_BYTES"
  by (simp add: generate_enrollment_invitation_def demo_claims_valid demo_invitation_env_def Let_def
      signed_part_def INVITATION_PREFIX_def demo_b64_def hmac_sha256_def length_concat MAX_INVITATION_BYTES_def o_def sum_list_replicate)

theorem invitation_roundtrip_witness:
  "\<exists>token. generate_enrollment_invitation demo_invitation_env (replicate 32 7) demo_claims = Inr token \<and>
     parse_enrollment_invitation demo_invitation_env token = Inr demo_claims"
proof -
  obtain token where t: "generate_enrollment_invitation demo_invitation_env (replicate 32 7) demo_claims = Inr token"
    "length token \<le> MAX_INVITATION_BYTES" by (rule demo_invitation)
  then show ?thesis
    using invitation_roundtrip [OF demo_invitation_ok _ t] by (simp add: INVITATION_SECRET_BYTES_def)
qed

lemma demo_parsed: "\<exists>token. parse_enrollment_invitation demo_invitation_env token = Inr demo_claims"
proof -
  let ?signed = "signed_part (demo_b64 [1]) (demo_b64 (replicate 32 7))"
  let ?mac = "hmac_sha256 demo_invitation_env (uuid_bytes 42) (str_bytes ?signed)"
  have "split_on (CHR ''.'') (?signed @ ''.'' @ demo_b64 ?mac) =
      [INVITATION_PREFIX, demo_b64 [1], demo_b64 (replicate 32 7), demo_b64 ?mac]"
    using split_four [of "CHR ''.''" INVITATION_PREFIX "demo_b64 [1]" "demo_b64 (replicate 32 7)" "demo_b64 ?mac"]
    by (simp add: signed_part_def demo_b64_no_dot INVITATION_PREFIX_def)
  moreover have "length (?signed @ ''.'' @ demo_b64 ?mac) \<le> MAX_INVITATION_BYTES"
    by (simp add: signed_part_def INVITATION_PREFIX_def demo_b64_def hmac_sha256_def length_concat
        MAX_INVITATION_BYTES_def o_def Let_def demo_invitation_env_def sum_list_replicate)
  moreover have "length ?mac = 32" by (simp add: hmac_sha256_def Let_def demo_invitation_env_def)
  moreover have "ic_server_instance_id demo_claims = 42" by (simp add: demo_claims_def new_claims_def)
  ultimately have "parse_enrollment_invitation demo_invitation_env (?signed @ ''.'' @ demo_b64 ?mac) = Inr demo_claims"
    by (simp add: parse_enrollment_invitation_def demo_claims_valid INVITATION_SECRET_BYTES_def demo_b64_roundtrip
        constant_time_equal_iff demo_invitation_env_def)
  then show ?thesis by blast
qed

theorem parsed_invitation_sound_witness:
  "\<exists>token. parse_enrollment_invitation demo_invitation_env token = Inr demo_claims \<and>
     ic_id demo_claims \<noteq> 0 \<and> length (ic_root_ca_pem demo_claims) \<le> 65536"
  using demo_parsed parsed_invitation_sound [of demo_invitation_env _ demo_claims] by blast

end
