(* ===== verification/Identities.thy ===== *)
theory Identities
  imports Audit_Chain Invitation "HOL-Library.List_Lexorder" "HOL-Library.Char_ord"
begin

text \<open>
  The identity life cycle of \<^verbatim>\<open>centrald-server/src/services.rs\<close>: invitations, enrollment, activation,
  authentication, renewal, replacement and revocation, and the client Hello. Every transaction takes
  the clock reading and the fresh UUIDs it draws as arguments and returns an error, or a result and
  the committed database. Enrollment is split where the code splits it: \<open>enroll_check\<close> runs before
  and \<open>enroll_commit\<close> inside the transaction, so other transactions may come between. Certificate
  issuance (\<^verbatim>\<open>centrald-pki\<close>) is the parameter \<open>se_issue\<close>.
\<close>

section \<open>Environment\<close>

record issued_certificate =
  is_fingerprint :: string
  is_serial :: string
  is_expires_at :: instant
  is_chain :: string

record server_env =
  se_audit :: audit_env
  se_invite :: invitation_env
  se_instance_id :: uuid
  se_public_host :: string
  se_enrollment_port :: "16 word"
  se_client_port :: "16 word"
  se_admin_port :: "16 word"
  se_root_ca :: string
  se_version :: string
  se_parse_uuid :: "string \<Rightarrow> uuid option"
  se_issue :: "bytes \<Rightarrow> string \<Rightarrow> uuid \<Rightarrow> identity_role \<Rightarrow> issued_certificate option"

definition MAX_CSR_BYTES :: nat where
  "MAX_CSR_BYTES = 16 * 1024"

definition IDENTITY_ACTIVATION_TTL :: int where
  "IDENTITY_ACTIVATION_TTL = secs (24 * 60 * 60)"

definition PROTOCOL_MAJOR :: "32 word" where "PROTOCOL_MAJOR = 1"
definition PROTOCOL_MINOR :: "32 word" where "PROTOCOL_MINOR = 1"

section \<open>Request validation\<close>

definition validate_protocol :: "(32 word \<times> 32 word) option \<Rightarrow> status + unit" where
  "validate_protocol protocol =
     (case protocol of
        None \<Rightarrow> Inl (InvalidArgument, ''protocol version required'')
      | Some (major, minor) \<Rightarrow>
          if major \<noteq> PROTOCOL_MAJOR then Inl (FailedPrecondition, ''incompatible protocol major'')
          else if minor \<noteq> PROTOCOL_MINOR then Inl (FailedPrecondition, ''incompatible protocol minor'')
          else Inr ())"

definition validate_name :: "string \<Rightarrow> nat \<Rightarrow> status + unit" where
  "validate_name name maximum =
     (let value = trim name in
      if value = [] \<or> length value > maximum \<or> has_control value
      then Inl (InvalidArgument, ''name is empty or invalid'') else Inr ())"

definition validate_client_claims :: "string \<Rightarrow> string \<Rightarrow> string \<Rightarrow> status + unit" where
  "validate_client_claims hostname os architecture =
     (case validate_name hostname 253 of
        Inl e \<Rightarrow> Inl e
      | Inr _ \<Rightarrow>
          if os \<notin> {''linux'', ''windows''} then Inl (InvalidArgument, ''unsupported client OS'')
          else if architecture \<notin> {''x86_64'', ''aarch64''}
            then Inl (InvalidArgument, ''unsupported client architecture'')
          else Inr ())"

definition parse_uuid :: "server_env \<Rightarrow> string \<Rightarrow> string \<Rightarrow> status + uuid" where
  "parse_uuid E value field =
     (case se_parse_uuid E value of
        None \<Rightarrow> Inl (InvalidArgument, field @ '' is not a UUID'')
      | Some u \<Rightarrow> Inr u)"

text \<open>\<^verbatim>\<open>std::str::from_utf8\<close>: well-formed UTF-8 (no overlong forms, no surrogates, up to U+10FFFF).\<close>

definition is_cont :: "nat \<Rightarrow> bool" where
  "is_cont x \<longleftrightarrow> 128 \<le> x \<and> x \<le> 191"

fun utf8_codes :: "nat list \<Rightarrow> bool" where
  "utf8_codes [] = True"
| "utf8_codes (a # r) =
     (if a < 128 then utf8_codes r
      else (case r of
          [] \<Rightarrow> False
        | b # r2 \<Rightarrow>
            if 194 \<le> a \<and> a \<le> 223 then is_cont b \<and> utf8_codes r2
            else (case r2 of
                [] \<Rightarrow> False
              | c # r3 \<Rightarrow>
                  if 224 \<le> a \<and> a \<le> 239 then
                    is_cont b \<and> is_cont c \<and> (a = 224 \<longrightarrow> 160 \<le> b) \<and> (a = 237 \<longrightarrow> b \<le> 159) \<and> utf8_codes r3
                  else (case r3 of
                      [] \<Rightarrow> False
                    | d # r4 \<Rightarrow>
                        240 \<le> a \<and> a \<le> 244 \<and> is_cont b \<and> is_cont c \<and> is_cont d \<and>
                        (a = 240 \<longrightarrow> 144 \<le> b) \<and> (a = 244 \<longrightarrow> b \<le> 143) \<and> utf8_codes r4))))"

definition decode_csr :: "bytes \<Rightarrow> status + bytes" where
  "decode_csr bs =
     (if bs = [] \<or> length bs > MAX_CSR_BYTES
        then Inl (InvalidArgument, ''certificate request size is invalid'')
      else if utf8_codes (map unat bs) then Inr bs
      else Inl (InvalidArgument, ''certificate request is not UTF-8 PEM''))"

fun role_name :: "identity_role \<Rightarrow> status + string" where
  "role_name RoleClient = Inr ''client''"
| "role_name RoleAdmin = Inr ''admin''"
| "role_name RoleUnspecified = Inl (InvalidArgument, ''identity role must be client or admin'')"

definition role_str :: "identity_role \<Rightarrow> string" where
  "role_str r = (case r of RoleClient \<Rightarrow> ''client'' | RoleAdmin \<Rightarrow> ''admin'' | RoleUnspecified \<Rightarrow> [])"

section \<open>Authentication\<close>

definition peer_certificate_fingerprint :: "string option \<Rightarrow> status + string" where
  "peer_certificate_fingerprint leaf =
     (case leaf of None \<Rightarrow> Inl (Unauthenticated, ''client certificate required'') | Some fp \<Rightarrow> Inr fp)"

definition certificate_live :: "instant \<Rightarrow> certificate_row \<Rightarrow> bool" where
  "certificate_live now c \<longleftrightarrow> c_state c = CertActive \<and> c_revoked_at c = None \<and> c_expires_at c > now \<and>
     (case c_retire_at c of None \<Rightarrow> True | Some t \<Rightarrow> t > now)"

definition identity_live :: "identity_role \<Rightarrow> identity_row \<Rightarrow> bool" where
  "identity_live role i \<longleftrightarrow> i_role i = role \<and> i_activated_at i \<noteq> None \<and> i_revoked_at i = None"

definition find_identity :: "db \<Rightarrow> uuid \<Rightarrow> identity_row option" where
  "find_identity d i = find (\<lambda>r. i_id r = i) (db_identities d)"

definition find_certificate :: "db \<Rightarrow> string \<Rightarrow> certificate_row option" where
  "find_certificate d fp = find (\<lambda>c. c_fingerprint c = fp) (db_certificates d)"

definition authenticate :: "db \<Rightarrow> instant \<Rightarrow> string option \<Rightarrow> identity_role \<Rightarrow> status + uuid" where
  "authenticate d now leaf expected_role =
     (case peer_certificate_fingerprint leaf of
        Inl e \<Rightarrow> Inl e
      | Inr fp \<Rightarrow>
          (case find_certificate d fp of
             None \<Rightarrow> Inl (Unauthenticated, ''unknown or inactive identity'')
           | Some c \<Rightarrow> (case find_identity d (c_identity_id c) of
               None \<Rightarrow> Inl (Unauthenticated, ''unknown or inactive identity'')
             | Some i \<Rightarrow>
                 if certificate_live now c \<and> identity_live expected_role i then Inr (i_id i)
                 else Inl (Unauthenticated, ''unknown or inactive identity''))))"

definition authorize_existing_identity ::
  "db \<Rightarrow> instant \<Rightarrow> uuid \<Rightarrow> string \<Rightarrow> identity_role \<Rightarrow> status + unit" where
  "authorize_existing_identity d now identity fingerprint expected_role =
     (if list_ex (\<lambda>c. c_fingerprint c = fingerprint \<and> c_identity_id c = identity \<and> certificate_live now c)
           (db_certificates d) \<and>
         list_ex (\<lambda>i. i_id i = identity \<and> identity_live expected_role i) (db_identities d)
      then Inr () else Inl (PermissionDenied, ''identity was revoked or expired''))"

section \<open>Inserts\<close>

definition insert_identity :: "db \<Rightarrow> identity_row \<Rightarrow> status + db" where
  "insert_identity d r =
     (if i_id r \<in> set (map i_id (db_identities d)) \<or>
         (i_serial r \<noteq> None \<and> i_serial r \<in> set (map i_serial (db_identities d))) \<or>
         (i_fingerprint r \<noteq> None \<and> i_fingerprint r \<in> set (map i_fingerprint (db_identities d)))
      then Inl internal_status else Inr (d \<lparr> db_identities := db_identities d @ [r] \<rparr>))"

definition insert_certificate :: "db \<Rightarrow> certificate_row \<Rightarrow> status + db" where
  "insert_certificate d r =
     (if c_fingerprint r \<in> set (map c_fingerprint (db_certificates d)) \<or>
         c_serial r \<in> set (map c_serial (db_certificates d))
      then Inl internal_status else Inr (d \<lparr> db_certificates := db_certificates d @ [r] \<rparr>))"

definition insert_key :: "db \<Rightarrow> enrollment_key_row \<Rightarrow> status + db" where
  "insert_key d r =
     (if k_id r \<in> set (map k_id (db_keys d)) then Inl internal_status
      else Inr (d \<lparr> db_keys := db_keys d @ [r] \<rparr>))"

section \<open>Invitations\<close>

definition find_key :: "db \<Rightarrow> uuid \<Rightarrow> enrollment_key_row option" where
  "find_key d k = find (\<lambda>r. k_id r = k) (db_keys d)"

definition invalid_key :: status where
  "invalid_key = (Unauthenticated, ''invalid enrollment key'')"

text \<open>
  The handler draws a UUID, 32 random bytes and a salt; \<open>permit\<close> says whether the semaphore for
  password hashing had a free slot.
\<close>

definition create_key_prepare ::
  "server_env \<Rightarrow> instant \<Rightarrow> identity_role option \<Rightarrow> string \<Rightarrow> nat \<Rightarrow> uuid \<Rightarrow> bytes \<Rightarrow> bytes \<Rightarrow> bool \<Rightarrow>
   status + string \<times> enrollment_key_row" where
  "create_key_prepare E now role name expires_in_seconds i secret salt permit =
     (case role of
        None \<Rightarrow> Inl (InvalidArgument, ''invalid identity role'')
      | Some r \<Rightarrow>
          if r \<noteq> RoleClient then
            Inl (PermissionDenied, ''Admin access keys can be created only with centrald-server'')
          else (case validate_name name 128 of
              Inl e \<Rightarrow> Inl e
            | Inr _ \<Rightarrow>
                if \<not> (60 \<le> expires_in_seconds \<and> expires_in_seconds \<le> 86400) then
                  Inl (InvalidArgument, ''expiry must be between 60 seconds and 24 hours'')
                else
                  let expires_at = now + secs (int expires_in_seconds);
                      claims = new_claims i (se_instance_id E) EClient name (se_public_host E)
                        (se_enrollment_port E) (se_client_port E) (se_admin_port E) (se_root_ca E) expires_at
                  in (case generate_enrollment_invitation (se_invite E) secret claims of
                        Inl _ \<Rightarrow> Inl invalid_key
                      | Inr key \<Rightarrow>
                          if \<not> permit then
                            Inl (ResourceExhausted, ''enrollment cryptography is busy; retry shortly'')
                          else (case hash_enrollment_key (se_invite E) salt key of
                              Inl _ \<Rightarrow> Inl invalid_key
                            | Inr h \<Rightarrow> Inr (key, \<lparr> k_id = i, k_role = RoleClient, k_name = name,
                                k_secret_hash = h, k_expires_at = expires_at, k_consumed_at = None,
                                k_consumed_by = None, k_revoked_at = None, k_revoked_by = None,
                                k_revoked_reason = None, k_created_at = now \<rparr>)))))"

definition create_key_commit ::
  "server_env \<Rightarrow> db \<Rightarrow> instant \<Rightarrow> uuid \<Rightarrow> enrollment_key_row \<Rightarrow> uuid \<Rightarrow> status + db" where
  "create_key_commit E d now actor row audit_id =
     (case insert_key d row of
        Inl e \<Rightarrow> Inl e
      | Inr d \<Rightarrow>
          append_audit (se_audit E) d audit_id now (Some actor) ''admin'' ''enrollment_key.create'' None
            ''succeeded'' (JObj [(''key_id'', au_uuid (se_audit E) (k_id row)), (''role'', JStr ''client'')]))"

definition create_enrollment_key ::
  "server_env \<Rightarrow> db \<Rightarrow> instant \<Rightarrow> string option \<Rightarrow> identity_role option \<Rightarrow> string \<Rightarrow> nat \<Rightarrow>
   uuid \<Rightarrow> bytes \<Rightarrow> bytes \<Rightarrow> bool \<Rightarrow> uuid \<Rightarrow> status + string \<times> db" where
  "create_enrollment_key E d now leaf role name expires_in_seconds i secret salt permit audit_id =
     (case authenticate d now leaf RoleAdmin of
        Inl e \<Rightarrow> Inl e
      | Inr actor \<Rightarrow> (case create_key_prepare E now role name expires_in_seconds i secret salt permit of
          Inl e \<Rightarrow> Inl e
        | Inr (key, row) \<Rightarrow> (case create_key_commit E d now actor row audit_id of
            Inl e \<Rightarrow> Inl e
          | Inr d \<Rightarrow> Inr (key, d))))"

definition key_usable :: "instant \<Rightarrow> enrollment_key_row \<Rightarrow> bool" where
  "key_usable now k \<longleftrightarrow> k_consumed_at k = None \<and> k_revoked_at k = None \<and> k_expires_at k > now"

definition revoke_key_commit ::
  "server_env \<Rightarrow> db \<Rightarrow> instant \<Rightarrow> uuid \<Rightarrow> uuid \<Rightarrow> string \<Rightarrow> uuid \<Rightarrow> status + db" where
  "revoke_key_commit E d now actor key_id reason audit_id =
     (let sel = (\<lambda>k. k_id k = key_id \<and> k_role k = RoleClient \<and> key_usable now k) in
      if rows_affected sel (db_keys d) \<noteq> 1 then
        Inl (FailedPrecondition, ''invitation is missing, expired, consumed, or already revoked'')
      else
        append_audit (se_audit E)
          (d \<lparr> db_keys := update_where sel
             (\<lambda>k. k \<lparr> k_revoked_at := Some now, k_revoked_by := Some actor, k_revoked_reason := Some reason \<rparr>)
             (db_keys d) \<rparr>)
          audit_id now (Some actor) ''admin'' ''enrollment_key.revoke'' None ''succeeded''
          (JObj [(''key_id'', au_uuid (se_audit E) key_id), (''role'', JStr ''client''), (''reason'', JStr reason)]))"

definition revoke_enrollment_key ::
  "server_env \<Rightarrow> db \<Rightarrow> instant \<Rightarrow> string option \<Rightarrow> string \<Rightarrow> string \<Rightarrow> uuid \<Rightarrow> status + db" where
  "revoke_enrollment_key E d now leaf reason key_id_text audit_id =
     (case authenticate d now leaf RoleAdmin of
        Inl e \<Rightarrow> Inl e
      | Inr actor \<Rightarrow> (case validate_name reason 512 of
          Inl e \<Rightarrow> Inl e
        | Inr _ \<Rightarrow> (case parse_uuid E key_id_text ''enrollment_key_id'' of
            Inl e \<Rightarrow> Inl e
          | Inr key_id \<Rightarrow> revoke_key_commit E d now actor key_id reason audit_id)))"

definition list_enrollment_keys ::
  "db \<Rightarrow> instant \<Rightarrow> string option \<Rightarrow> identity_role option \<Rightarrow> bool \<Rightarrow> status + enrollment_key_row list" where
  "list_enrollment_keys d now leaf role include_inactive =
     (case authenticate d now leaf RoleAdmin of
        Inl e \<Rightarrow> Inl e
      | Inr _ \<Rightarrow> (case role of
          None \<Rightarrow> Inl (InvalidArgument, ''invalid identity role'')
        | Some r \<Rightarrow>
            if r \<noteq> RoleClient then
              Inl (PermissionDenied, ''Admin access keys are visible only in centrald-server config'')
            else Inr (take 500 (sort_key (\<lambda>k. - k_created_at k)
              (filter (\<lambda>k. k_role k = RoleClient \<and> (include_inactive \<or> key_usable now k)) (db_keys d))))))"

section \<open>Enrollment\<close>

text \<open>What the first half of \<^verbatim>\<open>enroll\<close> hands to the second.\<close>

record enroll_ticket =
  et_role :: identity_role
  et_claims :: invitation_claims
  et_csr :: bytes
  et_expected_hash :: string

definition enroll_check ::
  "server_env \<Rightarrow> db \<Rightarrow> instant \<Rightarrow> identity_role \<Rightarrow> string \<Rightarrow> bytes \<Rightarrow> string \<Rightarrow> bool \<Rightarrow> status + enroll_ticket"
where
  "enroll_check E d now role enrollment_key csr_pem presented_name permit =
     (case parse_enrollment_invitation (se_invite E) enrollment_key of
        Inl _ \<Rightarrow> Inl invalid_key
      | Inr claims \<Rightarrow>
          if ic_server_instance_id claims \<noteq> se_instance_id E then
            Inl (Unauthenticated, ''invitation belongs to a different CentralD server'')
          else (case role_name role of
              Inl e \<Rightarrow> Inl e
            | Inr rn \<Rightarrow>
                if enrollment_role_str (ic_role claims) \<noteq> rn \<or> ic_expires_at claims \<le> now then Inl invalid_key
                else if role = RoleAdmin \<and> presented_name \<noteq> ic_name claims then
                  Inl (InvalidArgument, ''Admin name does not match the access key'')
                else (case decode_csr csr_pem of
                    Inl e \<Rightarrow> Inl e
                  | Inr csr \<Rightarrow> (case find_key d (ic_id claims) of
                      None \<Rightarrow> Inl invalid_key
                    | Some k \<Rightarrow>
                        if k_role k \<noteq> role \<or> k_name k \<noteq> ic_name claims \<or> \<not> key_usable now k then Inl invalid_key
                        else if \<not> permit then
                          Inl (ResourceExhausted, ''enrollment cryptography is busy; retry shortly'')
                        else (case verify_enrollment_key (se_invite E) enrollment_key (k_secret_hash k) of
                            Inl _ \<Rightarrow> Inl invalid_key
                          | Inr False \<Rightarrow> Inl invalid_key
                          | Inr True \<Rightarrow> Inr \<lparr> et_role = role, et_claims = claims, et_csr = csr,
                                             et_expected_hash = k_secret_hash k \<rparr>)))))"

definition enroll_commit ::
  "server_env \<Rightarrow> db \<Rightarrow> instant \<Rightarrow> enroll_ticket \<Rightarrow> string \<Rightarrow> bytes option \<Rightarrow> (string \<times> string) option \<Rightarrow>
   uuid \<Rightarrow> uuid \<Rightarrow> status + (uuid \<times> issued_certificate) \<times> db" where
  "enroll_commit E d now t presented_name elevation_public_key client_platform identity_id audit_id =
     (let claims = et_claims t; key_id = ic_id claims; role = et_role t in
      case find_key d key_id of
        None \<Rightarrow> Inl invalid_key
      | Some k \<Rightarrow>
          if k_role k \<noteq> role \<or> k_name k \<noteq> ic_name claims \<or> k_secret_hash k \<noteq> et_expected_hash t \<or>
             \<not> key_usable now k then Inl invalid_key
          else if role = RoleUnspecified then Inl (InvalidArgument, ''invalid identity role'')
          else (case se_issue E (et_csr t) (ic_name claims) identity_id role of
              None \<Rightarrow> Inl (InvalidArgument, ''invalid certificate request'')
            | Some issued \<Rightarrow>
                let activation_expires_at = now + IDENTITY_ACTIVATION_TTL in
                (case insert_identity d \<lparr> i_id = identity_id, i_role = role, i_name = ic_name claims,
                    i_serial = Some (is_serial issued), i_fingerprint = Some (is_fingerprint issued),
                    i_elevation_public_key = elevation_public_key, i_activated_at = None,
                    i_activation_expires_at = Some activation_expires_at, i_revoked_at = None,
                    i_revoked_reason = None \<rparr> of
                   Inl e \<Rightarrow> Inl e
                 | Inr d \<Rightarrow> (case insert_certificate d \<lparr> c_fingerprint = is_fingerprint issued,
                      c_identity_id = identity_id, c_serial = is_serial issued, c_state = CertPending,
                      c_activation_expires_at = Some activation_expires_at,
                      c_expires_at = is_expires_at issued, c_retire_at = None, c_revoked_at = None \<rparr> of
                     Inl e \<Rightarrow> Inl e
                   | Inr d \<Rightarrow>
                       let d = (case client_platform of
                             None \<Rightarrow> d
                           | Some (os, architecture) \<Rightarrow>
                               d \<lparr> db_clients := db_clients d @ [\<lparr> cl_identity_id = identity_id,
                                 cl_hostname = presented_name, cl_os = os, cl_os_version = [],
                                 cl_architecture = architecture, cl_client_version = se_version E,
                                 cl_capabilities = [], cl_boot_id = [], cl_last_seen = None \<rparr>] \<rparr>);
                           sel = (\<lambda>k. k_id k = key_id \<and> key_usable now k) in
                       if rows_affected sel (db_keys d) \<noteq> 1 then Inl invalid_key
                       else (case append_audit (se_audit E)
                           (d \<lparr> db_keys := update_where sel
                              (\<lambda>k. k \<lparr> k_consumed_at := Some now, k_consumed_by := Some identity_id \<rparr>) (db_keys d) \<rparr>)
                           audit_id now (Some identity_id) (role_str role) ''identity.enroll_pending''
                           (Some identity_id) ''succeeded''
                           (JObj [(''key_id'', au_uuid (se_audit E) key_id), (''role'', JStr (role_str role)),
                             (''activation_expires_at'', au_time (se_audit E) activation_expires_at)]) of
                          Inl e \<Rightarrow> Inl e
                        | Inr d \<Rightarrow> Inr ((identity_id, issued), d))))))"

text \<open>The two RPCs up to the split.\<close>

definition enroll_client_check ::
  "server_env \<Rightarrow> db \<Rightarrow> instant \<Rightarrow> (32 word \<times> 32 word) option \<Rightarrow> string \<Rightarrow> string \<Rightarrow> string \<Rightarrow> string \<Rightarrow> bytes \<Rightarrow>
   bool \<Rightarrow> status + enroll_ticket" where
  "enroll_client_check E d now protocol hostname os architecture enrollment_key csr_pem permit =
     (case validate_protocol protocol of
        Inl e \<Rightarrow> Inl e
      | Inr _ \<Rightarrow> (case validate_client_claims hostname os architecture of
          Inl e \<Rightarrow> Inl e
        | Inr _ \<Rightarrow> enroll_check E d now RoleClient enrollment_key csr_pem hostname permit))"

definition enroll_admin_check ::
  "server_env \<Rightarrow> db \<Rightarrow> instant \<Rightarrow> (32 word \<times> 32 word) option \<Rightarrow> string \<Rightarrow> bytes \<Rightarrow> string \<Rightarrow> bytes \<Rightarrow>
   bool \<Rightarrow> status + enroll_ticket \<times> bytes option" where
  "enroll_admin_check E d now protocol name elevation_public_key enrollment_key csr_pem permit =
     (case validate_protocol protocol of
        Inl e \<Rightarrow> Inl e
      | Inr _ \<Rightarrow> (case validate_name name 128 of
          Inl e \<Rightarrow> Inl e
        | Inr _ \<Rightarrow>
            if elevation_public_key \<noteq> [] \<and> length elevation_public_key \<noteq> 32 then
              Inl (InvalidArgument, ''elevation public key must be empty or 32-byte Ed25519'')
            else (case enroll_check E d now RoleAdmin enrollment_key csr_pem name permit of
                Inl e \<Rightarrow> Inl e
              | Inr t \<Rightarrow> Inr (t, if elevation_public_key = [] then None else Some elevation_public_key))))"

section \<open>Activation, renewal, replacement, revocation\<close>

definition unique_elsewhere :: "db \<Rightarrow> uuid \<Rightarrow> string \<Rightarrow> string \<Rightarrow> bool" where
  "unique_elsewhere d identity serial fingerprint \<longleftrightarrow>
     list_all (\<lambda>i. i_id i \<noteq> identity \<longrightarrow> i_serial i \<noteq> Some serial \<and> i_fingerprint i \<noteq> Some fingerprint)
       (db_identities d)"

definition deadline_passed :: "instant \<Rightarrow> instant option \<Rightarrow> bool" where
  "deadline_passed now deadline = (case deadline of None \<Rightarrow> True | Some t \<Rightarrow> t \<le> now)"

definition ROTATION_GRACE :: int where
  "ROTATION_GRACE = secs (60 * 60)"

definition retire_certificate :: "instant \<Rightarrow> certificate_row \<Rightarrow> certificate_row" where
  "retire_certificate now c = c \<lparr> c_retire_at :=
     Some (min (case c_retire_at c of None \<Rightarrow> c_expires_at c | Some t \<Rightarrow> t) (now + ROTATION_GRACE)) \<rparr>"

definition activated_db :: "db \<Rightarrow> instant \<Rightarrow> uuid \<Rightarrow> string \<Rightarrow> string \<Rightarrow> db" where
  "activated_db d now identity fingerprint serial =
     d \<lparr> db_certificates :=
           update_where (\<lambda>c. c_identity_id c = identity \<and> c_fingerprint c = fingerprint)
             (\<lambda>c. c \<lparr> c_state := CertActive, c_activation_expires_at := None, c_retire_at := None \<rparr>)
             (update_where (\<lambda>c. c_identity_id c = identity \<and> c_fingerprint c \<noteq> fingerprint \<and>
                 c_state c = CertActive \<and> c_revoked_at c = None \<and> c_expires_at c > now)
               (retire_certificate now) (db_certificates d)),
         db_identities :=
           update_where (\<lambda>i. i_id i = identity)
             (\<lambda>i. i \<lparr> i_activated_at := (case i_activated_at i of None \<Rightarrow> Some now | Some t \<Rightarrow> Some t),
                    i_activation_expires_at := None, i_serial := Some serial,
                    i_fingerprint := Some fingerprint \<rparr>) (db_identities d) \<rparr>"

definition activate_identity_certificate ::
  "server_env \<Rightarrow> db \<Rightarrow> instant \<Rightarrow> uuid \<Rightarrow> string \<Rightarrow> identity_role \<Rightarrow> uuid \<Rightarrow> status + db" where
  "activate_identity_certificate E d now identity fingerprint expected_role audit_id =
     (case (find_identity d identity, find_certificate d fingerprint) of
        (Some i, Some c) \<Rightarrow>
          if c_identity_id c \<noteq> identity then Inl (Unauthenticated, ''unknown identity certificate'')
          else if i_role i \<noteq> expected_role \<or> i_revoked_at i \<noteq> None \<or> c_revoked_at c \<noteq> None \<or>
                  c_expires_at c \<le> now then
            Inl (PermissionDenied, ''identity certificate is not authorized'')
          else if c_state c = CertActive then Inr d
          else if deadline_passed now (c_activation_expires_at c) \<or>
                  (i_activated_at i = None \<and> deadline_passed now (i_activation_expires_at i)) then
            Inl (Unauthenticated, ''identity activation window expired'')
          else if \<not> unique_elsewhere d identity (c_serial c) fingerprint then Inl internal_status
          else append_audit (se_audit E) (activated_db d now identity fingerprint (c_serial c))
                 audit_id now (Some identity) (role_str expected_role) ''identity.activate'' (Some identity)
                 ''succeeded'' (JObj [(''certificate_fingerprint'', JStr fingerprint)])
      | _ \<Rightarrow> Inl (Unauthenticated, ''unknown identity certificate''))"

text \<open>\<^verbatim>\<open>activate_identity\<close> and \<^verbatim>\<open>activate_admin_identity\<close> differ in the role.\<close>

definition activate_identity ::
  "server_env \<Rightarrow> db \<Rightarrow> instant \<Rightarrow> string option \<Rightarrow> (32 word \<times> 32 word) option \<Rightarrow> string \<Rightarrow> identity_role \<Rightarrow>
   uuid \<Rightarrow> status + db" where
  "activate_identity E d now leaf protocol identity_text role audit_id =
     (case peer_certificate_fingerprint leaf of
        Inl e \<Rightarrow> Inl e
      | Inr fingerprint \<Rightarrow> (case validate_protocol protocol of
          Inl e \<Rightarrow> Inl e
        | Inr _ \<Rightarrow> (case parse_uuid E identity_text ''identity_id'' of
            Inl e \<Rightarrow> Inl e
          | Inr identity \<Rightarrow> activate_identity_certificate E d now identity fingerprint role audit_id)))"

definition renew_prepare ::
  "server_env \<Rightarrow> db \<Rightarrow> uuid \<Rightarrow> (32 word \<times> 32 word) option \<Rightarrow> bytes \<Rightarrow> identity_role \<Rightarrow>
   status + issued_certificate" where
  "renew_prepare E d identity protocol csr_pem kind =
     (case validate_protocol protocol of
        Inl e \<Rightarrow> Inl e
      | Inr _ \<Rightarrow> (case decode_csr csr_pem of
          Inl e \<Rightarrow> Inl e
        | Inr csr \<Rightarrow>
            (case find (\<lambda>i. i_id i = identity \<and> i_activated_at i \<noteq> None \<and> i_revoked_at i = None)
                (db_identities d) of
               None \<Rightarrow> Inl (PermissionDenied, ''identity is revoked, inactive, or missing'')
             | Some i \<Rightarrow> (case se_issue E csr (i_name i) identity kind of
                 None \<Rightarrow> Inl (InvalidArgument, ''invalid certificate request'')
               | Some issued \<Rightarrow> Inr issued))))"

definition renew_commit ::
  "server_env \<Rightarrow> db \<Rightarrow> instant \<Rightarrow> uuid \<Rightarrow> string \<Rightarrow> issued_certificate \<Rightarrow> identity_role \<Rightarrow> uuid \<Rightarrow> status + db"
where
  "renew_commit E d now identity presented_fingerprint issued kind audit_id =
     (if \<not> list_ex (\<lambda>c. c_identity_id c = identity \<and> c_fingerprint c = presented_fingerprint \<and>
            certificate_live now c) (db_certificates d) then
        Inl (Unauthenticated, ''certificate is no longer active'')
      else
        let activation_expires_at = now + IDENTITY_ACTIVATION_TTL in
        (case insert_certificate d \<lparr> c_fingerprint = is_fingerprint issued, c_identity_id = identity,
            c_serial = is_serial issued, c_state = CertPending,
            c_activation_expires_at = Some activation_expires_at, c_expires_at = is_expires_at issued,
            c_retire_at = None, c_revoked_at = None \<rparr> of
           Inl e \<Rightarrow> Inl e
         | Inr d \<Rightarrow> append_audit (se_audit E) d audit_id now (Some identity) (role_str kind)
             ''identity.certificate_renew_pending'' (Some identity) ''succeeded''
             (JObj [(''previous_fingerprint'', JStr presented_fingerprint),
                    (''pending_fingerprint'', JStr (is_fingerprint issued)),
                    (''activation_expires_at'', au_time (se_audit E) activation_expires_at)])))"

text \<open>\<^verbatim>\<open>renew_certificate\<close> and \<^verbatim>\<open>renew_admin_certificate\<close>, with \<^verbatim>\<open>renew_identity_certificate\<close>.\<close>

definition renew_certificate ::
  "server_env \<Rightarrow> db \<Rightarrow> instant \<Rightarrow> string option \<Rightarrow> (32 word \<times> 32 word) option \<Rightarrow> bytes \<Rightarrow> identity_role \<Rightarrow>
   uuid \<Rightarrow> status + issued_certificate \<times> db" where
  "renew_certificate E d now leaf protocol csr_pem role audit_id =
     (case peer_certificate_fingerprint leaf of
        Inl e \<Rightarrow> Inl e
      | Inr presented \<Rightarrow> (case authenticate d now leaf role of
          Inl e \<Rightarrow> Inl e
        | Inr identity \<Rightarrow> (case renew_prepare E d identity protocol csr_pem role of
            Inl e \<Rightarrow> Inl e
          | Inr issued \<Rightarrow> (case renew_commit E d now identity presented issued role audit_id of
              Inl e \<Rightarrow> Inl e
            | Inr d \<Rightarrow> Inr (issued, d)))))"

text \<open>The two UPDATEs that revoke a client identity and its certificates.\<close>

definition revocable :: "uuid \<Rightarrow> identity_row \<Rightarrow> bool" where
  "revocable identity i \<longleftrightarrow> i_id i = identity \<and> i_role i = RoleClient \<and> i_revoked_at i = None"

definition revoked_db :: "db \<Rightarrow> instant \<Rightarrow> uuid \<Rightarrow> string \<Rightarrow> db" where
  "revoked_db d now identity reason =
     d \<lparr> db_identities := update_where (revocable identity)
           (\<lambda>i. i \<lparr> i_revoked_at := Some now, i_revoked_reason := Some reason \<rparr>) (db_identities d),
         db_certificates := update_where (\<lambda>c. c_identity_id c = identity \<and> c_revoked_at c = None)
           (\<lambda>c. c \<lparr> c_revoked_at := Some now \<rparr>) (db_certificates d) \<rparr>"

definition replace_client_identity ::
  "server_env \<Rightarrow> db \<Rightarrow> instant \<Rightarrow> uuid \<Rightarrow> uuid \<Rightarrow> string \<Rightarrow> uuid \<Rightarrow> status + db" where
  "replace_client_identity E d now current replacement reason audit_id =
     (if current = replacement then Inl (InvalidArgument, ''replacement identity must be different'')
      else if \<not> list_ex (\<lambda>i. i_id i = replacement \<and> identity_live RoleClient i) (db_identities d) then
        Inl (FailedPrecondition, ''replacement client identity is not active'')
      else if rows_affected (revocable current) (db_identities d) \<noteq> 1 then
        Inl (Aborted, ''current client identity changed before replacement'')
      else append_audit (se_audit E) (revoked_db d now current reason) audit_id now (Some current) ''client''
             ''identity.replace'' (Some replacement) ''succeeded'' (JObj [(''reason'', JStr reason)]))"

definition replace_identity ::
  "server_env \<Rightarrow> db \<Rightarrow> instant \<Rightarrow> string option \<Rightarrow> (32 word \<times> 32 word) option \<Rightarrow> string \<Rightarrow> string \<Rightarrow> uuid \<Rightarrow>
   status + db" where
  "replace_identity E d now leaf protocol reason replacement_text audit_id =
     (case authenticate d now leaf RoleClient of
        Inl e \<Rightarrow> Inl e
      | Inr current \<Rightarrow> (case validate_protocol protocol of
          Inl e \<Rightarrow> Inl e
        | Inr _ \<Rightarrow> (case validate_name reason 512 of
            Inl e \<Rightarrow> Inl e
          | Inr _ \<Rightarrow> (case parse_uuid E replacement_text ''replacement_identity_id'' of
              Inl e \<Rightarrow> Inl e
            | Inr replacement \<Rightarrow> replace_client_identity E d now current replacement reason audit_id))))"

definition revoke_identity_commit ::
  "server_env \<Rightarrow> db \<Rightarrow> instant \<Rightarrow> uuid \<Rightarrow> uuid \<Rightarrow> string \<Rightarrow> uuid \<Rightarrow> status + db" where
  "revoke_identity_commit E d now actor identity_id reason audit_id =
     (case find_identity d identity_id of
        None \<Rightarrow> Inl (NotFound, ''identity not found'')
      | Some i \<Rightarrow>
          if i_role i \<noteq> RoleClient then
            Inl (PermissionDenied, ''Admin identities can be revoked only with centrald-server'')
          else if i_revoked_at i \<noteq> None then Inl (FailedPrecondition, ''identity is already revoked'')
          else if rows_affected (revocable identity_id) (db_identities d) \<noteq> 1 then
            Inl (Aborted, ''identity changed before revocation; refresh and try again'')
          else append_audit (se_audit E) (revoked_db d now identity_id reason) audit_id now (Some actor) ''admin''
                 ''identity.revoke'' (Some identity_id) ''succeeded'' (JObj [(''reason'', JStr reason)]))"

definition revoke_identity ::
  "server_env \<Rightarrow> db \<Rightarrow> instant \<Rightarrow> string option \<Rightarrow> string \<Rightarrow> string \<Rightarrow> uuid \<Rightarrow> status + db" where
  "revoke_identity E d now leaf reason identity_text audit_id =
     (case authenticate d now leaf RoleAdmin of
        Inl e \<Rightarrow> Inl e
      | Inr actor \<Rightarrow> (case validate_name reason 512 of
          Inl e \<Rightarrow> Inl e
        | Inr _ \<Rightarrow> (case parse_uuid E identity_text ''identity_id'' of
            Inl e \<Rightarrow> Inl e
          | Inr identity_id \<Rightarrow> revoke_identity_commit E d now actor identity_id reason audit_id)))"

section \<open>Client Hello\<close>

record client_hello =
  h_identity_id :: string
  h_protocol :: "(32 word \<times> 32 word) option"
  h_hostname :: string
  h_os :: string
  h_os_version :: string
  h_architecture :: string
  h_client_version :: string
  h_boot_id :: string
  h_capabilities :: "string list"

definition MAX_HELLO_HOSTNAME_BYTES :: nat where "MAX_HELLO_HOSTNAME_BYTES = 253"
definition MAX_HELLO_TEXT_BYTES :: nat where "MAX_HELLO_TEXT_BYTES = 256"
definition MAX_HELLO_CAPABILITIES :: nat where "MAX_HELLO_CAPABILITIES = 64"
definition MAX_HELLO_CAPABILITY_BYTES :: nat where "MAX_HELLO_CAPABILITY_BYTES = 64"

definition validate_hello_text :: "string \<Rightarrow> nat \<Rightarrow> string \<Rightarrow> status + unit" where
  "validate_hello_text value maximum field =
     (if value = [] \<or> length value > maximum \<or> has_control value
      then Inl (InvalidArgument, field @ '' is invalid'') else Inr ())"

definition allowed_hello_capability :: "bool \<Rightarrow> string \<Rightarrow> bool" where
  "allowed_hello_capability privileged name \<longleftrightarrow>
     name = ''heartbeat'' \<or> (privileged \<and> name = ''typed_jobs'')"

text \<open>The loop that fills the \<^verbatim>\<open>BTreeSet\<close>.\<close>

fun collect_capabilities :: "bool \<Rightarrow> string list \<Rightarrow> string list \<Rightarrow> status + string list" where
  "collect_capabilities privileged seen [] = Inr seen"
| "collect_capabilities privileged seen (c # cs) =
     (case validate_hello_text c MAX_HELLO_CAPABILITY_BYTES ''capability'' of
        Inl e \<Rightarrow> Inl e
      | Inr _ \<Rightarrow>
          if \<not> allowed_hello_capability privileged c then
            Inl (InvalidArgument, ''unsupported client capability '' @ c)
          else if c \<in> set seen then Inl (InvalidArgument, ''duplicate client capability'')
          else collect_capabilities privileged (insort c seen) cs)"

text \<open>The field checks in the order of the code, and the row the UPDATE writes.\<close>

definition validate_hello :: "bool \<Rightarrow> client_hello \<Rightarrow> status + string list" where
  "validate_hello privileged h =
     (case validate_protocol (h_protocol h) of
        Inl e \<Rightarrow> Inl e
      | Inr _ \<Rightarrow> (case validate_hello_text (h_hostname h) MAX_HELLO_HOSTNAME_BYTES ''hostname'' of
          Inl e \<Rightarrow> Inl e
        | Inr _ \<Rightarrow> (case validate_hello_text (h_os_version h) MAX_HELLO_TEXT_BYTES ''os_version'' of
            Inl e \<Rightarrow> Inl e
          | Inr _ \<Rightarrow> (case validate_hello_text (h_client_version h) MAX_HELLO_TEXT_BYTES ''client_version'' of
              Inl e \<Rightarrow> Inl e
            | Inr _ \<Rightarrow> (case validate_hello_text (h_boot_id h) MAX_HELLO_TEXT_BYTES ''boot_id'' of
                Inl e \<Rightarrow> Inl e
              | Inr _ \<Rightarrow>
                  if h_os h \<notin> {''linux'', ''windows''} then Inl (InvalidArgument, ''unsupported client OS'')
                  else if h_architecture h \<notin> {''x86_64'', ''aarch64''} then
                    Inl (InvalidArgument, ''unsupported client architecture'')
                  else if length (h_capabilities h) > MAX_HELLO_CAPABILITIES then
                    Inl (ResourceExhausted, ''too many client capabilities'')
                  else collect_capabilities privileged [] (h_capabilities h))))))"

definition handle_client_hello ::
  "server_env \<Rightarrow> bool \<Rightarrow> db \<Rightarrow> instant \<Rightarrow> uuid \<Rightarrow> client_hello \<Rightarrow> status + db" where
  "handle_client_hello E privileged d now identity h =
     (case parse_uuid E (h_identity_id h) ''identity_id'' of
        Inl e \<Rightarrow> Inl e
      | Inr claimed \<Rightarrow>
          if claimed \<noteq> identity then Inl (PermissionDenied, ''hello identity does not match certificate'')
          else (case validate_hello privileged h of
              Inl e \<Rightarrow> Inl e
            | Inr capabilities \<Rightarrow>
                Inr (d \<lparr> db_clients := update_where (\<lambda>c. cl_identity_id c = identity)
                  (\<lambda>c. c \<lparr> cl_hostname := h_hostname h, cl_os := h_os h, cl_os_version := h_os_version h,
                         cl_architecture := h_architecture h, cl_client_version := h_client_version h,
                         cl_capabilities := capabilities, cl_boot_id := h_boot_id h,
                         cl_last_seen := Some now \<rparr>) (db_clients d) \<rparr>)))"

section \<open>What the transactions commit\<close>

text \<open>\<open>d'\<close> is \<open>d\<close> with one entry appended to the audit chain.\<close>

definition audited :: "audit_env \<Rightarrow> db \<Rightarrow> db \<Rightarrow> bool" where
  "audited A d d' \<longleftrightarrow> (\<exists>i now actor label action target outcome metadata.
     append_audit A d i now actor label action target outcome metadata = Inr d')"

lemma auditedI: "append_audit A d i now ac al an t oc m = Inr d' \<Longrightarrow> audited A d d'"
  unfolding audited_def by blast

lemma audited_frame:
  assumes "audited A d d'"
  shows "db_identities d' = db_identities d" "db_certificates d' = db_certificates d"
    "db_keys d' = db_keys d" "db_clients d' = db_clients d" "db_jobs d' = db_jobs d"
    "db_events d' = db_events d"
  using assms by (auto simp: audited_def dest: append_audit_frame)

lemma audited_wf: "audited A d d' \<Longrightarrow> audit_wf A d \<Longrightarrow> audit_wf A d'"
  by (auto simp: audited_def intro: append_audit_wf)

lemma audited_ids: "audited A d d' \<Longrightarrow> distinct (map a_id (db_audit d)) \<Longrightarrow> distinct (map a_id (db_audit d'))"
  by (auto simp: audited_def intro: append_audit_ids)

lemma create_key_commits:
  assumes "create_key_commit E d now actor row audit_id = Inr d'"
  shows "k_id row \<notin> k_id ` set (db_keys d)"
    and "audited (se_audit E) (d \<lparr> db_keys := db_keys d @ [row] \<rparr>) d'"
  using assms by (auto simp: create_key_commit_def insert_key_def split: if_splits intro: auditedI)

lemma revoke_key_commits:
  assumes "revoke_key_commit E d now actor key reason audit_id = Inr d'"
  shows "audited (se_audit E) (d \<lparr> db_keys := update_where
     (\<lambda>k. k_id k = key \<and> k_role k = RoleClient \<and> key_usable now k)
     (\<lambda>k. k \<lparr> k_revoked_at := Some now, k_revoked_by := Some actor, k_revoked_reason := Some reason \<rparr>)
     (db_keys d) \<rparr>) d'"
  using assms by (auto simp: revoke_key_commit_def Let_def split: if_splits intro: auditedI)

text \<open>The rows a successful enrollment adds.\<close>

definition pending_identity ::
  "enroll_ticket \<Rightarrow> bytes option \<Rightarrow> uuid \<Rightarrow> issued_certificate \<Rightarrow> instant \<Rightarrow> identity_row" where
  "pending_identity t elevation i issued now =
     \<lparr> i_id = i, i_role = et_role t, i_name = ic_name (et_claims t), i_serial = Some (is_serial issued),
       i_fingerprint = Some (is_fingerprint issued), i_elevation_public_key = elevation,
       i_activated_at = None, i_activation_expires_at = Some (now + IDENTITY_ACTIVATION_TTL),
       i_revoked_at = None, i_revoked_reason = None \<rparr>"

definition pending_certificate :: "uuid \<Rightarrow> issued_certificate \<Rightarrow> instant \<Rightarrow> certificate_row" where
  "pending_certificate i issued now =
     \<lparr> c_fingerprint = is_fingerprint issued, c_identity_id = i, c_serial = is_serial issued,
       c_state = CertPending, c_activation_expires_at = Some (now + IDENTITY_ACTIVATION_TTL),
       c_expires_at = is_expires_at issued, c_retire_at = None, c_revoked_at = None \<rparr>"

definition enrolled_db ::
  "db \<Rightarrow> instant \<Rightarrow> enroll_ticket \<Rightarrow> bytes option \<Rightarrow> uuid \<Rightarrow> issued_certificate \<Rightarrow> client_row list \<Rightarrow> db" where
  "enrolled_db d now t elevation i issued clients =
     d \<lparr> db_identities := db_identities d @ [pending_identity t elevation i issued now],
         db_certificates := db_certificates d @ [pending_certificate i issued now],
         db_clients := db_clients d @ clients,
         db_keys := update_where (\<lambda>k. k_id k = ic_id (et_claims t) \<and> key_usable now k)
           (\<lambda>k. k \<lparr> k_consumed_at := Some now, k_consumed_by := Some i \<rparr>) (db_keys d) \<rparr>"

lemma enroll_commits:
  assumes "enroll_commit E d now t name elevation platform i audit_id = Inr (r, d')"
  obtains k issued clients where
    "find_key d (ic_id (et_claims t)) = Some k" "k_role k = et_role t" "key_usable now k"
    "et_role t \<noteq> RoleUnspecified" "i \<notin> i_id ` set (db_identities d)"
    "is_fingerprint issued \<notin> c_fingerprint ` set (db_certificates d)"
    "se_issue E (et_csr t) (ic_name (et_claims t)) i (et_role t) = Some issued"
    "r = (i, issued)" "\<forall>c \<in> set clients. cl_identity_id c = i" "length clients \<le> 1"
    "audited (se_audit E) (enrolled_db d now t elevation i issued clients) d'"
proof -
  obtain k where k: "find_key d (ic_id (et_claims t)) = Some k" "k_role k = et_role t" "key_usable now k"
      "et_role t \<noteq> RoleUnspecified"
    using assms by (auto simp: enroll_commit_def Let_def split: option.splits if_splits)
  moreover obtain issued where issued: "se_issue E (et_csr t) (ic_name (et_claims t)) i (et_role t) = Some issued"
    using assms k by (auto simp: enroll_commit_def Let_def split: option.splits if_splits)
  moreover have "i \<notin> i_id ` set (db_identities d)"
      "is_fingerprint issued \<notin> c_fingerprint ` set (db_certificates d)" "r = (i, issued)"
    using assms k issued
    by (auto simp: enroll_commit_def Let_def insert_identity_def insert_certificate_def
        split: if_splits option.splits sum.splits)
  moreover have "audited (se_audit E) (enrolled_db d now t elevation i issued
     (case platform of None \<Rightarrow> [] | Some (os, arch) \<Rightarrow> [\<lparr> cl_identity_id = i, cl_hostname = name, cl_os = os,
        cl_os_version = [], cl_architecture = arch, cl_client_version = se_version E,
        cl_capabilities = [], cl_boot_id = [], cl_last_seen = None \<rparr>])) d'"
    using assms k issued
    by (cases platform)
      (auto simp: enroll_commit_def Let_def insert_identity_def insert_certificate_def enrolled_db_def
        pending_identity_def pending_certificate_def split: if_splits sum.splits dest!: auditedI)
  ultimately show thesis by (intro that) (auto split: option.splits)
qed

lemma activate_commits:
  assumes "activate_identity_certificate E d now identity fp role audit_id = Inr d'"
  obtains (again) i c where "d' = d" "find_identity d identity = Some i" "find_certificate d fp = Some c"
    "c_identity_id c = identity" "c_state c = CertActive"
  | (fresh) i c where "find_identity d identity = Some i" "find_certificate d fp = Some c"
    "c_identity_id c = identity" "i_role i = role" "i_revoked_at i = None" "c_revoked_at c = None"
    "now < c_expires_at c" "c_state c = CertPending"
    "audited (se_audit E) (activated_db d now identity fp (c_serial c)) d'"
proof -
  obtain i c where f: "find_identity d identity = Some i" "find_certificate d fp = Some c"
    using assms by (auto simp: activate_identity_certificate_def split: option.splits)
  have g: "c_identity_id c = identity" "i_role i = role" "i_revoked_at i = None" "c_revoked_at c = None"
      "now < c_expires_at c"
    using assms f by (auto simp: activate_identity_certificate_def split: if_splits)
  show thesis
  proof (cases "c_state c")
    case CertActive
    with assms f g have "d' = d" by (simp add: activate_identity_certificate_def)
    with f g CertActive show thesis by (intro again)
  next
    case CertPending
    with assms f g have "audited (se_audit E) (activated_db d now identity fp (c_serial c)) d'"
      by (auto simp: activate_identity_certificate_def split: if_splits dest!: auditedI)
    with f g CertPending show thesis by (intro fresh)
  qed
qed

lemma renew_commits:
  assumes "renew_commit E d now identity fp issued kind audit_id = Inr d'"
  shows "is_fingerprint issued \<notin> c_fingerprint ` set (db_certificates d)"
    and "\<exists>c \<in> set (db_certificates d). c_identity_id c = identity"
    and "audited (se_audit E) (d \<lparr> db_certificates := db_certificates d @ [pending_certificate identity issued now] \<rparr>) d'"
  using assms
  by (auto simp: renew_commit_def Let_def insert_certificate_def pending_certificate_def list_ex_iff
      split: if_splits dest!: auditedI)

lemma replace_commits:
  assumes "replace_client_identity E d now current replacement reason audit_id = Inr d'"
  shows "audited (se_audit E) (revoked_db d now current reason) d'"
  using assms by (auto simp: replace_client_identity_def split: if_splits intro: auditedI)

lemma revoke_commits:
  assumes "revoke_identity_commit E d now actor identity reason audit_id = Inr d'"
  shows "audited (se_audit E) (revoked_db d now identity reason) d'"
  using assms by (auto simp: revoke_identity_commit_def split: if_splits option.splits intro: auditedI)

lemma hello_commits:
  assumes "handle_client_hello E privileged d now identity h = Inr d'"
  obtains f where "d' = d \<lparr> db_clients := update_where (\<lambda>c. cl_identity_id c = identity) f (db_clients d) \<rparr>"
    "\<And>c. cl_identity_id (f c) = cl_identity_id c"
  using assms by (auto simp: handle_client_hello_def split: sum.splits if_splits)

lemma authenticate_iff:
  "authenticate d now (Some fp) role = Inr identity \<longleftrightarrow>
     (\<exists>c i. find_certificate d fp = Some c \<and> find_identity d (c_identity_id c) = Some i \<and>
        certificate_live now c \<and> identity_live role i \<and> identity = i_id i)"
  by (auto simp: authenticate_def peer_certificate_fingerprint_def split: option.splits)

lemma authenticate_Inr:
  assumes "authenticate d now leaf role = Inr identity"
  obtains fp c i where "leaf = Some fp" "c \<in> set (db_certificates d)" "c_fingerprint c = fp"
    "c_identity_id c = identity" "certificate_live now c" "i \<in> set (db_identities d)" "i_id i = identity"
    "identity_live role i"
proof -
  obtain fp where "leaf = Some fp"
    using assms by (cases leaf) (auto simp: authenticate_def peer_certificate_fingerprint_def)
  with assms obtain c i where "find_certificate d fp = Some c" "find_identity d (c_identity_id c) = Some i"
      "certificate_live now c" "identity_live role i" "identity = i_id i"
    by (auto simp: authenticate_iff)
  with \<open>leaf = Some fp\<close> show thesis
    by (intro that [of fp c i]) (auto simp: find_certificate_def find_identity_def find_Some_iff)
qed

end
