(* ===== verification/Jobs.thy ===== *)
theory Jobs
  imports Identities
begin

text \<open>
  The job life cycle of \<^verbatim>\<open>centrald-server/src/services.rs\<close>: starting a job, its delivery with a signed
  grant on a heartbeat, the acknowledgement of the delivery, the job events, the event stream to the
  Admin, and the maintenance transaction. As in \<open>Identities\<close>, a handler that validates before it
  opens its transaction is split there, and \<open>Control_Plane\<close> interleaves the transactions. The crate
  constant \<^verbatim>\<open>PRIVILEGED_OPERATIONS_ENABLED\<close>, false in this release, is the argument \<open>privileged\<close>
  where the server reads it, so that the theorems also cover a build that enables jobs.
\<close>

section \<open>Environment\<close>

record ('sk, 'vk, 'sig) job_env =
  je_server :: server_env
  je_crypto :: "('sk, 'vk, 'sig) grant_crypto"
  je_signing_key :: 'sk
  je_sha_hex :: "bytes \<Rightarrow> string"
  je_uuid_text :: "uuid \<Rightarrow> string"
  je_job_ttl_seconds :: "32 word"
  je_updates_enabled :: bool
  je_manifest_url :: string
  je_channel :: json
  je_allow_prerelease :: bool
  je_show_time :: "instant \<Rightarrow> string"
  je_semver :: "string \<Rightarrow> string option"

definition MAX_PARAMETERS_BYTES :: nat where "MAX_PARAMETERS_BYTES = 16 * 1024"
definition MAX_JOB_EVENT_OUTPUT_BYTES :: nat where "MAX_JOB_EVENT_OUTPUT_BYTES = 64 * 1024"
definition MAX_JOB_RETAINED_OUTPUT_BYTES :: nat where "MAX_JOB_RETAINED_OUTPUT_BYTES = 1024 * 1024"
definition MAX_JOB_EVENTS :: nat where "MAX_JOB_EVENTS = 4096"
definition JOB_DELIVERY_LEASE_SECONDS :: int where "JOB_DELIVERY_LEASE_SECONDS = 60"
definition JOB_EXECUTION_START_LEASE_SECONDS :: int where "JOB_EXECUTION_START_LEASE_SECONDS = 60"
definition JOB_GRANT_VALIDITY_SECONDS :: int where "JOB_GRANT_VALIDITY_SECONDS = 960"

section \<open>Names\<close>

fun job_kind_name :: "job_kind \<Rightarrow> status + string" where
  "job_kind_name KindRestartClientService = Inr ''restart_client_service''"
| "job_kind_name KindRestartMachine = Inr ''restart_machine''"
| "job_kind_name KindCheckOsUpdates = Inr ''check_os_updates''"
| "job_kind_name KindApplyOsUpdates = Inr ''apply_os_updates''"
| "job_kind_name KindUpdateClient = Inr ''update_client''"
| "job_kind_name KindUnspecified = Inl (InvalidArgument, ''job kind is unsupported'')"

definition job_kind_from_name :: "string \<Rightarrow> job_kind" where
  "job_kind_from_name kind =
     (if kind = ''restart_client_service'' then KindRestartClientService
      else if kind = ''restart_machine'' then KindRestartMachine
      else if kind = ''check_os_updates'' then KindCheckOsUpdates
      else if kind = ''apply_os_updates'' then KindApplyOsUpdates
      else if kind = ''update_client'' then KindUpdateClient
      else KindUnspecified)"

text \<open>The column \<^verbatim>\<open>jobs.kind\<close> is kept as the enum; this is the text in it.\<close>

definition job_kind_text :: "job_kind \<Rightarrow> string" where
  "job_kind_text k = (case job_kind_name k of Inl _ \<Rightarrow> [] | Inr s \<Rightarrow> s)"

definition grant_operation :: "string \<Rightarrow> status + grant_operation" where
  "grant_operation kind =
     (if kind = ''restart_client_service'' then Inr RestartClientService
      else if kind = ''restart_machine'' then Inr RestartMachine
      else if kind = ''check_os_updates'' then Inr CheckOsUpdates
      else if kind = ''apply_os_updates'' then Inr ApplyOsUpdates
      else if kind = ''update_client'' then Inr UpdateClient
      else Inl (InvalidArgument, ''job cannot be authorized''))"

fun job_state_name :: "job_state \<Rightarrow> status + string" where
  "job_state_name Queued = Inr ''queued''"
| "job_state_name Dispatched = Inr ''dispatched''"
| "job_state_name Acknowledged = Inr ''acknowledged''"
| "job_state_name Running = Inr ''running''"
| "job_state_name Succeeded = Inr ''succeeded''"
| "job_state_name Failed = Inr ''failed''"
| "job_state_name Canceled = Inr ''canceled''"
| "job_state_name TimedOut = Inr ''timed_out''"
| "job_state_name StateUnspecified = Inl (InvalidArgument, ''job state is unsupported'')"

definition job_state_from_name :: "string \<Rightarrow> job_state" where
  "job_state_from_name s =
     (if s = ''queued'' then Queued
      else if s = ''dispatched'' then Dispatched
      else if s = ''acknowledged'' then Acknowledged
      else if s = ''running'' then Running
      else if s = ''succeeded'' then Succeeded
      else if s = ''failed'' then Failed
      else if s = ''canceled'' then Canceled
      else if s = ''timed_out'' then TimedOut
      else StateUnspecified)"

section \<open>Starting a job\<close>

definition find_job :: "db \<Rightarrow> uuid \<Rightarrow> job_row option" where
  "find_job d j = find (\<lambda>r. jb_id r = j) (db_jobs d)"

text \<open>
  \<open>snapshot\<close> is the version and time of the newest unexpired \<^verbatim>\<open>server_release_manifest\<close> row of
  \<^verbatim>\<open>update_snapshots\<close>; \<open>je_semver\<close> parses a version to its canonical text.
\<close>

definition approve_client_update_parameters ::
  "('sk, 'vk, 'sig) job_env \<Rightarrow> (string \<times> instant) option \<Rightarrow> json \<Rightarrow> status + json" where
  "approve_client_update_parameters J snapshot requested =
     (if \<not> je_updates_enabled J then
        Inl (FailedPrecondition, ''release updates are disabled on this server'')
      else (case Option.bind (case json_get ''expected_version'' requested of
                    None \<Rightarrow> json_get ''expectedVersion'' requested
                  | Some v \<Rightarrow> Some v) json_as_str of
          None \<Rightarrow> Inl (InvalidArgument, ''update-client jobs require an expected_version the operator approved'')
        | Some expected_version \<Rightarrow>
            if expected_version = [] then
              Inl (InvalidArgument, ''update-client jobs require an expected_version the operator approved'')
            else (case je_semver J expected_version of
                None \<Rightarrow> Inl (InvalidArgument, ''expected_version is not a semantic version'')
              | Some pinned \<Rightarrow> (case snapshot of
                  None \<Rightarrow> Inl (FailedPrecondition, ''the server has not verified a release manifest yet; enable updates and wait for a check'')
                | Some (verified_version, verified_at) \<Rightarrow> (case je_semver J verified_version of
                    None \<Rightarrow> Inl (FailedPrecondition, ''the verified release snapshot is invalid'')
                  | Some verified \<Rightarrow>
                      if pinned \<noteq> verified then
                        Inl (FailedPrecondition, ''the approved version must match the server-verified version '' @
                          verified @ '' (checked at '' @ je_show_time J verified_at @ '')'')
                      else Inr (JObj [(''manifest_url'', JStr (je_manifest_url J)),
                             (''channel'', je_channel J),
                             (''allow_prerelease'', JBool (je_allow_prerelease J)),
                             (''expected_version'', JStr expected_version)]))))))"

record start_job_request =
  sj_request_id :: string
  sj_target_id :: string
  sj_kind :: "job_kind option"
  sj_reason :: string
  sj_parameters_json :: bytes

definition job_parameters ::
  "('sk, 'vk, 'sig) job_env \<Rightarrow> (string \<times> instant) option \<Rightarrow> job_kind \<Rightarrow> bytes \<Rightarrow> status + json" where
  "job_parameters J snapshot kind raw =
     (if length raw > MAX_PARAMETERS_BYTES then Inl (InvalidArgument, ''job parameters are too large'')
      else (case (if raw = [] then Some (JObj []) else au_from_slice (se_audit (je_server J)) raw) of
          None \<Rightarrow> Inl (InvalidArgument, ''parameters_json is invalid JSON'')
        | Some parameters \<Rightarrow>
            if kind = KindUpdateClient then approve_client_update_parameters J snapshot parameters
            else Inr parameters))"

text \<open>Everything before the transaction; the result is the row to insert.\<close>

definition start_job_prepare ::
  "('sk, 'vk, 'sig) job_env \<Rightarrow> (string \<times> instant) option \<Rightarrow> instant \<Rightarrow> uuid \<Rightarrow> start_job_request \<Rightarrow> uuid \<Rightarrow> status + job_row"
where
  "start_job_prepare J snapshot now actor request i =
     (case parse_uuid (je_server J) (sj_request_id request) ''request_id'' of
        Inl e \<Rightarrow> Inl e
      | Inr request_id \<Rightarrow> (case parse_uuid (je_server J) (sj_target_id request) ''target_id'' of
          Inl e \<Rightarrow> Inl e
        | Inr target_id \<Rightarrow> (case sj_kind request of
            None \<Rightarrow> Inl (InvalidArgument, ''invalid job kind'')
          | Some kind \<Rightarrow> (case job_kind_name kind of
              Inl e \<Rightarrow> Inl e
            | Inr kind_name \<Rightarrow> (case validate_name (sj_reason request) 512 of
                Inl e \<Rightarrow> Inl e
              | Inr _ \<Rightarrow> (case job_parameters J snapshot kind (sj_parameters_json request) of
                  Inl e \<Rightarrow> Inl e
                | Inr parameters \<Rightarrow>
                    Inr \<lparr> jb_id = i, jb_request_id = request_id, jb_target_id = target_id,
                          jb_actor_id = actor, jb_kind = kind, jb_state = Queued,
                          jb_parameters = parameters, jb_reason = sj_reason request,
                          jb_idempotency_key = request_id, jb_delivery_id = None,
                          jb_delivery_lease = None, jb_execution_start = None,
                          jb_expires_at = now + secs (uint (je_job_ttl_seconds J)),
                          jb_created_at = now \<rparr>))))))"

definition supports_typed_jobs :: "db \<Rightarrow> uuid \<Rightarrow> bool" where
  "supports_typed_jobs d identity =
     (case find (\<lambda>c. cl_identity_id c = identity) (db_clients d) of
        None \<Rightarrow> False
      | Some c \<Rightarrow> ''typed_jobs'' \<in> set (cl_capabilities c))"

text \<open>
  \<^verbatim>\<open>INSERT ... ON CONFLICT (actor_id, request_id) DO UPDATE ... RETURNING\<close>: the row that is there
  afterwards. The other UNIQUE constraint, on the idempotency key, is over the same values. The
  foreign keys to \<^verbatim>\<open>identities\<close> are the last guard.
\<close>

definition upsert_job :: "db \<Rightarrow> job_row \<Rightarrow> status + job_row \<times> db" where
  "upsert_job d r =
     (case find (\<lambda>j. jb_actor_id j = jb_actor_id r \<and> jb_request_id j = jb_request_id r) (db_jobs d) of
        Some old \<Rightarrow> Inr (old, d)
      | None \<Rightarrow>
          if jb_id r \<in> set (map jb_id (db_jobs d)) \<or>
             find_identity d (jb_target_id r) = None \<or> find_identity d (jb_actor_id r) = None
          then Inl internal_status
          else Inr (r, d \<lparr> db_jobs := db_jobs d @ [r] \<rparr>))"

definition start_job_commit ::
  "('sk, 'vk, 'sig) job_env \<Rightarrow> db \<Rightarrow> instant \<Rightarrow> job_row \<Rightarrow> uuid \<Rightarrow> status + job_row \<times> db" where
  "start_job_commit J d now r audit_id =
     (if \<not> list_ex (\<lambda>i. i_id i = jb_target_id r \<and> identity_live RoleClient i) (db_identities d) then
        Inl (NotFound, ''active client target not found'')
      else if \<not> supports_typed_jobs d (jb_target_id r) then
        Inl (FailedPrecondition, ''client privileged job execution is unavailable until the broker is enabled'')
      else (case upsert_job d r of
          Inl e \<Rightarrow> Inl e
        | Inr (row, d) \<Rightarrow>
            if jb_target_id row \<noteq> jb_target_id r \<or> jb_kind row \<noteq> jb_kind r \<or>
               jb_parameters row \<noteq> jb_parameters r \<or> jb_reason row \<noteq> jb_reason r \<or>
               jb_idempotency_key row \<noteq> jb_idempotency_key r then
              Inl (AlreadyExists, ''request_id was already used for a different job'')
            else (case append_audit (se_audit (je_server J)) d audit_id now (Some (jb_actor_id r)) ''admin''
                ''job.start'' (Some (jb_target_id r)) ''succeeded''
                (JObj [(''job_id'', au_uuid (se_audit (je_server J)) (jb_id row)),
                       (''kind'', JStr (job_kind_text (jb_kind r)))]) of
                Inl e \<Rightarrow> Inl e
              | Inr d \<Rightarrow> Inr (row, d))))"

definition start_job ::
  "('sk, 'vk, 'sig) job_env \<Rightarrow> bool \<Rightarrow> db \<Rightarrow> instant \<Rightarrow> string option \<Rightarrow> (string \<times> instant) option \<Rightarrow> start_job_request \<Rightarrow>
   uuid \<Rightarrow> uuid \<Rightarrow> status + job_row \<times> db" where
  "start_job J privileged d now leaf snapshot request i audit_id =
     (if \<not> privileged then
        Inl (FailedPrecondition, ''privileged client jobs are unavailable in this alpha release'')
      else (case authenticate d now leaf RoleAdmin of
          Inl e \<Rightarrow> Inl e
        | Inr actor \<Rightarrow> (case start_job_prepare J snapshot now actor request i of
            Inl e \<Rightarrow> Inl e
          | Inr r \<Rightarrow> start_job_commit J d now r audit_id)))"

section \<open>Delivery\<close>

record job_message =
  jm_id :: uuid
  jm_target_id :: uuid
  jm_kind :: job_kind
  jm_state :: job_state
  jm_parameters_json :: bytes
  jm_idempotency_key :: uuid
  jm_expires_at :: instant
  jm_delivery_id :: uuid

text \<open>The oldest queued job of the target that has not expired.\<close>

definition next_queued :: "db \<Rightarrow> instant \<Rightarrow> uuid \<Rightarrow> job_row option" where
  "next_queued d now identity =
     (case sort_key jb_created_at
        (filter (\<lambda>j. jb_target_id j = identity \<and> jb_state j = Queued \<and> jb_expires_at j > now) (db_jobs d)) of
        [] \<Rightarrow> None | j # _ \<Rightarrow> Some j)"

definition dispatched_event :: "uuid \<Rightarrow> job_event_row" where
  "dispatched_event job = \<lparr> ev_job_id = job, ev_sequence = 0, ev_state = Dispatched, ev_output = [],
     ev_stderr = False, ev_exit_code = None, ev_terminal = False \<rparr>"

definition claimed_db :: "db \<Rightarrow> instant \<Rightarrow> uuid \<Rightarrow> uuid \<Rightarrow> db" where
  "claimed_db d now job delivery_id =
     d \<lparr> db_jobs := update_where (\<lambda>j. jb_id j = job)
           (\<lambda>j. j \<lparr> jb_state := Dispatched, jb_delivery_id := Some delivery_id,
                  jb_delivery_lease := Some (now + secs JOB_DELIVERY_LEASE_SECONDS) \<rparr>) (db_jobs d),
         db_events := (if (job, 0) \<in> set (map (\<lambda>e. (ev_job_id e, ev_sequence e)) (db_events d))
                       then db_events d else db_events d @ [dispatched_event job]) \<rparr>"

definition job_grant ::
  "('sk, 'vk, 'sig) job_env \<Rightarrow> instant \<Rightarrow> uuid \<Rightarrow> job_row \<Rightarrow> grant_operation \<Rightarrow> bytes \<Rightarrow> uuid \<Rightarrow> uuid \<Rightarrow> privileged_grant"
where
  "job_grant J now identity j operation parameters_bytes grant_id delivery_id =
     \<lparr> g_id = grant_id, g_device_id = identity, g_job_or_session_id = jb_id j, g_admin_id = jb_actor_id j,
       g_operation = operation, g_parameters_sha256 = je_sha_hex J parameters_bytes,
       g_issued_at = now - secs 5, g_expires_at = now + secs JOB_GRANT_VALIDITY_SECONDS,
       g_nonce = je_uuid_text J delivery_id \<rparr>"

text \<open>The transaction commits before the grant is made, so an error leaves the job dispatched.\<close>

definition claim_next_job ::
  "('sk, 'vk, 'sig) job_env \<Rightarrow> db \<Rightarrow> instant \<Rightarrow> uuid \<Rightarrow> uuid \<Rightarrow> uuid \<Rightarrow>
   (status + (job_message \<times> signed_grant) option) \<times> db" where
  "claim_next_job J d now identity delivery_id grant_id =
     (if \<not> supports_typed_jobs d identity then (Inr None, d)
      else (case next_queued d now identity of
          None \<Rightarrow> (Inr None, d)
        | Some j \<Rightarrow>
            let d = claimed_db d now (jb_id j) delivery_id;
                parameters_bytes = au_to_vec (se_audit (je_server J)) (jb_parameters j);
                kind = job_kind_text (jb_kind j);
                message = \<lparr> jm_id = jb_id j, jm_target_id = identity, jm_kind = job_kind_from_name kind,
                  jm_state = Dispatched, jm_parameters_json = parameters_bytes,
                  jm_idempotency_key = jb_idempotency_key j, jm_expires_at = jb_expires_at j,
                  jm_delivery_id = delivery_id \<rparr>
            in (case grant_operation kind of
                  Inl e \<Rightarrow> (Inl e, d)
                | Inr operation \<Rightarrow>
                    (case sign (je_crypto J)
                        (job_grant J now identity j operation parameters_bytes grant_id delivery_id)
                        (je_signing_key J) of
                       Inl _ \<Rightarrow> (Inl internal_status, d)
                     | Inr sgrant \<Rightarrow> (Inr (Some (message, sgrant)), d)))))"

definition acknowledge_job_delivery ::
  "server_env \<Rightarrow> db \<Rightarrow> instant \<Rightarrow> uuid \<Rightarrow> string \<Rightarrow> string \<Rightarrow> status + db" where
  "acknowledge_job_delivery E d now identity job_text delivery_text =
     (case parse_uuid E job_text ''job_id'' of
        Inl e \<Rightarrow> Inl e
      | Inr job_id \<Rightarrow> (case parse_uuid E delivery_text ''delivery_id'' of
          Inl e \<Rightarrow> Inl e
        | Inr delivery_id \<Rightarrow> (case find_job d job_id of
            None \<Rightarrow> Inl (NotFound, ''job does not exist'')
          | Some j \<Rightarrow>
              if jb_target_id j \<noteq> identity then Inl (PermissionDenied, ''job does not belong to client'')
              else if jb_state j \<noteq> Dispatched \<or> jb_delivery_id j \<noteq> Some delivery_id \<or>
                      deadline_passed now (jb_delivery_lease j) \<or> jb_expires_at j \<le> now then
                Inl (FailedPrecondition, ''job delivery lease is not active'')
              else Inr (d \<lparr> db_jobs := update_where (\<lambda>j. jb_id j = job_id)
                     (\<lambda>j. j \<lparr> jb_state := Acknowledged, jb_delivery_id := None, jb_delivery_lease := None,
                            jb_execution_start := Some (now + secs JOB_EXECUTION_START_LEASE_SECONDS) \<rparr>)
                     (db_jobs d) \<rparr>))))"

section \<open>Job events\<close>

text \<open>An integer as \<^verbatim>\<open>format!\<close> prints it.\<close>

fun nat_text :: "nat \<Rightarrow> string" where
  "nat_text n = (if n < 10 then [char_of (48 + n)] else nat_text (n div 10) @ [char_of (48 + n mod 10)])"

declare nat_text.simps [simp del]

definition int_text :: "int \<Rightarrow> string" where
  "int_text i = (if i < 0 then ''-'' @ nat_text (nat (- i)) else nat_text (nat i))"

record job_event =
  jv_job_id :: string
  jv_sequence :: "64 word"
  jv_state :: "job_state option"
  jv_output :: bytes
  jv_stderr :: bool
  jv_exit_code :: "32 word"
  jv_terminal :: bool

definition validate_job_event_shape :: "job_state \<Rightarrow> bool \<Rightarrow> 32 word \<Rightarrow> status + unit" where
  "validate_job_event_shape state terminal exit_code =
     (let terminal_state = is_terminal_job_state state in
      if terminal \<noteq> terminal_state then
        Inl (InvalidArgument, ''terminal flag must exactly match a terminal job state'')
      else if terminal_state then
        (if state = Succeeded \<and> exit_code \<noteq> 0 then
           Inl (InvalidArgument, ''a succeeded job must report exit code zero'')
         else Inr ())
      else if exit_code \<noteq> 0 then
        Inl (InvalidArgument, ''non-terminal job events must not report an exit code'')
      else Inr ())"

definition state_text :: "job_state \<Rightarrow> string" where
  "state_text s = (case job_state_name s of Inl _ \<Rightarrow> ''unknown'' | Inr t \<Rightarrow> t)"

definition validate_job_transition :: "job_state \<Rightarrow> job_state \<Rightarrow> status + unit" where
  "validate_job_transition current next_state =
     (if current \<in> {Acknowledged, Running} \<and> next_state \<in> {Running, Succeeded, Failed} then Inr ()
      else Inl (FailedPrecondition, ''invalid job state transition from '' @ state_text current @
                '' to '' @ state_text next_state))"

definition events_of :: "db \<Rightarrow> uuid \<Rightarrow> job_event_row list" where
  "events_of d job = filter (\<lambda>e. ev_job_id e = job) (db_events d)"

text \<open>\<^verbatim>\<open>COALESCE(MAX(sequence), -1) + 1\<close> and the sum of the retained output.\<close>

definition expected_sequence :: "db \<Rightarrow> uuid \<Rightarrow> int" where
  "expected_sequence d job = fold max (map ev_sequence (events_of d job)) (- 1) + 1"

definition retained_bytes :: "db \<Rightarrow> uuid \<Rightarrow> nat" where
  "retained_bytes d job = sum_list (map (\<lambda>e. length (ev_output e)) (events_of d job))"

definition persisted_db :: "db \<Rightarrow> uuid \<Rightarrow> job_event_row \<Rightarrow> db" where
  "persisted_db d job e =
     d \<lparr> db_jobs := update_where (\<lambda>j. jb_id j = job)
           (\<lambda>j. j \<lparr> jb_state := ev_state e, jb_execution_start := None \<rparr>) (db_jobs d),
         db_events := db_events d @ [e] \<rparr>"

definition persist_job_event ::
  "server_env \<Rightarrow> db \<Rightarrow> instant \<Rightarrow> uuid \<Rightarrow> job_event \<Rightarrow> status + db" where
  "persist_job_event E d now identity event =
     (case parse_uuid E (jv_job_id event) ''job_id'' of
        Inl e \<Rightarrow> Inl e
      | Inr job_id \<Rightarrow>
          if 2 ^ 63 \<le> uint (jv_sequence event) then Inl (InvalidArgument, ''sequence too large'')
          else if length (jv_output event) > MAX_JOB_EVENT_OUTPUT_BYTES then
            Inl (ResourceExhausted, ''job event output exceeds the per-event limit'')
          else (case jv_state event of
              None \<Rightarrow> Inl (InvalidArgument, ''invalid job state'')
            | Some next_state \<Rightarrow> (case job_state_name next_state of
                Inl e \<Rightarrow> Inl e
              | Inr _ \<Rightarrow>
                (case validate_job_event_shape next_state (jv_terminal event) (jv_exit_code event) of
                  Inl e \<Rightarrow> Inl e
                | Inr _ \<Rightarrow> (case find_job d job_id of
                    None \<Rightarrow> Inl (NotFound, ''job does not exist'')
                  | Some j \<Rightarrow>
                      if jb_target_id j \<noteq> identity then
                        Inl (PermissionDenied, ''job does not belong to client'')
                      else if jb_expires_at j \<le> now then Inl (FailedPrecondition, ''job has expired'')
                      else if jb_state j = Acknowledged \<and> deadline_passed now (jb_execution_start j) then
                        Inl (FailedPrecondition, ''job execution-start lease expired before the first event'')
                      else (case validate_job_transition (jb_state j) next_state of
                          Inl e \<Rightarrow> Inl e
                        | Inr _ \<Rightarrow>
                            if list_ex ev_terminal (events_of d job_id) \<or> is_terminal_job_state (jb_state j) then
                              Inl (FailedPrecondition, ''job is already terminal'')
                            else if uint (jv_sequence event) \<noteq> expected_sequence d job_id then
                              Inl (FailedPrecondition, ''job event sequence must be '' @
                                int_text (expected_sequence d job_id))
                            else if length (events_of d job_id) \<ge> MAX_JOB_EVENTS then
                              Inl (ResourceExhausted, ''job event count limit reached'')
                            else if retained_bytes d job_id + length (jv_output event) >
                                    MAX_JOB_RETAINED_OUTPUT_BYTES then
                              Inl (ResourceExhausted, ''job retained output limit reached'')
                            else Inr (persisted_db d job_id
                                   \<lparr> ev_job_id = job_id, ev_sequence = uint (jv_sequence event),
                                     ev_state = next_state, ev_output = jv_output event,
                                     ev_stderr = jv_stderr event,
                                     ev_exit_code = Some (jv_exit_code event),
                                     ev_terminal = jv_terminal event \<rparr>)))))))"

section \<open>Client frames\<close>

datatype client_payload = Heartbeat | JobDeliveryAck string string | JobEventFrame job_event
  | HelloFrame client_hello | NoPayload

datatype server_payload = HeartbeatAck | SignedGrant signed_grant | JobFrame job_message

text \<open>
  \<^verbatim>\<open>handle_client_frame\<close> without its shell branch: the result, the frames sent in order (the
  receiver of the stream being there), the database. The heartbeat UPDATE and the claim are two
  transactions.
\<close>

definition heartbeat_db :: "db \<Rightarrow> instant \<Rightarrow> uuid \<Rightarrow> db" where
  "heartbeat_db d now identity =
     d \<lparr> db_clients := update_where (\<lambda>c. cl_identity_id c = identity)
           (\<lambda>c. c \<lparr> cl_last_seen := Some now \<rparr>) (db_clients d) \<rparr>"

definition handle_client_frame ::
  "('sk, 'vk, 'sig) job_env \<Rightarrow> db \<Rightarrow> instant \<Rightarrow> uuid \<Rightarrow> client_payload \<Rightarrow> uuid \<Rightarrow> uuid \<Rightarrow>
   (status + server_payload list) \<times> db" where
  "handle_client_frame J d now identity frame delivery_id grant_id =
     (case frame of
        Heartbeat \<Rightarrow>
          (case claim_next_job J (heartbeat_db d now identity) now identity delivery_id grant_id of
             (Inl e, d) \<Rightarrow> (Inl e, d)
           | (Inr None, d) \<Rightarrow> (Inr [HeartbeatAck], d)
           | (Inr (Some (message, sgrant)), d) \<Rightarrow> (Inr [HeartbeatAck, SignedGrant sgrant, JobFrame message], d))
      | JobDeliveryAck job delivery \<Rightarrow>
          (case acknowledge_job_delivery (je_server J) d now identity job delivery of
             Inl e \<Rightarrow> (Inl e, d) | Inr d \<Rightarrow> (Inr [], d))
      | JobEventFrame event \<Rightarrow>
          (case persist_job_event (je_server J) d now identity event of
             Inl e \<Rightarrow> (Inl e, d) | Inr d \<Rightarrow> (Inr [], d))
      | HelloFrame _ \<Rightarrow> (Inl (FailedPrecondition, ''client Hello may be sent only once''), d)
      | NoPayload \<Rightarrow> (Inl (InvalidArgument, ''empty client frame''), d))"

section \<open>Maintenance\<close>

definition open_state :: "job_state \<Rightarrow> bool" where
  "open_state s \<longleftrightarrow> s \<in> {Queued, Dispatched, Acknowledged, Running}"

definition delivery_lapsed :: "instant \<Rightarrow> job_row \<Rightarrow> bool" where
  "delivery_lapsed now j \<longleftrightarrow> jb_state j = Dispatched \<and>
     (\<exists>t \<in> set_option (jb_delivery_lease j). t \<le> now) \<and> jb_expires_at j > now"

definition start_lapsed :: "instant \<Rightarrow> job_row \<Rightarrow> bool" where
  "start_lapsed now j \<longleftrightarrow> jb_state j = Acknowledged \<and>
     (\<exists>t \<in> set_option (jb_execution_start j). t \<le> now) \<and> jb_expires_at j > now"

definition requeue_undelivered :: "instant \<Rightarrow> job_row list \<Rightarrow> job_row list" where
  "requeue_undelivered now jobs =
     update_where (delivery_lapsed now)
       (\<lambda>j. j \<lparr> jb_state := Queued, jb_delivery_id := None, jb_delivery_lease := None \<rparr>) jobs"

definition requeue_unstarted :: "instant \<Rightarrow> job_row list \<Rightarrow> job_row list" where
  "requeue_unstarted now jobs =
     update_where (start_lapsed now)
       (\<lambda>j. j \<lparr> jb_state := Queued, jb_execution_start := None \<rparr>) jobs"

definition job_expired :: "instant \<Rightarrow> job_row \<Rightarrow> bool" where
  "job_expired now j \<longleftrightarrow> open_state (jb_state j) \<and> jb_expires_at j \<le> now"

definition timed_out_event :: "db \<Rightarrow> uuid \<Rightarrow> job_event_row" where
  "timed_out_event d job = \<lparr> ev_job_id = job, ev_sequence = expected_sequence d job, ev_state = TimedOut,
     ev_output = [], ev_stderr = False, ev_exit_code = None, ev_terminal = True \<rparr>"

definition expire_jobs :: "instant \<Rightarrow> db \<Rightarrow> db" where
  "expire_jobs now d =
     d \<lparr> db_jobs := update_where (job_expired now)
           (\<lambda>j. j \<lparr> jb_state := TimedOut, jb_delivery_id := None, jb_delivery_lease := None,
                  jb_execution_start := None \<rparr>) (db_jobs d),
         db_events := db_events d @ map (timed_out_event d) (map jb_id (filter (job_expired now) (db_jobs d))) \<rparr>"

definition unactivated :: "instant \<Rightarrow> identity_row \<Rightarrow> bool" where
  "unactivated now i \<longleftrightarrow> i_activated_at i = None \<and> (\<exists>t \<in> set_option (i_activation_expires_at i). t \<le> now)"

text \<open>The deletion fails when a job still refers to a deleted identity (no ON DELETE action there).\<close>

definition maintenance_once :: "db \<Rightarrow> instant \<Rightarrow> status + db" where
  "maintenance_once d now =
     (let d = expire_jobs now (d \<lparr> db_jobs := requeue_unstarted now (requeue_undelivered now (db_jobs d)) \<rparr>);
          gone = set (map i_id (filter (unactivated now) (db_identities d))) in
      if list_ex (\<lambda>j. jb_target_id j \<in> gone \<or> jb_actor_id j \<in> gone) (db_jobs d) then Inl internal_status
      else
        let d = delete_identities (unactivated now) d in
        Inr (d \<lparr> db_certificates := filter (\<lambda>c. \<not> (c_state c = CertPending \<and>
               (\<exists>t \<in> set_option (c_activation_expires_at c). t \<le> now))) (db_certificates d) \<rparr>))"

section \<open>The event stream\<close>

text \<open>One turn of the loop of \<^verbatim>\<open>stream_job\<close>: the events sent, and how it goes on.\<close>

datatype stream_next = StreamMore int | StreamEnd | StreamFail status

definition stream_window :: "db \<Rightarrow> uuid \<Rightarrow> int \<Rightarrow> job_event_row list" where
  "stream_window d job nxt =
     take 128 (sort_key ev_sequence (filter (\<lambda>e. ev_sequence e \<ge> nxt) (events_of d job)))"

definition stream_open ::
  "server_env \<Rightarrow> db \<Rightarrow> instant \<Rightarrow> string option \<Rightarrow> bool \<Rightarrow> string \<Rightarrow> 64 word \<Rightarrow>
   status + (uuid \<times> string \<times> uuid \<times> instant \<times> int)" where
  "stream_open E d now leaf permit job_text from_sequence =
     (case peer_certificate_fingerprint leaf of
        Inl e \<Rightarrow> Inl e
      | Inr fingerprint \<Rightarrow> (case authenticate d now leaf RoleAdmin of
          Inl e \<Rightarrow> Inl e
        | Inr actor \<Rightarrow>
            if \<not> permit then Inl (ResourceExhausted, ''too many concurrent Admin job streams'')
            else (case parse_uuid E job_text ''job_id'' of
                Inl e \<Rightarrow> Inl e
              | Inr job \<Rightarrow>
                  if 2 ^ 63 \<le> uint from_sequence then Inl (InvalidArgument, ''from_sequence is too large'')
                  else (case find_job d job of
                      None \<Rightarrow> Inl (NotFound, ''job does not exist'')
                    | Some j \<Rightarrow> Inr (actor, fingerprint, job, jb_expires_at j + secs (5 * 60), uint from_sequence)))))"

definition stream_turn ::
  "db \<Rightarrow> instant \<Rightarrow> uuid \<Rightarrow> string \<Rightarrow> uuid \<Rightarrow> instant \<Rightarrow> bool \<Rightarrow> bool \<Rightarrow> int \<Rightarrow> job_event_row list \<times> stream_next" where
  "stream_turn d now actor fingerprint job deadline follow reauthorize nxt =
     (if now > deadline then ([], StreamFail (DeadlineExceeded, ''job stream lifetime ended''))
      else (case (if reauthorize then authorize_existing_identity d now actor fingerprint RoleAdmin else Inr ()) of
          Inl e \<Rightarrow> ([], StreamFail e)
        | Inr _ \<Rightarrow>
            let rows = stream_window d job nxt in
            (rows, if list_ex ev_terminal rows \<or> \<not> follow then StreamEnd
                   else StreamMore (if rows = [] then nxt else ev_sequence (last rows) + 1))))"

text \<open>The loop: each turn sees the database, clock and re-authorization tick of its time.\<close>

fun stream_loop ::
  "uuid \<Rightarrow> string \<Rightarrow> uuid \<Rightarrow> instant \<Rightarrow> bool \<Rightarrow> int \<Rightarrow> (db \<times> instant \<times> bool) list \<Rightarrow> job_event_row list \<times> stream_next" where
  "stream_loop actor fingerprint job deadline follow nxt [] = ([], StreamMore nxt)"
| "stream_loop actor fingerprint job deadline follow nxt ((d, now, reauthorize) # turns) =
     (case stream_turn d now actor fingerprint job deadline follow reauthorize nxt of
        (rows, StreamMore n) \<Rightarrow>
          (let (rest, r) = stream_loop actor fingerprint job deadline follow n turns in (rows @ rest, r))
      | (rows, r) \<Rightarrow> (rows, r))"

end
