(* ===== verification/Runs.thy ===== *)
theory Runs
  imports CentralD_Prelude
begin

text \<open>
  Runs of a labelled step relation, invariants along them, and the contract of a token that may be
  used once: the interface the enrollment keys of the server and the elevation challenges share.
\<close>

section \<open>Runs\<close>

inductive steps :: "('s \<Rightarrow> 'l \<Rightarrow> 's \<Rightarrow> bool) \<Rightarrow> 's \<Rightarrow> 'l list \<Rightarrow> 's \<Rightarrow> bool" for R where
  stop: "steps R s [] s"
| step: "R s l s' \<Longrightarrow> steps R s' ls s'' \<Longrightarrow> steps R s (l # ls) s''"

inductive_cases steps_ConsE: "steps R s (l # ls) s'"

lemma steps_Nil [simp]: "steps R s [] s' \<longleftrightarrow> s' = s"
  by (auto elim: steps.cases intro: steps.intros)

lemma steps_Cons: "steps R s (l # ls) s'' \<longleftrightarrow> (\<exists>s'. R s l s' \<and> steps R s' ls s'')"
  by (auto elim: steps_ConsE intro: steps.intros)

lemma steps_append: "steps R s (ks @ ls) s'' \<longleftrightarrow> (\<exists>s'. steps R s ks s' \<and> steps R s' ls s'')"
  by (induction ks arbitrary: s) (auto simp: steps_Cons)

lemma steps_restrict:
  "steps R s ls s' \<Longrightarrow> \<forall>l \<in> set ls. Q l \<Longrightarrow> steps (\<lambda>s l s'. R s l s' \<and> Q l) s ls s'"
  by (induction rule: steps.induct) (auto intro: steps.intros)

section \<open>Systems with an invariant\<close>

locale guarded_system =
  fixes R :: "'s \<Rightarrow> 'l \<Rightarrow> 's \<Rightarrow> bool" and I :: "'s \<Rightarrow> bool"
  assumes inv_step: "I s \<Longrightarrow> R s l s' \<Longrightarrow> I s'"
begin

lemma inv_steps: "steps R s ls s' \<Longrightarrow> I s \<Longrightarrow> I s'"
  by (induction rule: steps.induct) (auto intro: inv_step)

text \<open>A property that every step with an allowed label keeps in the states of the invariant.\<close>

lemma kept:
  assumes "\<And>s l s'. I s \<Longrightarrow> P s \<Longrightarrow> R s l s' \<Longrightarrow> l \<in> L \<Longrightarrow> P s'"
  shows "steps R s ls s' \<Longrightarrow> I s \<Longrightarrow> P s \<Longrightarrow> set ls \<subseteq> L \<Longrightarrow> P s'"
  by (induction rule: steps.induct) (auto intro: assms inv_step)

text \<open>A label that no step from such a state has.\<close>

lemma never:
  assumes "\<And>s l s'. I s \<Longrightarrow> P s \<Longrightarrow> R s l s' \<Longrightarrow> P s'"
    and "\<And>s l s'. I s \<Longrightarrow> P s \<Longrightarrow> R s l s' \<Longrightarrow> \<not> bad l"
  shows "steps R s ls s' \<Longrightarrow> I s \<Longrightarrow> P s \<Longrightarrow> \<forall>l \<in> set ls. \<not> bad l"
proof (induction rule: steps.induct)
  case (step s l s' ls s'')
  then show ?case using assms(1,2) inv_step by (metis set_ConsD)
qed simp

end

section \<open>Tokens that are used once\<close>

locale one_shot = guarded_system +
  fixes spent :: "'a \<Rightarrow> bool" and uses :: "'b \<Rightarrow> bool"
  assumes spent_step: "I s \<Longrightarrow> spent s \<Longrightarrow> R s l s' \<Longrightarrow> spent s'"
    and use_unspent: "I s \<Longrightarrow> R s l s' \<Longrightarrow> uses l \<Longrightarrow> \<not> spent s"
    and use_spends: "I s \<Longrightarrow> R s l s' \<Longrightarrow> uses l \<Longrightarrow> spent s'"
begin

lemma no_use_when_spent: "steps R s ls s' \<Longrightarrow> I s \<Longrightarrow> spent s \<Longrightarrow> filter uses ls = []"
  by (induction rule: steps.induct) (auto dest: use_unspent spent_step inv_step)

lemma used_at_most_once: "steps R s ls s' \<Longrightarrow> I s \<Longrightarrow> length (filter uses ls) \<le> 1"
proof (induction rule: steps.induct)
  case (step s l s' ls s'')
  have I: "I s'" using step.prems step.hyps(1) by (rule inv_step)
  show ?case
  proof (cases "uses l")
    case True
    then have "filter uses ls = []"
      using no_use_when_spent [OF step.hyps(2) I] use_spends [OF step.prems step.hyps(1)] by blast
    with True show ?thesis by simp
  qed (use step.IH [OF I] in simp)
qed simp

end

end
