(* ===== verification/Control_Plane.thy ===== *)
theory Control_Plane
  imports Jobs Runs
begin

text \<open>
  The server as a transition system. A step is one committed transaction of \<open>Identities\<close> or \<open>Jobs\<close>,
  with arguments that were validated at any earlier time, so every interleaving of concurrent RPC
  handlers is a sequence of steps. \<open>server_inv\<close> collects the CHECK, key and foreign-key constraints
  of the schema and the shape of each job's event history.
\<close>

section \<open>Invariant\<close>

definition activated :: "db \<Rightarrow> uuid \<Rightarrow> bool" where
  "activated d i \<longleftrightarrow> (\<exists>r \<in> set (db_identities d). i_id r = i \<and> i_activated_at r \<noteq> None)"

definition ident_inv :: "db \<Rightarrow> bool" where
  "ident_inv d \<longleftrightarrow>
     list_all identity_check (db_identities d) \<and> distinct (map i_id (db_identities d)) \<and>
     list_all certificate_check (db_certificates d) \<and> distinct (map c_fingerprint (db_certificates d)) \<and>
     (\<forall>c \<in> set (db_certificates d). c_identity_id c \<in> i_id ` set (db_identities d)) \<and>
     list_all key_check (db_keys d) \<and> distinct (map k_id (db_keys d)) \<and>
     (\<forall>c \<in> set (db_clients d). cl_identity_id c \<in> i_id ` set (db_identities d)) \<and>
     distinct (map cl_identity_id (db_clients d))"

text \<open>
  The events of a job against its state: numbered from 0 without a gap, terminal at most at the end,
  bounded in number and size, and ending where the state says.
\<close>

definition history_ok :: "job_state \<Rightarrow> job_event_row list \<Rightarrow> bool" where
  "history_ok s es \<longleftrightarrow>
     map ev_sequence es = map int [0..<length es] \<and> (\<forall>e \<in> set (butlast es). \<not> ev_terminal e) \<and>
     length es \<le> MAX_JOB_EVENTS + (if is_terminal_job_state s then 1 else 0) \<and>
     sum_list (map (\<lambda>e. length (ev_output e)) es) \<le> MAX_JOB_RETAINED_OUTPUT_BYTES \<and>
     (if es = [] then s = Queued
      else if ev_terminal (last es) then s = ev_state (last es)
      else if ev_state (last es) = Running then s = Running
      else length es = 1 \<and> ev_state (last es) = Dispatched \<and> s \<in> {Queued, Dispatched, Acknowledged})"

definition job_inv :: "db \<Rightarrow> bool" where
  "job_inv d \<longleftrightarrow>
     list_all job_check (db_jobs d) \<and> distinct (map jb_id (db_jobs d)) \<and>
     distinct (map (\<lambda>j. (jb_actor_id j, jb_request_id j)) (db_jobs d)) \<and>
     list_all event_check (db_events d) \<and>
     (\<forall>e \<in> set (db_events d). ev_job_id e \<in> jb_id ` set (db_jobs d)) \<and>
     (\<forall>j \<in> set (db_jobs d). history_ok (jb_state j) (events_of d (jb_id j)))"

definition parties_inv :: "db \<Rightarrow> bool" where
  "parties_inv d \<longleftrightarrow> (\<forall>j \<in> set (db_jobs d). activated d (jb_target_id j) \<and> activated d (jb_actor_id j))"

definition server_inv :: "db \<Rightarrow> bool" where
  "server_inv d \<longleftrightarrow> ident_inv d \<and> job_inv d \<and> parties_inv d \<and> distinct (map a_id (db_audit d))"

section \<open>Steps\<close>

datatype server_label = Enrolled uuid uuid identity_role | Claimed uuid | EventStored uuid job_state | Other

inductive server_step ::
  "('sk, 'vk, 'sig) job_env \<Rightarrow> bool \<Rightarrow> db \<Rightarrow> server_label \<Rightarrow> db \<Rightarrow> bool" for J privileged where
  create_key: "create_key_prepare (je_server J) t role name ttl i secret salt permit = Inr (key, row) \<Longrightarrow>
    create_key_commit (je_server J) d now actor row audit_id = Inr d' \<Longrightarrow> server_step J privileged d Other d'"
| revoke_key: "revoke_key_commit (je_server J) d now actor key_id reason audit_id = Inr d' \<Longrightarrow>
    server_step J privileged d Other d'"
| enroll: "enroll_commit (je_server J) d now t name elevation platform i audit_id = Inr (r, d') \<Longrightarrow>
    server_step J privileged d (Enrolled (ic_id (et_claims t)) i (et_role t)) d'"
| activate: "activate_identity_certificate (je_server J) d now identity fp role audit_id = Inr d' \<Longrightarrow>
    server_step J privileged d Other d'"
| renew: "renew_commit (je_server J) d now identity fp issued kind audit_id = Inr d' \<Longrightarrow>
    server_step J privileged d Other d'"
| replace: "replace_client_identity (je_server J) d now current replacement reason audit_id = Inr d' \<Longrightarrow>
    server_step J privileged d Other d'"
| revoke: "revoke_identity_commit (je_server J) d now actor identity reason audit_id = Inr d' \<Longrightarrow>
    server_step J privileged d Other d'"
| hello: "handle_client_hello (je_server J) privileged d now identity h = Inr d' \<Longrightarrow>
    server_step J privileged d Other d'"
| heartbeat: "server_step J privileged d Other (heartbeat_db d now identity)"
| start: "privileged \<Longrightarrow> activated d actor \<Longrightarrow> start_job_prepare J snapshot t actor request i = Inr row \<Longrightarrow>
    start_job_commit J d now row audit_id = Inr (stored, d') \<Longrightarrow> server_step J privileged d Other d'"
| claim: "claim_next_job J d now identity delivery_id grant_id = (r, d') \<Longrightarrow>
    server_step J privileged d
      (case next_queued d now identity of
         Some j \<Rightarrow> if supports_typed_jobs d identity then Claimed (jb_id j) else Other
       | None \<Rightarrow> Other) d'"
| acknowledge: "acknowledge_job_delivery (je_server J) d now identity job delivery = Inr d' \<Longrightarrow>
    server_step J privileged d Other d'"
| event: "persist_job_event (je_server J) d now identity ev = Inr d' \<Longrightarrow>
    parse_uuid (je_server J) (jv_job_id ev) ''job_id'' = Inr job \<Longrightarrow> jv_state ev = Some s \<Longrightarrow>
    server_step J privileged d (EventStored job s) d'"
| maintain: "maintenance_once d now = Inr d' \<Longrightarrow> server_step J privileged d Other d'"
| audit: "audited (se_audit (je_server J)) d d' \<Longrightarrow> server_step J privileged d Other d'"

text \<open>A run and the labels of its steps.\<close>

abbreviation server_run ::
  "('sk, 'vk, 'sig) job_env \<Rightarrow> bool \<Rightarrow> db \<Rightarrow> server_label list \<Rightarrow> db \<Rightarrow> bool" where
  "server_run J privileged \<equiv> steps (server_step J privileged)"

section \<open>Preservation: identities\<close>

lemmas inv_defs = ident_inv_def job_inv_def parties_inv_def activated_def events_of_def

lemma server_inv_audited:
  assumes "server_inv d" and "audited A d d'"
  shows "server_inv d'"
  using assms(1) audited_ids [OF assms(2)] audited_frame [OF assms(2)]
  by (simp add: server_inv_def inv_defs)

lemma job_inv_frame:
  "db_jobs d' = db_jobs d \<Longrightarrow> db_events d' = db_events d \<Longrightarrow> job_inv d' = job_inv d"
  by (simp add: inv_defs)

lemma parties_frame:
  assumes "parties_inv d" "db_jobs d' = db_jobs d" "\<And>i. activated d i \<Longrightarrow> activated d' i"
  shows "parties_inv d'"
  using assms by (simp add: parties_inv_def)

lemma prepared_key:
  assumes "create_key_prepare E t role name ttl i secret salt permit = Inr (key, row)"
  shows "k_role row = RoleClient" "k_consumed_at row = None" "key_check row"
  using assms
  by (auto simp: create_key_prepare_def Let_def key_check_def split: option.splits if_splits sum.splits)

lemma server_inv_add_key:
  assumes "server_inv d" "key_check row" "k_id row \<notin> k_id ` set (db_keys d)"
  shows "server_inv (d \<lparr> db_keys := db_keys d @ [row] \<rparr>)"
  using assms by (auto simp: server_inv_def inv_defs)

lemma server_inv_update_keys:
  assumes "server_inv d" "\<And>k. k_id (f k) = k_id k" "\<And>k. key_check k \<Longrightarrow> P k \<Longrightarrow> key_check (f k)"
  shows "server_inv (d \<lparr> db_keys := update_where P f (db_keys d) \<rparr>)"
  using assms
  by (auto simp: server_inv_def inv_defs map_update_where intro: list_all_update_where)

lemma server_inv_add_cert:
  assumes "server_inv d" "certificate_check row" "c_fingerprint row \<notin> c_fingerprint ` set (db_certificates d)"
    "c_identity_id row \<in> i_id ` set (db_identities d)"
  shows "server_inv (d \<lparr> db_certificates := db_certificates d @ [row] \<rparr>)"
  using assms by (auto simp: server_inv_def inv_defs)

lemma server_inv_update_certs:
  assumes "server_inv d" "\<And>c. c_fingerprint (f c) = c_fingerprint c" "\<And>c. c_identity_id (f c) = c_identity_id c"
    "\<And>c. certificate_check c \<Longrightarrow> P c \<Longrightarrow> certificate_check (f c)"
  shows "server_inv (d \<lparr> db_certificates := update_where P f (db_certificates d) \<rparr>)"
  using assms
  by (auto simp: server_inv_def inv_defs map_update_where set_update_where intro: list_all_update_where)

lemma ball_update_where:
  "(\<forall>r \<in> set (update_where P f rows). Q r) \<longleftrightarrow> (\<forall>r \<in> set rows. Q (if P r then f r else r))"
  by (induction rows) auto

lemma image_update_where: "(\<And>r. g (f r) = g r) \<Longrightarrow> g ` set (update_where P f rows) = g ` set rows"
  by (metis list.set_map map_update_where)

lemma server_inv_update_identities:
  assumes "server_inv d" "\<And>i. i_id (f i) = i_id i" "\<And>i. identity_check i \<Longrightarrow> P i \<Longrightarrow> identity_check (f i)"
    "\<And>i. i_activated_at i \<noteq> None \<Longrightarrow> i_activated_at (f i) \<noteq> None"
  shows "server_inv (d \<lparr> db_identities := update_where P f (db_identities d) \<rparr>)"
proof -
  let ?d = "d \<lparr> db_identities := update_where P f (db_identities d) \<rparr>"
  have inv: "ident_inv d" "job_inv d" "parties_inv d" using assms(1) by (simp_all add: server_inv_def)
  have act: "activated ?d i" if i: "activated d i" for i
  proof -
    obtain r where r: "r \<in> set (db_identities d)" "i_id r = i" "i_activated_at r \<noteq> None"
      using i by (auto simp: activated_def)
    then have "(if P r then f r else r) \<in> set (db_identities ?d)" by (simp add: set_update_where)
    moreover have "i_id (if P r then f r else r) = i" "i_activated_at (if P r then f r else r) \<noteq> None"
      using r assms(2,4) by simp_all
    ultimately show ?thesis unfolding activated_def by blast
  qed
  have "list_all identity_check (db_identities ?d)"
    using inv(1) assms(3) by (simp add: ident_inv_def list_all_update_where)
  then have "ident_inv ?d"
    using inv(1) assms(2) by (simp add: ident_inv_def map_update_where image_update_where)
  moreover have "job_inv ?d" using inv(2) job_inv_frame [of ?d d] by simp
  moreover have "parties_inv ?d" using parties_frame [OF inv(3), of ?d] act by simp
  ultimately show ?thesis using assms(1) by (simp add: server_inv_def)
qed

lemma server_inv_add_identity:
  assumes "server_inv d" "identity_check row" "i_id row \<notin> i_id ` set (db_identities d)"
  shows "server_inv (d \<lparr> db_identities := db_identities d @ [row] \<rparr>)"
  using assms by (auto simp: server_inv_def inv_defs)

lemma server_inv_add_clients:
  assumes "server_inv d" "\<forall>c \<in> set cs. cl_identity_id c = i" "length cs \<le> 1"
    "i \<in> i_id ` set (db_identities d)" "i \<notin> cl_identity_id ` set (db_clients d)"
  shows "server_inv (d \<lparr> db_clients := db_clients d @ cs \<rparr>)"
  using assms by (cases cs) (auto simp: server_inv_def inv_defs)

lemma server_inv_update_clients:
  assumes "server_inv d" "\<And>c. cl_identity_id (f c) = cl_identity_id c"
  shows "server_inv (d \<lparr> db_clients := update_where P f (db_clients d) \<rparr>)"
  using assms
  by (auto simp: server_inv_def inv_defs map_update_where set_update_where)

lemma server_inv_enrolled:
  assumes "server_inv d" "et_role t \<noteq> RoleUnspecified" "i \<notin> i_id ` set (db_identities d)"
    "is_fingerprint issued \<notin> c_fingerprint ` set (db_certificates d)"
    "\<forall>c \<in> set clients. cl_identity_id c = i" "length clients \<le> 1"
  shows "server_inv (enrolled_db d now t elevation i issued clients)"
proof -
  let ?d1 = "d \<lparr> db_identities := db_identities d @ [pending_identity t elevation i issued now] \<rparr>"
  let ?d2 = "?d1 \<lparr> db_certificates := db_certificates ?d1 @ [pending_certificate i issued now] \<rparr>"
  let ?d3 = "?d2 \<lparr> db_clients := db_clients ?d2 @ clients \<rparr>"
  have "et_role t \<in> {RoleClient, RoleAdmin}" using assms(2) by (cases "et_role t") auto
  then have 1: "server_inv ?d1"
    by (intro server_inv_add_identity [OF assms(1)])
      (use assms(3) in \<open>auto simp: pending_identity_def identity_check_def\<close>)
  have 2: "server_inv ?d2"
    by (rule server_inv_add_cert [OF 1])
      (use assms(4) in \<open>auto simp: pending_certificate_def certificate_check_def pending_identity_def\<close>)
  have "i \<notin> cl_identity_id ` set (db_clients d)"
    using assms(1,3) by (auto simp: server_inv_def ident_inv_def)
  then have 3: "server_inv ?d3"
    by (intro server_inv_add_clients [OF 2 assms(5,6)]) (auto simp: pending_identity_def)
  have "server_inv (?d3 \<lparr> db_keys := update_where (\<lambda>k. k_id k = ic_id (et_claims t) \<and> key_usable now k)
      (\<lambda>k. k \<lparr> k_consumed_at := Some now, k_consumed_by := Some i \<rparr>) (db_keys ?d3) \<rparr>)"
    by (rule server_inv_update_keys [OF 3]) (auto simp: key_check_def key_usable_def)
  then show ?thesis by (simp add: enrolled_db_def)
qed

lemma server_inv_activated:
  assumes "server_inv d"
  shows "server_inv (activated_db d now identity fp serial)"
proof -
  let ?f = "\<lambda>c. c \<lparr> c_state := CertActive, c_activation_expires_at := None, c_retire_at := None \<rparr>"
  let ?d1 = "d \<lparr> db_certificates := update_where (\<lambda>c. c_identity_id c = identity \<and> c_fingerprint c \<noteq> fp \<and>
        c_state c = CertActive \<and> c_revoked_at c = None \<and> c_expires_at c > now)
      (retire_certificate now) (db_certificates d) \<rparr>"
  let ?d2 = "?d1 \<lparr> db_certificates := update_where (\<lambda>c. c_identity_id c = identity \<and> c_fingerprint c = fp)
      ?f (db_certificates ?d1) \<rparr>"
  have 1: "server_inv ?d1"
    by (rule server_inv_update_certs [OF assms]) (auto simp: retire_certificate_def certificate_check_def)
  have 2: "server_inv ?d2"
    by (rule server_inv_update_certs [OF 1]) (auto simp: certificate_check_def)
  have "server_inv (?d2 \<lparr> db_identities := update_where (\<lambda>i. i_id i = identity)
      (\<lambda>i. i \<lparr> i_activated_at := (case i_activated_at i of None \<Rightarrow> Some now | Some t \<Rightarrow> Some t),
             i_activation_expires_at := None, i_serial := Some serial, i_fingerprint := Some fp \<rparr>)
      (db_identities ?d2) \<rparr>)"
    by (rule server_inv_update_identities [OF 2]) (auto simp: identity_check_def split: option.splits)
  then show ?thesis by (simp add: activated_db_def)
qed

lemma server_inv_revoked:
  assumes "server_inv d"
  shows "server_inv (revoked_db d now identity reason)"
proof -
  let ?d1 = "d \<lparr> db_identities := update_where (revocable identity)
      (\<lambda>i. i \<lparr> i_revoked_at := Some now, i_revoked_reason := Some reason \<rparr>) (db_identities d) \<rparr>"
  have 1: "server_inv ?d1"
    by (rule server_inv_update_identities [OF assms]) (auto simp: identity_check_def)
  have "server_inv (?d1 \<lparr> db_certificates := update_where (\<lambda>c. c_identity_id c = identity \<and> c_revoked_at c = None)
      (\<lambda>c. c \<lparr> c_revoked_at := Some now \<rparr>) (db_certificates ?d1) \<rparr>)"
    by (rule server_inv_update_certs [OF 1]) (auto simp: certificate_check_def)
  then show ?thesis by (simp add: revoked_db_def)
qed

section \<open>Preservation: jobs\<close>

lemma fold_max_upt: "fold max (map int [0..<n]) (- 1) = int n - 1"
  by (induction n) auto

lemma history_expected:
  "history_ok s (events_of d job) \<Longrightarrow> expected_sequence d job = int (length (events_of d job))"
  by (simp add: expected_sequence_def history_ok_def fold_max_upt)

lemma history_hd: "history_ok s es \<Longrightarrow> es \<noteq> [] \<Longrightarrow> ev_sequence (hd es) = 0"
  by (cases es) (auto simp: history_ok_def upt_conv_Cons simp del: upt_Suc)

lemma history_snoc:
  assumes "history_ok s es" "\<forall>e \<in> set es. \<not> ev_terminal e" "ev_sequence e = int (length es)"
    "length es < MAX_JOB_EVENTS + (if is_terminal_job_state s' then 1 else 0)"
    "sum_list (map (\<lambda>e. length (ev_output e)) es) + length (ev_output e) \<le> MAX_JOB_RETAINED_OUTPUT_BYTES"
    "ev_terminal e \<or> ev_state e = Running \<or> (es = [] \<and> ev_state e = Dispatched \<and> s' = Dispatched)" "s' = ev_state e"
  shows "history_ok s' (es @ [e])"
  using assms by (auto simp: history_ok_def)

lemma history_open:
  assumes "history_ok s es" "\<not> is_terminal_job_state s" "list_all event_check es"
  shows "\<forall>e \<in> set es. \<not> ev_terminal e"
proof (cases es rule: rev_cases)
  case (snoc es' e)
  with assms have "event_check e" by simp
  with assms snoc show ?thesis by (auto simp: history_ok_def event_check_def)
qed simp

lemma history_waiting:
  assumes "history_ok s es" "s \<in> {Queued, Dispatched, Acknowledged}" "list_all event_check es"
    "s' \<in> {Queued, Dispatched, Acknowledged}" "es \<noteq> [] \<or> s' = Queued"
  shows "history_ok s' es"
proof -
  have "\<forall>e \<in> set es. \<not> ev_terminal e"
    using assms(2) by (intro history_open [OF assms(1) _ assms(3)]) (auto simp: is_terminal_job_state_def)
  then show ?thesis
    using assms by (auto simp: history_ok_def is_terminal_job_state_def split: if_splits)
qed

lemma events_of_checked: "job_inv d \<Longrightarrow> list_all event_check (events_of d job)"
  by (auto simp: job_inv_def events_of_def list_all_iff)

lemma job_historyD:
  assumes "job_inv d" "j \<in> set (db_jobs d)"
  shows "history_ok (jb_state j) (events_of d (jb_id j))" "job_check j"
  using assms by (auto simp: job_inv_def list_all_iff)

text \<open>The transaction that updates the row of one job and appends events of it.\<close>

lemma job_inv_update:
  assumes inv: "job_inv d" and j: "j \<in> set (db_jobs d)"
    and key: "\<And>r. jb_id (f r) = jb_id r" "\<And>r. jb_actor_id (f r) = jb_actor_id r"
      "\<And>r. jb_request_id (f r) = jb_request_id r"
    and ok: "job_check (f j)" "list_all (\<lambda>e. ev_job_id e = jb_id j \<and> event_check e) es"
      "history_ok (jb_state (f j)) (events_of d (jb_id j) @ es)"
  shows "job_inv (d \<lparr> db_jobs := update_where (\<lambda>r. jb_id r = jb_id j) f (db_jobs d),
    db_events := db_events d @ es \<rparr>)" (is "job_inv ?d")
proof -
  have same: "r = j" if "r \<in> set (db_jobs d)" "jb_id r = jb_id j" for r
    using that inv j by (auto simp: job_inv_def distinct_map inj_on_def)
  have es: "events_of ?d k = events_of d k @ (if k = jb_id j then es else [])" for k
    using ok(2) by (auto simp: events_of_def list_all_iff filter_empty_conv)
  have "\<forall>r \<in> set (db_jobs ?d). history_ok (jb_state r) (events_of ?d (jb_id r))"
  proof
    fix r assume "r \<in> set (db_jobs ?d)"
    then obtain r' where r': "r' \<in> set (db_jobs d)" "r = (if jb_id r' = jb_id j then f r' else r')"
      by (auto simp: set_update_where)
    then consider "r = f j" | "r \<in> set (db_jobs d)" "jb_id r \<noteq> jb_id j"
      using same by (cases "jb_id r' = jb_id j") auto
    then show "history_ok (jb_state r) (events_of ?d (jb_id r))"
      by cases (use ok(3) job_historyD(1) [OF inv] es key in simp_all)
  qed
  moreover have "jb_id ` set (db_jobs ?d) = jb_id ` set (db_jobs d)"
    using key(1) by (simp add: image_update_where)
  moreover have "list_all job_check (db_jobs ?d)"
    using inv ok(1) same by (auto simp: job_inv_def list_all_iff set_update_where)
  moreover have "list_all event_check (db_events ?d)" "\<forall>e \<in> set es. ev_job_id e \<in> jb_id ` set (db_jobs d)"
    using inv ok(2) j by (auto simp: job_inv_def list_all_iff)
  ultimately show ?thesis
    using inv key by (auto simp: job_inv_def map_update_where)
qed

lemma server_inv_job:
  assumes "server_inv d" "job_inv (d \<lparr> db_jobs := js, db_events := es \<rparr>)"
    "\<forall>j \<in> set js. activated d (jb_target_id j) \<and> activated d (jb_actor_id j)"
  shows "server_inv (d \<lparr> db_jobs := js, db_events := es \<rparr>)"
  using assms by (simp add: server_inv_def ident_inv_def parties_inv_def activated_def)

lemma parties_update:
  assumes "server_inv d" "\<And>r. jb_target_id (f r) = jb_target_id r" "\<And>r. jb_actor_id (f r) = jb_actor_id r"
  shows "\<forall>j \<in> set (update_where P f (db_jobs d)). activated d (jb_target_id j) \<and> activated d (jb_actor_id j)"
  using assms by (auto simp: server_inv_def parties_inv_def set_update_where)

lemma find_job_Some: "find_job d job = Some j \<Longrightarrow> j \<in> set (db_jobs d) \<and> jb_id j = job"
  by (auto simp: find_job_def find_Some_iff)

lemma first_in_set: "(case xs of [] \<Rightarrow> None | x # _ \<Rightarrow> Some x) = Some y \<Longrightarrow> y \<in> set xs"
  by (cases xs) auto

lemma next_queued_Some:
  assumes "next_queued d now identity = Some j"
  shows "j \<in> set (db_jobs d)" "jb_state j = Queued" "jb_target_id j = identity" "now < jb_expires_at j"
  using first_in_set [OF assms [unfolded next_queued_def]] by simp_all

lemma server_inv_claimed:
  assumes "server_inv d" "j \<in> set (db_jobs d)" "jb_state j = Queued"
  shows "server_inv (claimed_db d now (jb_id j) delivery_id)"
proof -
  let ?es = "events_of d (jb_id j)"
  let ?f = "\<lambda>r. r \<lparr> jb_state := Dispatched, jb_delivery_id := Some delivery_id,
      jb_delivery_lease := Some (now + secs JOB_DELIVERY_LEASE_SECONDS) \<rparr>"
  let ?new = "if ?es = [] then [dispatched_event (jb_id j)] else []"
  have inv: "job_inv d" using assms(1) by (simp add: server_inv_def)
  note h = job_historyD [OF inv assms(2)]
  have "(jb_id j, 0) \<in> set (map (\<lambda>e. (ev_job_id e, ev_sequence e)) (db_events d)) \<longleftrightarrow> ?es \<noteq> []"
  proof
    assume "?es \<noteq> []"
    then have "hd ?es \<in> set (db_events d)" "ev_job_id (hd ?es) = jb_id j"
      using hd_in_set [of ?es] by (auto simp: events_of_def)
    then show "(jb_id j, 0) \<in> set (map (\<lambda>e. (ev_job_id e, ev_sequence e)) (db_events d))"
      using history_hd [OF h(1) \<open>?es \<noteq> []\<close>] by force
  qed (auto simp: events_of_def filter_empty_conv)
  then have eq: "claimed_db d now (jb_id j) delivery_id =
    d \<lparr> db_jobs := update_where (\<lambda>r. jb_id r = jb_id j) ?f (db_jobs d), db_events := db_events d @ ?new \<rparr>"
    by (simp add: claimed_db_def)
  have "job_inv (d \<lparr> db_jobs := update_where (\<lambda>r. jb_id r = jb_id j) ?f (db_jobs d),
      db_events := db_events d @ ?new \<rparr>)"
  proof (rule job_inv_update [OF inv assms(2)])
    show "job_check (?f j)" using h(2) assms(3) by (simp add: job_check_def)
    show "list_all (\<lambda>e. ev_job_id e = jb_id j \<and> event_check e) ?new"
      by (simp add: dispatched_event_def event_check_def is_terminal_job_state_def)
    show "history_ok (jb_state (?f j)) (?es @ ?new)"
    proof (cases "?es = []")
      case True
      then show ?thesis
        by (simp add: history_ok_def dispatched_event_def is_terminal_job_state_def MAX_JOB_EVENTS_def)
    next
      case False
      then show ?thesis
        using history_waiting [OF h(1) _ events_of_checked [OF inv], of Dispatched] assms(3) by simp
    qed
  qed simp_all
  then show ?thesis
    unfolding eq by (rule server_inv_job [OF assms(1)]) (rule parties_update [OF assms(1)]; simp)
qed

lemma claim_commits:
  assumes "claim_next_job J d now identity delivery_id grant_id = (r, d')"
  shows "d' = d \<or> (\<exists>j. next_queued d now identity = Some j \<and> supports_typed_jobs d identity \<and>
    d' = claimed_db d now (jb_id j) delivery_id)"
  using assms
  by (auto simp: claim_next_job_def Let_def split: if_splits option.splits sum.splits)

lemma acknowledge_commits:
  assumes "acknowledge_job_delivery E d now identity job delivery = Inr d'"
  obtains j where "j \<in> set (db_jobs d)" "jb_state j = Dispatched" "jb_target_id j = identity"
    "d' = d \<lparr> db_jobs := update_where (\<lambda>r. jb_id r = jb_id j)
       (\<lambda>r. r \<lparr> jb_state := Acknowledged, jb_delivery_id := None, jb_delivery_lease := None,
              jb_execution_start := Some (now + secs JOB_EXECUTION_START_LEASE_SECONDS) \<rparr>) (db_jobs d) \<rparr>"
  using assms
  by (auto simp: acknowledge_job_delivery_def split: sum.splits option.splits if_splits dest!: find_job_Some)

lemma server_inv_acknowledge:
  assumes "server_inv d" "acknowledge_job_delivery E d now identity job delivery = Inr d'"
  shows "server_inv d'"
  using assms(2)
proof (rule acknowledge_commits)
  fix j
  let ?f = "\<lambda>r. r \<lparr> jb_state := Acknowledged, jb_delivery_id := None, jb_delivery_lease := None,
    jb_execution_start := Some (now + secs JOB_EXECUTION_START_LEASE_SECONDS) \<rparr>"
  assume j: "j \<in> set (db_jobs d)" "jb_state j = Dispatched"
    and d': "d' = d \<lparr> db_jobs := update_where (\<lambda>r. jb_id r = jb_id j) ?f (db_jobs d) \<rparr>"
  have inv: "job_inv d" using assms(1) by (simp add: server_inv_def)
  note h = job_historyD [OF inv j(1)]
  have "job_inv (d \<lparr> db_jobs := update_where (\<lambda>r. jb_id r = jb_id j) ?f (db_jobs d),
      db_events := db_events d @ [] \<rparr>)"
  proof (rule job_inv_update [OF inv j(1)])
    show "job_check (?f j)" using h(2) j(2) by (simp add: job_check_def)
    show "history_ok (jb_state (?f j)) (events_of d (jb_id j) @ [])"
      using history_waiting [OF h(1) _ events_of_checked [OF inv], of Acknowledged] h(1) j(2)
      by (auto simp: history_ok_def)
  qed simp_all
  then have "server_inv (d \<lparr> db_jobs := update_where (\<lambda>r. jb_id r = jb_id j) ?f (db_jobs d),
      db_events := db_events d @ [] \<rparr>)"
    by (rule server_inv_job [OF assms(1)]) (rule parties_update [OF assms(1)]; simp)
  then show "server_inv d'" by (simp add: d')
qed

text \<open>What a stored event says of the job before and after.\<close>

lemma persist_commits:
  assumes "persist_job_event E d now identity ev = Inr d'"
  obtains j e where "j \<in> set (db_jobs d)" "parse_uuid E (jv_job_id ev) ''job_id'' = Inr (jb_id j)"
    "jb_target_id j = identity" "jb_state j \<in> {Acknowledged, Running}" "now < jb_expires_at j"
    "jv_state ev = Some (ev_state e)" "ev_state e \<in> {Running, Succeeded, Failed}" "ev_job_id e = jb_id j"
    "ev_sequence e = expected_sequence d (jb_id j)" "ev_terminal e = is_terminal_job_state (ev_state e)"
    "length (ev_output e) \<le> MAX_JOB_EVENT_OUTPUT_BYTES" "length (events_of d (jb_id j)) < MAX_JOB_EVENTS"
    "retained_bytes d (jb_id j) + length (ev_output e) \<le> MAX_JOB_RETAINED_OUTPUT_BYTES"
    "d' = persisted_db d (jb_id j) e"
proof -
  obtain job s j where b: "parse_uuid E (jv_job_id ev) ''job_id'' = Inr job" "jv_state ev = Some s"
      "validate_job_event_shape s (jv_terminal ev) (jv_exit_code ev) = Inr ()" "find_job d job = Some j"
      "\<not> length (jv_output ev) > MAX_JOB_EVENT_OUTPUT_BYTES"
    using assms by (auto simp: persist_job_event_def split: sum.splits option.splits if_splits)
  have c: "jb_target_id j = identity" "now < jb_expires_at j" "validate_job_transition (jb_state j) s = Inr ()"
      "uint (jv_sequence ev) = expected_sequence d job" "length (events_of d job) < MAX_JOB_EVENTS"
      "retained_bytes d job + length (jv_output ev) \<le> MAX_JOB_RETAINED_OUTPUT_BYTES"
      "d' = persisted_db d job \<lparr> ev_job_id = job, ev_sequence = uint (jv_sequence ev), ev_state = s,
        ev_output = jv_output ev, ev_stderr = jv_stderr ev, ev_exit_code = Some (jv_exit_code ev),
        ev_terminal = jv_terminal ev \<rparr>"
    using assms b by (auto simp: persist_job_event_def split: sum.splits if_splits)
  have "jv_terminal ev = is_terminal_job_state s"
    using b(3) by (auto simp: validate_job_event_shape_def Let_def split: if_splits)
  moreover have "jb_state j \<in> {Acknowledged, Running}" "s \<in> {Running, Succeeded, Failed}"
    using c(3) by (auto simp: validate_job_transition_def split: if_splits)
  ultimately show thesis
    using b c find_job_Some [OF b(4)]
    by (intro that [of j "\<lparr> ev_job_id = job, ev_sequence = uint (jv_sequence ev), ev_state = s,
        ev_output = jv_output ev, ev_stderr = jv_stderr ev, ev_exit_code = Some (jv_exit_code ev),
        ev_terminal = jv_terminal ev \<rparr>"]) simp_all
qed

lemma server_inv_persisted:
  assumes "server_inv d" "persist_job_event E d now identity ev = Inr d'"
  shows "server_inv d'"
  using assms(2)
proof (rule persist_commits)
  fix j :: job_row and e :: job_event_row
  let ?f = "\<lambda>r. r \<lparr> jb_state := ev_state e, jb_execution_start := None \<rparr>"
  assume j: "j \<in> set (db_jobs d)" "jb_state j \<in> {Acknowledged, Running}"
    and e: "ev_state e \<in> {Running, Succeeded, Failed}" "ev_job_id e = jb_id j"
      "ev_sequence e = expected_sequence d (jb_id j)" "ev_terminal e = is_terminal_job_state (ev_state e)"
    and bounds: "length (ev_output e) \<le> MAX_JOB_EVENT_OUTPUT_BYTES" "length (events_of d (jb_id j)) < MAX_JOB_EVENTS"
      "retained_bytes d (jb_id j) + length (ev_output e) \<le> MAX_JOB_RETAINED_OUTPUT_BYTES"
    and d': "d' = persisted_db d (jb_id j) e"
  have inv: "job_inv d" using assms(1) by (simp add: server_inv_def)
  note h = job_historyD [OF inv j(1)]
  have "job_inv (d \<lparr> db_jobs := update_where (\<lambda>r. jb_id r = jb_id j) ?f (db_jobs d),
      db_events := db_events d @ [e] \<rparr>)"
  proof (rule job_inv_update [OF inv j(1)])
    show "job_check (?f j)" using h(2) e(1) j(2) by (auto simp: job_check_def)
    show "list_all (\<lambda>e. ev_job_id e = jb_id j \<and> event_check e) [e]"
      using e bounds(1) history_expected [OF h(1)]
      by (auto simp: event_check_def MAX_JOB_EVENT_OUTPUT_BYTES_def)
    show "history_ok (jb_state (?f j)) (events_of d (jb_id j) @ [e])"
    proof (rule history_snoc [OF h(1)])
      show "\<forall>e \<in> set (events_of d (jb_id j)). \<not> ev_terminal e"
        using j(2) by (intro history_open [OF h(1) _ events_of_checked [OF inv]])
          (auto simp: is_terminal_job_state_def)
      show "ev_terminal e \<or> ev_state e = Running \<or>
          (events_of d (jb_id j) = [] \<and> ev_state e = Dispatched \<and> jb_state (?f j) = Dispatched)"
        using e by (auto simp: is_terminal_job_state_def)
    qed (use e(3) bounds history_expected [OF h(1)] in \<open>simp_all add: retained_bytes_def\<close>)
  qed simp_all
  then have "server_inv (d \<lparr> db_jobs := update_where (\<lambda>r. jb_id r = jb_id j) ?f (db_jobs d),
      db_events := db_events d @ [e] \<rparr>)"
    by (rule server_inv_job [OF assms(1)]) (rule parties_update [OF assms(1)]; simp)
  then show "server_inv d'" by (simp only: d' persisted_db_def)
qed

lemma start_prepared:
  assumes "start_job_prepare J snapshot t actor request i = Inr row"
  shows "jb_state row = Queued" "jb_actor_id row = actor" "job_check row" "jb_id row = i"
    "jb_kind row \<noteq> KindUnspecified"
  using assms
  by (auto simp: start_job_prepare_def job_check_def split: sum.splits option.splits)

lemma upsert_cases:
  assumes "upsert_job d r = Inr (row, d')"
  obtains (old) "d' = d" "row \<in> set (db_jobs d)" "jb_actor_id row = jb_actor_id r" "jb_request_id row = jb_request_id r"
  | (new) "row = r" "d' = d \<lparr> db_jobs := db_jobs d @ [r] \<rparr>" "jb_id r \<notin> jb_id ` set (db_jobs d)"
      "\<forall>j \<in> set (db_jobs d). \<not> (jb_actor_id j = jb_actor_id r \<and> jb_request_id j = jb_request_id r)"
proof (cases "find (\<lambda>j. jb_actor_id j = jb_actor_id r \<and> jb_request_id j = jb_request_id r) (db_jobs d)")
  case None
  then have "row = r \<and> d' = d \<lparr> db_jobs := db_jobs d @ [r] \<rparr> \<and> jb_id r \<notin> jb_id ` set (db_jobs d)"
    using assms by (auto simp: upsert_job_def split: if_splits)
  moreover have "\<forall>j \<in> set (db_jobs d). \<not> (jb_actor_id j = jb_actor_id r \<and> jb_request_id j = jb_request_id r)"
    using None by (auto simp: find_None_iff)
  ultimately show thesis by (intro new) simp_all
next
  case (Some j)
  then have "d' = d \<and> row = j" using assms by (simp add: upsert_job_def)
  moreover have "j \<in> set (db_jobs d) \<and> jb_actor_id j = jb_actor_id r \<and> jb_request_id j = jb_request_id r"
    using Some by (auto simp: find_Some_iff)
  ultimately show thesis by (intro old) simp_all
qed

lemma start_commits:
  assumes "start_job_commit J d now r audit_id = Inr (row, d')"
  obtains d1 where "upsert_job d r = Inr (row, d1)" "audited (se_audit (je_server J)) d1 d'"
    "activated d (jb_target_id r)"
proof -
  have "activated d (jb_target_id r)"
    using assms by (auto simp: start_job_commit_def list_ex_iff identity_live_def activated_def split: if_splits)
  moreover obtain d1 where "upsert_job d r = Inr (row, d1)" "audited (se_audit (je_server J)) d1 d'"
    using assms by (auto simp: start_job_commit_def split: if_splits sum.splits dest!: auditedI)
  ultimately show thesis by (intro that)
qed

lemma server_inv_add_job:
  assumes "server_inv d" "jb_state r = Queued" "job_check r" "jb_id r \<notin> jb_id ` set (db_jobs d)"
    "\<forall>j \<in> set (db_jobs d). \<not> (jb_actor_id j = jb_actor_id r \<and> jb_request_id j = jb_request_id r)"
    "activated d (jb_target_id r)" "activated d (jb_actor_id r)"
  shows "server_inv (d \<lparr> db_jobs := db_jobs d @ [r] \<rparr>)" (is "server_inv ?d")
proof -
  have inv: "job_inv d" "parties_inv d" using assms(1) by (simp_all add: server_inv_def)
  have "events_of d (jb_id r) = []"
    using inv(1) assms(4) unfolding job_inv_def events_of_def filter_empty_conv by metis
  then have "history_ok (jb_state r) (events_of d (jb_id r))"
    using assms(2) by (simp add: history_ok_def)
  then have "job_inv ?d"
    using inv(1) assms(3-5) by (auto simp: job_inv_def events_of_def)
  then show ?thesis
    using assms(1,6,7) inv(2) by (simp add: server_inv_def ident_inv_def parties_inv_def activated_def)
qed

lemma server_inv_started:
  assumes "server_inv d" "activated d actor" "start_job_prepare J snapshot t actor request i = Inr r"
    "start_job_commit J d now r audit_id = Inr (row, d')"
  shows "server_inv d'"
  using assms(4)
proof (rule start_commits)
  fix d1 assume u: "upsert_job d r = Inr (row, d1)" and a: "audited (se_audit (je_server J)) d1 d'"
    and t: "activated d (jb_target_id r)"
  note p = start_prepared [OF assms(3)]
  from u have "server_inv d1"
  proof (cases rule: upsert_cases)
    case new
    then show ?thesis using server_inv_add_job [OF assms(1) p(1,3)] t assms(2) p(2) by simp
  qed (use assms(1) in simp)
  then show "server_inv d'" by (rule server_inv_audited [OF _ a])
qed

section \<open>Preservation: maintenance\<close>

text \<open>Updates of job rows that leave the events alone.\<close>

lemma job_inv_states:
  assumes inv: "job_inv d"
    and key: "\<And>r. jb_id (f r) = jb_id r" "\<And>r. jb_actor_id (f r) = jb_actor_id r"
      "\<And>r. jb_request_id (f r) = jb_request_id r"
    and ok: "\<And>r. P r \<Longrightarrow> job_check r \<Longrightarrow> job_check (f r)"
      "\<And>r es. P r \<Longrightarrow> history_ok (jb_state r) es \<Longrightarrow> list_all event_check es \<Longrightarrow> history_ok (jb_state (f r)) es"
  shows "job_inv (d \<lparr> db_jobs := update_where P f (db_jobs d) \<rparr>)" (is "job_inv ?d")
proof -
  have "history_ok (jb_state (if P r then f r else r)) (events_of d (jb_id (if P r then f r else r)))"
    if "r \<in> set (db_jobs d)" for r
    using job_historyD(1) [OF inv that] ok(2) [OF _ _ events_of_checked [OF inv]] key(1) by simp
  then have "\<forall>r \<in> set (db_jobs ?d). history_ok (jb_state r) (events_of ?d (jb_id r))"
    by (simp add: ball_update_where events_of_def)
  moreover have "list_all job_check (db_jobs ?d)"
    using inv ok(1) by (simp add: job_inv_def list_all_update_where)
  ultimately show ?thesis
    using inv key by (simp add: job_inv_def map_update_where image_update_where)
qed

lemma job_inv_requeued:
  assumes "job_inv d"
  shows "job_inv (d \<lparr> db_jobs := requeue_unstarted now (requeue_undelivered now (db_jobs d)) \<rparr>)"
proof -
  have "job_inv (d \<lparr> db_jobs := requeue_undelivered now (db_jobs d) \<rparr>)"
    unfolding requeue_undelivered_def
    by (rule job_inv_states [OF assms])
      (auto simp: job_check_def delivery_lapsed_def intro!: history_waiting [where s = Dispatched and s' = Queued])
  then have "job_inv (d \<lparr> db_jobs := requeue_undelivered now (db_jobs d) \<rparr>
      \<lparr> db_jobs := requeue_unstarted now (db_jobs (d \<lparr> db_jobs := requeue_undelivered now (db_jobs d) \<rparr>)) \<rparr>)"
    unfolding requeue_unstarted_def
    by (rule job_inv_states)
      (auto simp: job_check_def start_lapsed_def intro!: history_waiting [where s = Acknowledged and s' = Queued])
  then show ?thesis by simp
qed

lemma filter_map_distinct:
  assumes "distinct ks" "\<And>k. key (g k) = k"
  shows "filter (\<lambda>e. key e = k) (map g ks) = (if k \<in> set ks then [g k] else [])"
  using assms by (induction ks) auto

lemma expire_events:
  assumes "job_inv d"
  shows "events_of (expire_jobs now d) k =
    events_of d k @ (if k \<in> jb_id ` set (filter (job_expired now) (db_jobs d)) then [timed_out_event d k] else [])"
proof -
  have "distinct (map jb_id (filter (job_expired now) (db_jobs d)))"
    using assms by (simp add: job_inv_def distinct_map_filter)
  from filter_map_distinct [OF this, of ev_job_id "timed_out_event d" k] show ?thesis
    by (simp add: events_of_def expire_jobs_def timed_out_event_def)
qed

lemma expired_id:
  assumes "job_inv d" "j \<in> set (db_jobs d)"
  shows "jb_id j \<in> jb_id ` set (filter (job_expired now) (db_jobs d)) \<longleftrightarrow> job_expired now j"
  using assms by (auto simp: job_inv_def distinct_map inj_on_def)

lemma history_timed_out:
  assumes "job_inv d" "j \<in> set (db_jobs d)" "job_expired now j"
  shows "history_ok TimedOut (events_of d (jb_id j) @ [timed_out_event d (jb_id j)])"
proof -
  note h = job_historyD(1) [OF assms(1,2)]
  have nt: "\<not> is_terminal_job_state (jb_state j)"
    using assms(3) by (auto simp: job_expired_def open_state_def is_terminal_job_state_def)
  show ?thesis
  proof (rule history_snoc [OF h])
    show "\<forall>e \<in> set (events_of d (jb_id j)). \<not> ev_terminal e"
      by (rule history_open [OF h nt events_of_checked [OF assms(1)]])
    show "length (events_of d (jb_id j)) < MAX_JOB_EVENTS + (if is_terminal_job_state TimedOut then 1 else 0)"
      using h nt by (simp add: history_ok_def is_terminal_job_state_def)
  qed (use history_expected [OF h] h in \<open>simp_all add: timed_out_event_def history_ok_def\<close>)
qed

lemma job_inv_expired:
  assumes "job_inv d"
  shows "job_inv (expire_jobs now d)"
proof -
  let ?d = "expire_jobs now d"
  let ?f = "\<lambda>r. r \<lparr> jb_state := TimedOut, jb_delivery_id := None, jb_delivery_lease := None, jb_execution_start := None \<rparr>"
  have jobs: "db_jobs ?d = update_where (job_expired now) ?f (db_jobs d)" by (simp add: expire_jobs_def)
  have "history_ok (jb_state (if job_expired now r then ?f r else r))
      (events_of ?d (jb_id (if job_expired now r then ?f r else r)))" if r: "r \<in> set (db_jobs d)" for r
    using history_timed_out [OF assms r, of now] job_historyD(1) [OF assms r] expired_id [OF assms r, of now]
    by (simp add: expire_events [OF assms])
  then have "\<forall>r \<in> set (db_jobs ?d). history_ok (jb_state r) (events_of ?d (jb_id r))"
    by (simp add: jobs ball_update_where)
  moreover have "list_all job_check (db_jobs ?d)"
    unfolding jobs using assms by (intro list_all_update_where) (auto simp: job_inv_def job_check_def)
  moreover have "event_check (timed_out_event d (jb_id r))" if "r \<in> set (db_jobs d)" for r
    using history_expected [OF job_historyD(1) [OF assms that]]
    by (simp add: timed_out_event_def event_check_def is_terminal_job_state_def)
  then have "list_all event_check (db_events ?d)"
    using assms by (auto simp: job_inv_def expire_jobs_def list_all_iff)
  moreover have "\<forall>e \<in> set (db_events ?d). ev_job_id e \<in> jb_id ` set (db_jobs d)"
    using assms by (auto simp: job_inv_def expire_jobs_def timed_out_event_def)
  ultimately show ?thesis
    using assms by (simp add: job_inv_def jobs map_update_where image_update_where)
qed

lemma unactivated_no_party:
  assumes "ident_inv d" "activated d i"
  shows "i \<notin> i_id ` set (filter (unactivated now) (db_identities d))"
  using assms by (auto simp: ident_inv_def activated_def unactivated_def distinct_map inj_on_def)

lemma ident_inv_deleted:
  assumes "ident_inv d"
  shows "ident_inv (delete_identities P d)"
proof -
  let ?gone = "i_id ` set (filter P (db_identities d))"
  let ?g = "\<lambda>k. k \<lparr> k_consumed_by := set_null (\<lambda>i. i \<in> ?gone) (k_consumed_by k),
    k_revoked_by := set_null (\<lambda>i. i \<in> ?gone) (k_revoked_by k) \<rparr>"
  have rows: "db_identities (delete_identities P d) = filter (\<lambda>i. \<not> P i) (db_identities d)"
    "db_certificates (delete_identities P d) = filter (\<lambda>c. c_identity_id c \<notin> ?gone) (db_certificates d)"
    "db_clients (delete_identities P d) = filter (\<lambda>c. cl_identity_id c \<notin> ?gone) (db_clients d)"
    "db_keys (delete_identities P d) = map ?g (db_keys d)"
    by (simp_all add: delete_identities_def Let_def)
  have "i \<in> i_id ` set (filter (\<lambda>i. \<not> P i) (db_identities d))" if "i \<in> i_id ` set (db_identities d)" "i \<notin> ?gone" for i
    using that by auto
  moreover have "list_all key_check (map ?g (db_keys d))" "map k_id (map ?g (db_keys d)) = map k_id (db_keys d)"
    using assms by (auto simp: ident_inv_def list_all_iff key_check_def)
  ultimately show ?thesis
    using assms unfolding ident_inv_def rows by (auto simp: list_all_iff distinct_map_filter o_def)
qed

lemma ident_inv_prune:
  "ident_inv d \<Longrightarrow> ident_inv (d \<lparr> db_certificates := filter P (db_certificates d) \<rparr>)"
  by (auto simp: ident_inv_def list_all_iff distinct_map_filter)

text \<open>
  The jobs after the three job statements of \<open>maintenance_once\<close>; deleting identities does not touch
  them, since the parties of a job are activated.
\<close>

definition maintained_jobs :: "instant \<Rightarrow> db \<Rightarrow> db" where
  "maintained_jobs now d =
     expire_jobs now (d \<lparr> db_jobs := requeue_unstarted now (requeue_undelivered now (db_jobs d)) \<rparr>)"

lemma maintained_jobs_frame:
  "db_identities (maintained_jobs now d) = db_identities d"
  "db_certificates (maintained_jobs now d) = db_certificates d"
  "db_keys (maintained_jobs now d) = db_keys d" "db_clients (maintained_jobs now d) = db_clients d"
  "db_audit (maintained_jobs now d) = db_audit d"
  by (simp_all add: maintained_jobs_def expire_jobs_def)

lemma maintained_parties:
  assumes "parties_inv d" "j \<in> set (db_jobs (maintained_jobs now d))"
  shows "activated d (jb_target_id j)" "activated d (jb_actor_id j)"
  using assms
  by (auto simp: maintained_jobs_def expire_jobs_def requeue_unstarted_def requeue_undelivered_def
      parties_inv_def set_update_where)

lemma job_inv_maintained: "job_inv d \<Longrightarrow> job_inv (maintained_jobs now d)"
  unfolding maintained_jobs_def by (intro job_inv_expired job_inv_requeued)

lemma maintenance_eq:
  assumes "server_inv d"
  shows "maintenance_once d now = Inr (delete_identities (unactivated now) (maintained_jobs now d)
    \<lparr> db_certificates := filter (\<lambda>c. \<not> (c_state c = CertPending \<and>
        (\<exists>t \<in> set_option (c_activation_expires_at c). t \<le> now)))
      (db_certificates (delete_identities (unactivated now) (maintained_jobs now d))) \<rparr>)"
proof -
  have "\<not> list_ex (\<lambda>j. jb_target_id j \<in> i_id ` set (filter (unactivated now) (db_identities (maintained_jobs now d))) \<or>
      jb_actor_id j \<in> i_id ` set (filter (unactivated now) (db_identities (maintained_jobs now d))))
    (db_jobs (maintained_jobs now d))"
    using assms maintained_parties [of d _ now] unactivated_no_party [of d _ now]
    by (auto simp: server_inv_def list_ex_iff maintained_jobs_frame)
  then show ?thesis
    unfolding maintenance_once_def Let_def maintained_jobs_def [symmetric] by simp
qed

lemma server_inv_maintained:
  assumes "server_inv d" "maintenance_once d now = Inr d'"
  shows "server_inv d'"
proof -
  let ?m = "maintained_jobs now d"
  let ?e = "delete_identities (unactivated now) ?m"
  have inv: "ident_inv d" "job_inv d" "parties_inv d" using assms(1) by (simp_all add: server_inv_def)
  have d': "d' = ?e \<lparr> db_certificates := filter (\<lambda>c. \<not> (c_state c = CertPending \<and>
      (\<exists>t \<in> set_option (c_activation_expires_at c). t \<le> now))) (db_certificates ?e) \<rparr>"
    using assms(2) maintenance_eq [OF assms(1), of now] by simp
  have "ident_inv ?m" using inv(1) by (simp add: ident_inv_def maintained_jobs_frame)
  then have "ident_inv d'" unfolding d' by (intro ident_inv_prune ident_inv_deleted)
  moreover have jobs: "db_jobs d' = db_jobs ?m" "db_events d' = db_events ?m"
    by (simp_all add: d' delete_identities_def Let_def)
  then have "job_inv d'" using job_inv_maintained [OF inv(2), of now] job_inv_frame [of d' ?m] by simp
  moreover have "activated d' i" if "activated d i" for i
    using that by (auto simp: d' activated_def delete_identities_def Let_def maintained_jobs_frame unactivated_def)
  then have "parties_inv d'"
    using maintained_parties [OF inv(3)] by (simp add: parties_inv_def jobs)
  moreover have "map a_id (db_audit d') = map a_id (db_audit d)"
    by (simp add: d' delete_identities_def Let_def maintained_jobs_frame)
  ultimately show ?thesis using assms(1) by (simp add: server_inv_def)
qed

section \<open>The invariant along runs\<close>

lemma server_step_inv:
  assumes "server_step J p d l d'" "server_inv d"
  shows "server_inv d'"
  using assms(1)
proof cases
  case (create_key t role name ttl i secret salt permit key row now actor audit_id)
  note c = create_key_commits [OF create_key(3)]
  show ?thesis
    by (rule server_inv_audited [OF server_inv_add_key [OF assms(2) prepared_key(3) [OF create_key(2)] c(1)] c(2)])
next
  case (revoke_key now actor key_id reason audit_id)
  show ?thesis
    by (rule server_inv_audited [OF server_inv_update_keys [OF assms(2)] revoke_key_commits [OF revoke_key(2)]])
      (auto simp: key_check_def key_usable_def)
next
  case (enroll now t name elevation platform i audit_id r)
  from enroll(2) show ?thesis
    by (rule enroll_commits) (blast intro: server_inv_audited server_inv_enrolled assms(2))
next
  case (activate now identity fp role audit_id)
  from activate(2) show ?thesis
    by (rule activate_commits) (use assms(2) in \<open>blast intro: server_inv_audited server_inv_activated\<close>)+
next
  case (renew now identity fp issued kind audit_id)
  note c = renew_commits [OF renew(2)]
  have "c_identity_id (pending_certificate identity issued now) \<in> i_id ` set (db_identities d)"
    using c(2) assms(2) by (auto simp: server_inv_def ident_inv_def pending_certificate_def)
  then have "server_inv (d \<lparr> db_certificates := db_certificates d @ [pending_certificate identity issued now] \<rparr>)"
    using c(1) by (intro server_inv_add_cert [OF assms(2)]) (auto simp: pending_certificate_def certificate_check_def)
  then show ?thesis by (rule server_inv_audited [OF _ c(3)])
next
  case (replace now current replacement reason audit_id)
  show ?thesis by (rule server_inv_audited [OF server_inv_revoked [OF assms(2)] replace_commits [OF replace(2)]])
next
  case (revoke now actor identity reason audit_id)
  show ?thesis by (rule server_inv_audited [OF server_inv_revoked [OF assms(2)] revoke_commits [OF revoke(2)]])
next
  case (hello now identity h)
  from hello(2) show ?thesis
    by (rule hello_commits) (simp add: server_inv_update_clients [OF assms(2)])
next
  case (heartbeat now identity)
  show ?thesis unfolding heartbeat heartbeat_db_def by (rule server_inv_update_clients [OF assms(2)]) simp
next
  case (start actor snapshot t request i row now audit_id stored)
  show ?thesis by (rule server_inv_started [OF assms(2) start(3-5)])
next
  case (claim now identity delivery_id grant_id r)
  from claim_commits [OF claim(2)] show ?thesis
    using next_queued_Some [of d now identity] server_inv_claimed [OF assms(2)] assms(2) by auto
next
  case (acknowledge now identity job delivery)
  show ?thesis by (rule server_inv_acknowledge [OF assms(2) acknowledge(2)])
next
  case (event now identity ev job s)
  show ?thesis by (rule server_inv_persisted [OF assms(2) event(2)])
next
  case (maintain now)
  show ?thesis by (rule server_inv_maintained [OF assms(2) maintain(2)])
next
  case audit
  show ?thesis by (rule server_inv_audited [OF assms(2) audit(2)])
qed

interpretation srv: guarded_system "server_step J p" server_inv for J p
  by unfold_locales (rule server_step_inv)

lemma distinct_by_group:
  assumes "\<And>e. e \<in> set xs \<Longrightarrow> distinct (map snd_key (filter (\<lambda>x. fst_key x = fst_key e) xs))"
  shows "distinct (map (\<lambda>x. (fst_key x, snd_key x)) xs)"
  using assms
proof (induction xs)
  case (Cons x xs)
  have "distinct (map snd_key (filter (\<lambda>y. fst_key y = fst_key e) xs))" if "e \<in> set xs" for e
    using Cons.prems [of e] that by (auto split: if_splits)
  then have "distinct (map (\<lambda>x. (fst_key x, snd_key x)) xs)" by (rule Cons.IH)
  moreover have "snd_key x \<notin> snd_key ` set (filter (\<lambda>y. fst_key y = fst_key x) xs)"
    using Cons.prems [of x] by simp
  ultimately show ?case by auto
qed simp

lemma server_inv_constraints:
  assumes "server_inv d"
  shows "db_constraints d"
proof -
  have inv: "ident_inv d" "job_inv d" using assms by (simp_all add: server_inv_def)
  have "distinct (map ev_sequence (filter (\<lambda>x. ev_job_id x = ev_job_id e) (db_events d)))"
    if e: "e \<in> set (db_events d)" for e
  proof -
    obtain j where "j \<in> set (db_jobs d)" "ev_job_id e = jb_id j"
      using inv(2) e by (auto simp: job_inv_def)
    then have "map ev_sequence (events_of d (ev_job_id e)) = map int [0..<length (events_of d (ev_job_id e))]"
      using job_historyD(1) [OF inv(2)] by (simp add: history_ok_def)
    then show ?thesis unfolding events_of_def by (simp add: distinct_map)
  qed
  then have "distinct (map (\<lambda>e. (ev_job_id e, ev_sequence e)) (db_events d))" by (rule distinct_by_group)
  then show ?thesis
    using inv assms by (simp add: db_constraints_def server_inv_def ident_inv_def job_inv_def)
qed

end
