(* ===== verification/Server_Demo.thy ===== *)
theory Server_Demo
  imports Control_Plane
begin

text \<open>
  A small server to evaluate the model on: one Admin, one client with a live and a pending
  certificate, and one unused client invitation.
\<close>

definition quiet_audit :: audit_env where
  "quiet_audit = \<lparr> au_to_vec = (\<lambda>_. [123, 125]), au_from_slice = (\<lambda>_. Some (JObj [])), au_sha = (\<lambda>_. [7]),
     au_hex = (\<lambda>_. ''07''), au_unhex = (\<lambda>_. Some [7]), au_uuid = (\<lambda>_. JNull), au_time = (\<lambda>_. JNull) \<rparr>"

definition demo_issued :: issued_certificate where
  "demo_issued = \<lparr> is_fingerprint = ''f3'', is_serial = ''s3'', is_expires_at = secs 900000, is_chain = ''c'' \<rparr>"

definition demo_server :: server_env where
  "demo_server = \<lparr> se_audit = quiet_audit, se_invite = demo_invitation_env, se_instance_id = 42,
     se_public_host = ''centrald.lan'', se_enrollment_port = 7445, se_client_port = 7443,
     se_admin_port = 7444, se_root_ca = ''r'', se_version = ''1.0.0'',
     se_parse_uuid = map_of [(''3'', 3), (''5'', 5), (''6'', 6), (''70'', 70)],
     se_issue = (\<lambda>_ _ _ _. Some demo_issued) \<rparr>"

definition demo_jobs :: "(byte, byte, bytes) job_env" where
  "demo_jobs = \<lparr> je_server = demo_server, je_crypto = demo_crypto, je_signing_key = 9,
     je_sha_hex = (\<lambda>_. ''44136fa3''), je_uuid_text = (\<lambda>_. ''u''), je_job_ttl_seconds = 900,
     je_updates_enabled = False, je_manifest_url = [], je_channel = JNull, je_allow_prerelease = False,
     je_show_time = (\<lambda>_. []), je_semver = (\<lambda>s. Some s) \<rparr>"

definition demo_admin :: identity_row where
  "demo_admin = \<lparr> i_id = 1, i_role = RoleAdmin, i_name = ''ops'', i_serial = Some ''s1'',
     i_fingerprint = Some ''f1'', i_elevation_public_key = None, i_activated_at = Some 0,
     i_activation_expires_at = None, i_revoked_at = None, i_revoked_reason = None \<rparr>"

definition demo_client :: identity_row where
  "demo_client = \<lparr> i_id = 3, i_role = RoleClient, i_name = ''nas'', i_serial = Some ''s2'',
     i_fingerprint = Some ''f2'', i_elevation_public_key = None, i_activated_at = Some 0,
     i_activation_expires_at = None, i_revoked_at = None, i_revoked_reason = None \<rparr>"

definition demo_certificate :: "string \<Rightarrow> string \<Rightarrow> uuid \<Rightarrow> certificate_row" where
  "demo_certificate fp sn i = \<lparr> c_fingerprint = fp, c_identity_id = i, c_serial = sn, c_state = CertActive,
     c_activation_expires_at = None, c_expires_at = secs 100000, c_retire_at = None, c_revoked_at = None \<rparr>"

definition demo_renewal :: certificate_row where
  "demo_renewal = \<lparr> c_fingerprint = ''f4'', c_identity_id = 3, c_serial = ''s4'', c_state = CertPending,
     c_activation_expires_at = Some (secs 86400), c_expires_at = secs 200000, c_retire_at = None,
     c_revoked_at = None \<rparr>"

definition demo_key :: enrollment_key_row where
  "demo_key = \<lparr> k_id = 41, k_role = RoleClient, k_name = ''nas'', k_secret_hash = ''s'',
     k_expires_at = secs 3600, k_consumed_at = None, k_consumed_by = None, k_revoked_at = None,
     k_revoked_by = None, k_revoked_reason = None, k_created_at = 0 \<rparr>"

definition demo_client_row :: client_row where
  "demo_client_row = \<lparr> cl_identity_id = 3, cl_hostname = ''nas'', cl_os = ''linux'', cl_os_version = ''1'',
     cl_architecture = ''x86_64'', cl_client_version = ''1.0.0'', cl_capabilities = [''typed_jobs''],
     cl_boot_id = ''b'', cl_last_seen = None \<rparr>"

definition demo_job :: job_row where
  "demo_job = \<lparr> jb_id = 5, jb_request_id = 6, jb_target_id = 3, jb_actor_id = 1, jb_kind = KindRestartMachine,
     jb_state = Queued, jb_parameters = JObj [], jb_reason = ''patch'', jb_idempotency_key = 6,
     jb_delivery_id = None, jb_delivery_lease = None, jb_execution_start = None,
     jb_expires_at = secs 1000, jb_created_at = 0 \<rparr>"

definition demo_server_db :: db where
  "demo_server_db = \<lparr> db_identities = [demo_admin, demo_client],
     db_certificates = [demo_certificate ''f1'' ''s1'' 1, demo_certificate ''f2'' ''s2'' 3, demo_renewal],
     db_keys = [demo_key], db_clients = [demo_client_row], db_jobs = [demo_job], db_events = [],
     db_audit = [], db_audit_next = 1 \<rparr>"

lemmas demo_rows = demo_server_db_def demo_admin_def demo_client_def demo_certificate_def demo_renewal_def
  demo_key_def demo_client_row_def demo_job_def

lemmas demo_envs = demo_server_def demo_jobs_def quiet_audit_def demo_issued_def

lemma demo_server_inv: "server_inv demo_server_db"
  by (simp add: server_inv_def ident_inv_def job_inv_def parties_inv_def history_ok_def events_of_def
      activated_def identity_check_def certificate_check_def key_check_def job_check_def demo_rows
      MAX_JOB_EVENTS_def is_terminal_job_state_def)

section \<open>An enrollment\<close>

definition demo_ticket :: enroll_ticket where
  "demo_ticket = \<lparr> et_role = RoleClient, et_claims = demo_claims, et_csr = [1], et_expected_hash = ''s'' \<rparr>"

lemma demo_ticket_simps: "ic_id (et_claims demo_ticket) = 41" "ic_name (et_claims demo_ticket) = ''nas''"
  "et_role demo_ticket = RoleClient" "et_expected_hash demo_ticket = ''s''"
  by (simp_all add: demo_ticket_def demo_claims_def new_claims_def)

lemma demo_enrolls:
  "\<exists>d'. server_step demo_jobs True demo_server_db (Enrolled 41 8 RoleClient) d'"
proof -
  have "\<exists>r d'. enroll_commit (je_server demo_jobs) demo_server_db (secs 10) demo_ticket ''nas'' None None 8 100 =
      Inr (r, d')"
    by (simp add: enroll_commit_def demo_ticket_simps demo_rows demo_envs find_key_def key_usable_def
        insert_identity_def insert_certificate_def rows_affected_def append_audit_def insert_audit_def
        fk_identity_def Let_def secs_def nanos_per_second_def)
  then obtain r d' where "enroll_commit (je_server demo_jobs) demo_server_db (secs 10) demo_ticket ''nas'' None None 8 100 =
      Inr (r, d')" by blast
  from server_step.enroll [OF this, of True] show ?thesis by (auto simp: demo_ticket_simps)
qed

end
