(* ===== verification/Identity_Safety.thy ===== *)
theory Identity_Safety
  imports Server_Demo
begin

text \<open>
  What the server guarantees about identities over every interleaving of transactions: an invitation
  enrolls once, a revoked identity stays locked out, no sequence of RPCs makes an Admin without an
  Admin invitation, and a certificate rotation has a grace period of one hour and no gap.
\<close>

section \<open>What a step does to keys and identities\<close>

definition key_grows :: "enrollment_key_row \<Rightarrow> enrollment_key_row \<Rightarrow> bool" where
  "key_grows k k' \<longleftrightarrow> k_id k' = k_id k \<and> k_role k' = k_role k \<and>
     (k_consumed_at k \<noteq> None \<longrightarrow> k_consumed_at k' \<noteq> None) \<and> (k_revoked_at k \<noteq> None \<longrightarrow> k_revoked_at k' \<noteq> None)"

definition keys_grow :: "enrollment_key_row list \<Rightarrow> enrollment_key_row list \<Rightarrow> bool" where
  "keys_grow ks ks' \<longleftrightarrow> (\<exists>zs new. ks' = zs @ new \<and> list_all2 key_grows ks zs \<and> (\<forall>k \<in> set new. k_role k = RoleClient))"

lemma keys_grow_refl: "keys_grow ks ks"
  unfolding keys_grow_def
  by (intro exI [of _ ks] exI [of _ "[]"]) (simp add: key_grows_def list_all2_refl)

lemma keys_grow_map: "(\<And>k. k \<in> set ks \<Longrightarrow> key_grows k (g k)) \<Longrightarrow> keys_grow ks (map g ks)"
  unfolding keys_grow_def
  by (intro exI [of _ "map g ks"] exI [of _ "[]"]) (simp add: list.rel_map list_all2_same)

lemma keys_grow_new: "k_role k = RoleClient \<Longrightarrow> keys_grow ks (ks @ [k])"
  unfolding keys_grow_def
  by (intro exI [of _ ks] exI [of _ "[k]"]) (simp add: key_grows_def list_all2_refl)

definition identity_grows :: "identity_row \<Rightarrow> identity_row \<Rightarrow> bool" where
  "identity_grows i i' \<longleftrightarrow> i_id i' = i_id i \<and> i_role i' = i_role i \<and>
     (i_revoked_at i \<noteq> None \<longrightarrow> i_revoked_at i' \<noteq> None) \<and> (i_activated_at i \<noteq> None \<longrightarrow> i_activated_at i' \<noteq> None)"

definition identities_grow ::
  "identity_row list \<Rightarrow> server_label \<Rightarrow> identity_row list \<Rightarrow> bool" where
  "identities_grow is l is' \<longleftrightarrow>
     (\<forall>i' \<in> set is'. (\<exists>i \<in> set is. identity_grows i i') \<or> (\<exists>k. l = Enrolled k (i_id i') (i_role i')))"

lemma identities_grow_refl: "identities_grow is l is"
  by (auto simp: identities_grow_def identity_grows_def)

lemma identities_grow_map:
  "(\<And>i. i \<in> set is \<Longrightarrow> identity_grows i (g i)) \<Longrightarrow> identities_grow is l (map g is)"
  by (auto simp: identities_grow_def)

lemma step_keys:
  assumes "server_step J p d l d'" "server_inv d"
  shows "keys_grow (db_keys d) (db_keys d')"
  using assms(1)
proof cases
  case (create_key t role name ttl i secret salt permit key row now actor audit_id)
  note c = audited_frame [OF create_key_commits(2) [OF create_key(3)]]
  then show ?thesis using prepared_key(1) [OF create_key(2)] by (simp add: keys_grow_new)
next
  case (revoke_key now actor key_id reason audit_id)
  note c = audited_frame [OF revoke_key_commits [OF revoke_key(2)]]
  then show ?thesis by (simp add: update_where_def) (rule keys_grow_map, simp add: key_grows_def)
next
  case (enroll now t name elevation platform i audit_id r)
  from enroll(2) show ?thesis
  proof (rule enroll_commits)
    fix issued clients assume "audited (se_audit (je_server J)) (enrolled_db d now t elevation i issued clients) d'"
    note c = audited_frame [OF this]
    then show ?thesis
      by (simp add: enrolled_db_def update_where_def) (rule keys_grow_map, simp add: key_grows_def)
  qed
next
  case (activate now identity fp role audit_id)
  from activate(2) show ?thesis
    by (rule activate_commits) (simp_all add: audited_frame activated_db_def keys_grow_refl)
next
  case (renew now identity fp issued kind audit_id)
  then show ?thesis by (simp add: audited_frame [OF renew_commits(3) [OF renew(2)]] keys_grow_refl)
next
  case (replace now current replacement reason audit_id)
  then show ?thesis by (simp add: audited_frame [OF replace_commits [OF replace(2)]] revoked_db_def keys_grow_refl)
next
  case (revoke now actor identity reason audit_id)
  then show ?thesis by (simp add: audited_frame [OF revoke_commits [OF revoke(2)]] revoked_db_def keys_grow_refl)
next
  case (hello now identity h)
  from hello(2) show ?thesis by (rule hello_commits) (simp add: keys_grow_refl)
next
  case (start actor snapshot t request i row now audit_id stored)
  from start(5) show ?thesis
    by (rule start_commits) (auto elim!: upsert_cases simp: audited_frame keys_grow_refl)
next
  case (claim now identity delivery_id grant_id r)
  from claim_commits [OF claim(2)] show ?thesis by (auto simp: claimed_db_def keys_grow_refl)
next
  case (acknowledge now identity job delivery)
  from acknowledge(2) show ?thesis by (rule acknowledge_commits) (simp add: keys_grow_refl)
next
  case (event now identity ev job s)
  from event(2) show ?thesis by (rule persist_commits) (simp add: persisted_db_def keys_grow_refl)
next
  case (maintain now)
  then show ?thesis
    using maintenance_eq [OF assms(2), of now]
    by (auto simp: delete_identities_def Let_def maintained_jobs_frame intro!: keys_grow_map simp: key_grows_def)
next
  case audit
  then show ?thesis by (simp add: audited_frame keys_grow_refl)
qed (simp_all add: heartbeat_db_def keys_grow_refl)

lemma step_identities:
  assumes "server_step J p d l d'" "server_inv d"
  shows "identities_grow (db_identities d) l (db_identities d')"
  using assms(1)
proof cases
  case (create_key t role name ttl i secret salt permit key row now actor audit_id)
  then show ?thesis
    by (simp add: audited_frame [OF create_key_commits(2) [OF create_key(3)]] identities_grow_refl)
next
  case (revoke_key now actor key_id reason audit_id)
  then show ?thesis by (simp add: audited_frame [OF revoke_key_commits [OF revoke_key(2)]] identities_grow_refl)
next
  case (enroll now t name elevation platform i audit_id r)
  from enroll(2) show ?thesis
  proof (rule enroll_commits)
    fix issued clients assume "audited (se_audit (je_server J)) (enrolled_db d now t elevation i issued clients) d'"
    then have "db_identities d' = db_identities d @ [pending_identity t elevation i issued now]"
      by (simp add: audited_frame enrolled_db_def)
    then show ?thesis
      by (auto simp: identities_grow_def identity_grows_def enroll(1) pending_identity_def)
  qed
next
  case (activate now identity fp role audit_id)
  from activate(2) show ?thesis
  proof (rule activate_commits)
    fix c assume "audited (se_audit (je_server J)) (activated_db d now identity fp (c_serial c)) d'"
    note c = audited_frame [OF this]
    then show ?thesis
      by (simp add: activated_db_def update_where_def)
        (rule identities_grow_map, simp add: identity_grows_def split: option.split)
  qed (simp add: identities_grow_refl)
next
  case (renew now identity fp issued kind audit_id)
  then show ?thesis by (simp add: audited_frame [OF renew_commits(3) [OF renew(2)]] identities_grow_refl)
next
  case (replace now current replacement reason audit_id)
  then show ?thesis
    by (simp add: audited_frame [OF replace_commits [OF replace(2)]] revoked_db_def update_where_def)
      (rule identities_grow_map, simp add: identity_grows_def)
next
  case (revoke now actor identity reason audit_id)
  then show ?thesis
    by (simp add: audited_frame [OF revoke_commits [OF revoke(2)]] revoked_db_def update_where_def)
      (rule identities_grow_map, simp add: identity_grows_def)
next
  case (hello now identity h)
  from hello(2) show ?thesis by (rule hello_commits) (simp add: identities_grow_refl)
next
  case (start actor snapshot t request i row now audit_id stored)
  from start(5) show ?thesis
    by (rule start_commits) (auto elim!: upsert_cases simp: audited_frame identities_grow_refl)
next
  case (claim now identity delivery_id grant_id r)
  from claim_commits [OF claim(2)] show ?thesis by (auto simp: claimed_db_def identities_grow_refl)
next
  case (acknowledge now identity job delivery)
  from acknowledge(2) show ?thesis by (rule acknowledge_commits) (simp add: identities_grow_refl)
next
  case (event now identity ev job s)
  from event(2) show ?thesis by (rule persist_commits) (simp add: persisted_db_def identities_grow_refl)
next
  case (maintain now)
  then show ?thesis
    using maintenance_eq [OF assms(2), of now]
    by (auto simp: delete_identities_def Let_def maintained_jobs_frame identities_grow_def identity_grows_def)
next
  case audit
  then show ?thesis by (simp add: audited_frame identities_grow_refl)
qed (simp_all add: heartbeat_db_def identities_grow_refl)

text \<open>An enrollment step finds a usable key of its role and leaves it consumed.\<close>

definition key_spent :: "uuid \<Rightarrow> db \<Rightarrow> bool" where
  "key_spent key d \<longleftrightarrow> (\<exists>k \<in> set (db_keys d). k_id k = key \<and> k_consumed_at k \<noteq> None)"

definition enrolls_with :: "uuid \<Rightarrow> server_label \<Rightarrow> bool" where
  "enrolls_with key l \<longleftrightarrow> (\<exists>i r. l = Enrolled key i r)"

lemma enrolled_step:
  assumes "server_step J p d (Enrolled key i r) d'" "server_inv d"
  obtains k where "find_key d key = Some k" "k_role k = r" "k_consumed_at k = None" "k_revoked_at k = None"
    "i \<notin> i_id ` set (db_identities d)" "key_spent key d'"
  using assms(1)
proof cases
  case (enroll now t name elevation platform audit_id r')
  from enroll(3) show thesis
  proof (rule enroll_commits)
    fix k issued clients
    assume k: "find_key d (ic_id (et_claims t)) = Some k" "k_role k = et_role t" "key_usable now k"
      and i: "i \<notin> i_id ` set (db_identities d)"
      and a: "audited (se_audit (je_server J)) (enrolled_db d now t elevation i issued clients) d'"
    have "k \<in> set (db_keys d)" "k_id k = key" using k(1) enroll(1) by (auto simp: find_key_def find_Some_iff)
    then have "key_spent key d'"
      unfolding key_spent_def using k(3) enroll(1) audited_frame(3) [OF a]
      by (intro bexI [of _ "k \<lparr> k_consumed_at := Some now, k_consumed_by := Some i \<rparr>"])
        (auto simp: enrolled_db_def set_update_where image_iff intro!: bexI [of _ k])
    then show thesis using k i enroll(1,2) by (intro that [of k]) (auto simp: key_usable_def)
  qed
qed (auto split: option.splits if_splits)

lemma key_unique:
  assumes "server_inv d" "find_key d key = Some k" "k' \<in> set (db_keys d)" "k_id k' = key"
  shows "k' = k"
proof -
  have "distinct (map k_id (db_keys d))" using assms(1) by (simp add: server_inv_def ident_inv_def)
  from find_key_iff [OF this, of key k] show ?thesis
    using assms \<open>distinct (map k_id (db_keys d))\<close> by (auto simp: find_key_def distinct_map inj_on_def)
qed

lemma key_spent_step:
  assumes "server_inv d" "key_spent key d" "server_step J p d l d'"
  shows "key_spent key d'"
proof -
  obtain k where k: "k \<in> set (db_keys d)" "k_id k = key" "k_consumed_at k \<noteq> None"
    using assms(2) by (auto simp: key_spent_def)
  obtain zs new where "db_keys d' = zs @ new" "list_all2 key_grows (db_keys d) zs"
    using step_keys [OF assms(3,1)] by (auto simp: keys_grow_def)
  with k obtain k' where "k' \<in> set (db_keys d')" "key_grows k k'"
    by (auto simp: list_all2_conv_all_nth in_set_conv_nth) (metis nth_append)
  with k show ?thesis by (auto simp: key_spent_def key_grows_def)
qed

interpretation invite: one_shot "server_step J p" server_inv "key_spent key" "enrolls_with key" for J p key
proof unfold_locales
  show "server_inv s \<Longrightarrow> key_spent key s \<Longrightarrow> server_step J p s l s' \<Longrightarrow> key_spent key s'" for s l s'
    by (rule key_spent_step)
next
  fix s l s' assume i: "server_inv s" and s: "server_step J p s l s'" and u: "enrolls_with key l"
  obtain i r where l: "l = Enrolled key i r" using u by (auto simp: enrolls_with_def)
  obtain k where k: "find_key s key = Some k" "k_consumed_at k = None" "key_spent key s'"
    using enrolled_step [OF s [unfolded l] i] by metis
  show "\<not> key_spent key s" using key_unique [OF i k(1)] k(2) by (auto simp: key_spent_def)
  show "key_spent key s'" by (rule k(3))
qed

section \<open>Revocation\<close>

definition locked_out :: "uuid \<Rightarrow> db \<Rightarrow> bool" where
  "locked_out i d \<longleftrightarrow> (\<forall>r \<in> set (db_identities d). i_id r = i \<longrightarrow> i_revoked_at r \<noteq> None)"

lemma locked_out_step:
  assumes "locked_out i d" "server_inv d" "server_step J p d l d'" "\<forall>k r. l \<noteq> Enrolled k i r"
  shows "locked_out i d'"
  using step_identities [OF assms(3,2)] assms(1,4)
  by (fastforce simp: identities_grow_def identity_grows_def locked_out_def)

lemma locked_out_rejected:
  assumes "locked_out i d"
  shows "authenticate d now leaf role \<noteq> Inr i" "authorize_existing_identity d now i fp role \<noteq> Inr ()"
  using assms
  by (auto elim!: authenticate_Inr simp: locked_out_def identity_live_def authorize_existing_identity_def list_ex_iff)

section \<open>Admins\<close>

definition admins :: "db \<Rightarrow> uuid set" where
  "admins d = set (map i_id (filter (\<lambda>i. i_role i = RoleAdmin) (db_identities d)))"

definition open_admin_key :: "db \<Rightarrow> bool" where
  "open_admin_key d \<longleftrightarrow> list_ex (\<lambda>k. k_role k = RoleAdmin \<and> k_consumed_at k = None \<and> k_revoked_at k = None) (db_keys d)"

lemma admin_step:
  assumes "\<not> open_admin_key d" "server_inv d" "server_step J p d l d'"
  shows "\<not> open_admin_key d'" and "admins d' \<subseteq> admins d"
proof -
  obtain zs new where z: "db_keys d' = zs @ new" "list_all2 key_grows (db_keys d) zs"
      "\<forall>k \<in> set new. k_role k = RoleClient"
    using step_keys [OF assms(3,2)] by (auto simp: keys_grow_def)
  have "\<not> (k_role k = RoleAdmin \<and> k_consumed_at k = None \<and> k_revoked_at k = None)" if k: "k \<in> set (db_keys d')" for k
  proof (cases "k \<in> set new")
    case False
    then obtain k0 where "k0 \<in> set (db_keys d)" "key_grows k0 k"
      using k z(1,2) by (auto simp: list_all2_conv_all_nth in_set_conv_nth) (metis nth_mem)
    then show ?thesis using assms(1) by (auto simp: open_admin_key_def list_ex_iff key_grows_def)
  qed (use z(3) in auto)
  then show "\<not> open_admin_key d'" by (auto simp: open_admin_key_def list_ex_iff)
  have "r \<noteq> RoleAdmin" if l: "l = Enrolled key i r" for key i r
  proof -
    obtain k where "find_key d key = Some k" "k_role k = r" "k_consumed_at k = None" "k_revoked_at k = None"
      using enrolled_step [OF assms(3) [unfolded l] assms(2)] by metis
    then show ?thesis
      using assms(1) by (auto simp: open_admin_key_def list_ex_iff find_key_def find_Some_iff)
  qed
  then show "admins d' \<subseteq> admins d"
    using step_identities [OF assms(3,2)]
    by (fastforce simp: admins_def identities_grow_def identity_grows_def)
qed

section \<open>Properties\<close>



text \<open>
  C5. An invitation enrolls at most one identity: over every interleaving of transactions, in
  particular of any number of enrollments that verified the same token before any of them
  committed, at most one enrollment with a given key commits.
\<close>

theorem invitation_single_use:
  assumes "server_inv d" and "server_run J privileged d ls d'"
  shows "length (filter (enrolls_with key) ls) \<le> 1"
  by (rule invite.used_at_most_once [OF assms(2,1)])

theorem invitation_single_use_witness:
  "\<exists>d'. server_run demo_jobs True demo_server_db [Enrolled 41 8 RoleClient] d' \<and>
   enrolls_with 41 (Enrolled 41 8 RoleClient) \<and> length (filter (enrolls_with 41) [Enrolled 41 8 RoleClient]) \<le> 1"
proof -
  obtain d' where "server_run demo_jobs True demo_server_db [Enrolled 41 8 RoleClient] d'"
    using demo_enrolls by (auto simp: steps_Cons)
  with invitation_single_use [OF demo_server_inv this, of 41] show ?thesis by (auto simp: enrolls_with_def)
qed

text \<open>
  C6. Revocation is permanent: once an identity is revoked, no later sequence of transactions lets
  any certificate authenticate as it or keeps one of its streams authorized, in either role and at
  any time, provided its UUID is not drawn again for a new enrollment.
\<close>

theorem revoked_identity_locked_out:
  assumes "server_inv d" and "server_run J privileged d ls d'"
    and "find_identity d identity = Some i" and "i_revoked_at i \<noteq> None"
    and "\<forall>key role. Enrolled key identity role \<notin> set ls"
  shows "authenticate d' now leaf role \<noteq> Inr identity \<and>
    authorize_existing_identity d' now identity fp role \<noteq> Inr ()"
proof -
  have "distinct (map i_id (db_identities d))" using assms(1) by (simp add: server_inv_def ident_inv_def)
  then have "locked_out identity d"
    using assms(3,4) find_key_iff [of i_id "db_identities d" identity i]
    by (auto simp: locked_out_def find_identity_def distinct_map inj_on_def)
  have "locked_out identity d'"
  proof (rule srv.kept [where P = "locked_out identity" and L = "{l. \<forall>k r. l \<noteq> Enrolled k identity r}", OF _ assms(2,1)])
    fix s l s' assume "server_inv s" "locked_out identity s" "server_step J privileged s l s'"
      "l \<in> {l. \<forall>k r. l \<noteq> Enrolled k identity r}"
    then show "locked_out identity s'" using locked_out_step [of identity s J privileged l s'] by simp
  next
    show "locked_out identity d" by fact
    show "set ls \<subseteq> {l. \<forall>k r. l \<noteq> Enrolled k identity r}" using assms(5) by auto
  qed
  then show ?thesis by (simp add: locked_out_rejected)
qed

definition demo_revoked_db :: db where
  "demo_revoked_db = revoked_db demo_server_db (secs 20) 3 ''lost''"

theorem revoked_identity_locked_out_witness:
  "authenticate demo_server_db (secs 30) (Some ''f2'') RoleClient = Inr 3 \<and>
   (\<exists>d'. server_run demo_jobs True demo_revoked_db [Other] d' \<and> authenticate d' (secs 30) (Some ''f2'') RoleClient \<noteq> Inr 3)"
proof -
  let ?d = "heartbeat_db demo_revoked_db (secs 25) 3"
  have run: "server_run demo_jobs True demo_revoked_db [Other] ?d"
    by (simp add: steps_Cons server_step.heartbeat)
  have inv: "server_inv demo_revoked_db"
    unfolding demo_revoked_db_def by (rule server_inv_revoked [OF demo_server_inv])
  have "find_identity demo_revoked_db 3 =
      Some (demo_client \<lparr> i_revoked_at := Some (secs 20), i_revoked_reason := Some ''lost'' \<rparr>)"
    by (simp add: demo_revoked_db_def revoked_db_def revocable_def find_identity_def demo_rows)
  from revoked_identity_locked_out [OF inv run this]
  have "authenticate ?d (secs 30) (Some ''f2'') RoleClient \<noteq> Inr 3" by simp
  moreover have "authenticate demo_server_db (secs 30) (Some ''f2'') RoleClient = Inr 3"
    by (simp add: authenticate_def peer_certificate_fingerprint_def find_certificate_def find_identity_def
        certificate_live_def identity_live_def demo_rows secs_def nanos_per_second_def)
  ultimately show ?thesis using run by blast
qed

text \<open>
  C7. No privilege escalation through the RPC surface: while no unused Admin invitation exists, no
  sequence of transactions makes one or adds an Admin identity, and whoever authenticates as an
  Admin afterwards was an Admin before; Client invitations never yield an Admin.
\<close>

theorem no_admin_escalation:
  assumes "server_inv d" and "server_run J privileged d ls d'" and "\<not> open_admin_key d"
  shows "\<not> open_admin_key d' \<and> admins d' \<subseteq> admins d \<and>
    (authenticate d' now leaf RoleAdmin = Inr i \<longrightarrow> i \<in> admins d)"
proof -
  have "\<not> open_admin_key d' \<and> admins d' \<subseteq> admins d"
  proof (rule srv.kept [where P = "\<lambda>e. \<not> open_admin_key e \<and> admins e \<subseteq> admins d" and L = UNIV, OF _ assms(2,1)])
    fix s l s' assume "server_inv s" "\<not> open_admin_key s \<and> admins s \<subseteq> admins d" "server_step J privileged s l s'"
    then show "\<not> open_admin_key s' \<and> admins s' \<subseteq> admins d"
      using admin_step [of s J privileged l s'] by blast
  qed (use assms(3) in simp_all)
  moreover have "authenticate d' now leaf RoleAdmin = Inr i \<Longrightarrow> i \<in> admins d'"
    by (auto elim!: authenticate_Inr simp: admins_def identity_live_def image_iff)
  ultimately show ?thesis by blast
qed

theorem no_admin_escalation_witness:
  "admins demo_server_db = {1} \<and>
   (\<exists>d'. server_run demo_jobs True demo_server_db [Enrolled 41 8 RoleClient] d' \<and> admins d' \<subseteq> {1})"
proof -
  obtain d' where run: "server_run demo_jobs True demo_server_db [Enrolled 41 8 RoleClient] d'"
    using demo_enrolls by (auto simp: steps_Cons)
  have k: "\<not> open_admin_key demo_server_db" by (simp add: open_admin_key_def demo_rows)
  have a: "admins demo_server_db = {1}" by (simp add: admins_def demo_rows)
  have "admins d' \<subseteq> {1}" using no_admin_escalation [OF demo_server_inv run k] a by simp
  with a run show ?thesis by blast
qed

section \<open>Certificate rotation\<close>

text \<open>The certificates after an activation, by fingerprint.\<close>

lemma activated_certificate:
  "find_certificate (activated_db d now identity fp serial) fp' =
     map_option (\<lambda>c. if c_identity_id c = identity \<and> fp' = fp
         then c \<lparr> c_state := CertActive, c_activation_expires_at := None, c_retire_at := None \<rparr>
       else if c_identity_id c = identity \<and> c_state c = CertActive \<and> c_revoked_at c = None \<and> c_expires_at c > now
         then retire_certificate now c
       else c) (find_certificate d fp')"
proof -
  have r: "c_fingerprint (retire_certificate now c) = c_fingerprint c"
    "c_identity_id (retire_certificate now c) = c_identity_id c" for c
    by (simp_all add: retire_certificate_def)
  have "find_certificate d fp' = Some c \<Longrightarrow> c_fingerprint c = fp'" for c
    by (auto simp: find_certificate_def find_Some_iff)
  then show ?thesis
    by (cases "find_certificate d fp'")
      (auto simp: find_certificate_def activated_db_def find_update_where r)
qed

lemma activated_identity:
  "find_identity (activated_db d now identity fp serial) i =
     map_option (\<lambda>r. if i_id r = identity then r \<lparr> i_activated_at := (case i_activated_at r of None \<Rightarrow> Some now | Some t \<Rightarrow> Some t),
         i_activation_expires_at := None, i_serial := Some serial, i_fingerprint := Some fp \<rparr> else r)
       (find_identity d i)"
  by (simp add: find_identity_def activated_db_def find_update_where)

lemma audited_authenticate:
  assumes "audited A d d'"
  shows "authenticate d' = authenticate d"
proof -
  have "find_certificate d' = find_certificate d" "find_identity d' = find_identity d"
    using audited_frame [OF assms] by (simp_all add: find_certificate_def find_identity_def fun_eq_iff)
  then show ?thesis by (intro ext) (simp only: authenticate_def)
qed

lemma rotated_still_live:
  assumes "now \<le> now'" "now' < now + ROTATION_GRACE" "fp' \<noteq> fp"
    and "authenticate d now' (Some fp') role = Inr identity"
  shows "authenticate (activated_db d now identity fp serial) now' (Some fp') role = Inr identity"
    (is "authenticate ?a now' _ role = _")
proof -
  obtain c2 i2 where h: "find_certificate d fp' = Some c2" "find_identity d (c_identity_id c2) = Some i2"
      "certificate_live now' c2" "identity_live role i2" "identity = i_id i2"
    using assms(4) by (auto simp: authenticate_iff)
  obtain c3 where c3: "find_certificate ?a fp' = Some c3" "c_identity_id c3 = c_identity_id c2" "certificate_live now' c3"
    using h(1,3) assms(1-3)
    by (auto simp: activated_certificate certificate_live_def retire_certificate_def split: option.splits)
  obtain i3 where "find_identity ?a (c_identity_id c2) = Some i3" "identity_live role i3" "i_id i3 = i_id i2"
    using h(2,4) by (auto simp: activated_identity identity_live_def split: option.splits)
  with c3 h(5) show ?thesis by (auto simp: authenticate_iff)
qed

lemma rotated_retired:
  assumes "now + ROTATION_GRACE \<le> now'" "fp' \<noteq> fp"
  shows "authenticate (activated_db d now identity fp serial) now' (Some fp') role' \<noteq> Inr identity"
    (is "authenticate ?a now' _ role' \<noteq> _")
proof
  assume "authenticate ?a now' (Some fp') role' = Inr identity"
  then obtain c2 i2 where c2: "find_certificate ?a fp' = Some c2" "find_identity ?a (c_identity_id c2) = Some i2"
      "certificate_live now' c2" "identity = i_id i2"
    by (auto simp: authenticate_iff)
  then have "c_identity_id c2 = identity" by (auto simp: find_identity_def find_Some_iff)
  moreover obtain c0 where c0: "c2 = (if c_identity_id c0 = identity \<and> c_state c0 = CertActive \<and> c_revoked_at c0 = None \<and>
      c_expires_at c0 > now then retire_certificate now c0 else c0)"
    using c2(1) assms(2) by (auto simp: activated_certificate)
  moreover have "c_identity_id (retire_certificate now c0) = c_identity_id c0" by (simp add: retire_certificate_def)
  ultimately have "c_identity_id c0 = identity" by (simp split: if_splits)
  have grace: "now < now'" using assms(1) by (simp add: ROTATION_GRACE_def secs_def nanos_per_second_def)
  show False
  proof (cases "c_state c0 = CertActive \<and> c_revoked_at c0 = None \<and> c_expires_at c0 > now")
    case True
    then have "c2 = retire_certificate now c0" using c0 \<open>c_identity_id c0 = identity\<close> by simp
    then show False using c2(3) assms(1) by (simp add: certificate_live_def retire_certificate_def)
  next
    case False
    then have "c2 = c0" using c0 by auto
    then show False using c2(3) False grace by (simp add: certificate_live_def)
  qed
qed

text \<open>
  C22. Certificate rotation: when a pending certificate of an identity is activated, it authenticates
  at once and until it expires; every other certificate of the identity that authenticated keeps
  doing so for the next hour as long as it would have anyway; and from one hour on none of them
  does.
\<close>

theorem rotation_grace_period:
  assumes "find_certificate d fp = Some c" and "c_state c = CertPending"
    and "activate_identity_certificate E d now identity fp role audit_id = Inr d'" and "fp' \<noteq> fp"
  shows "(now' < c_expires_at c \<longrightarrow> authenticate d' now' (Some fp) role = Inr identity) \<and>
    (now \<le> now' \<and> now' < now + ROTATION_GRACE \<and> authenticate d now' (Some fp') role = Inr identity \<longrightarrow>
       authenticate d' now' (Some fp') role = Inr identity) \<and>
    (now + ROTATION_GRACE \<le> now' \<longrightarrow> authenticate d' now' (Some fp') role' \<noteq> Inr identity)"
  using assms(3)
proof (cases rule: activate_commits)
  case (fresh i c')
  have c: "c' = c" using fresh assms(1) by simp
  let ?a = "activated_db d now identity fp (c_serial c)"
  have auth: "authenticate d' = authenticate ?a" using fresh(9) c by (simp add: audited_authenticate)
  have iid: "i_id i = identity" using fresh(1) by (auto simp: find_identity_def find_Some_iff)
  have "authenticate ?a now' (Some fp) role = Inr identity" if "now' < c_expires_at c"
    using that fresh c iid
    by (simp add: authenticate_iff activated_certificate activated_identity certificate_live_def identity_live_def
        split: option.split)
  then show ?thesis
    unfolding auth using rotated_still_live [OF _ _ assms(4)] rotated_retired [OF _ assms(4)] by blast
qed (use assms in simp)

theorem rotation_grace_period_witness:
  "find_certificate demo_server_db ''f4'' = Some demo_renewal \<and>
   (\<exists>d'. activate_identity_certificate demo_server demo_server_db (secs 50) 3 ''f4'' RoleClient 100 = Inr d' \<and>
     authenticate d' (secs 60) (Some ''f4'') RoleClient = Inr 3 \<and>
     authenticate d' (secs 60) (Some ''f2'') RoleClient = Inr 3 \<and>
     authenticate d' (secs 3650) (Some ''f2'') RoleClient \<noteq> Inr 3)"
proof -
  have f: "find_certificate demo_server_db ''f4'' = Some demo_renewal"
    by (simp add: find_certificate_def demo_rows)
  have s: "c_state demo_renewal = CertPending" by (simp add: demo_renewal_def)
  obtain d' where d': "activate_identity_certificate demo_server demo_server_db (secs 50) 3 ''f4'' RoleClient 100 = Inr d'"
    by (simp add: activate_identity_certificate_def find_identity_def find_certificate_def demo_rows demo_envs
        unique_elsewhere_def deadline_passed_def append_audit_def insert_audit_def fk_identity_def activated_db_def
        Let_def secs_def nanos_per_second_def)
  have old: "authenticate demo_server_db (secs 60) (Some ''f2'') RoleClient = Inr 3"
    by (simp add: authenticate_def peer_certificate_fingerprint_def find_certificate_def find_identity_def
        certificate_live_def identity_live_def demo_rows secs_def nanos_per_second_def)
  note rot = rotation_grace_period [OF f s d', of "''f2''" _ RoleClient]
  show ?thesis
    using f d' old rot [of "secs 60"] rot [of "secs 3650"]
    by (auto simp: ROTATION_GRACE_def demo_renewal_def secs_def nanos_per_second_def)
qed

end
