(* ===== verification/Job_Safety.thy ===== *)
theory Job_Safety
  imports Server_Demo
begin

text \<open>
  What the server guarantees about jobs: each transaction moves every job along an abstract life
  cycle (\<open>job_move\<close>), a job that reported an event is never delivered again, starting a job is
  idempotent, the grant that goes with a delivery verifies on the device, maintenance leaves no job
  stuck, and the event stream has no gaps and no duplicates.
\<close>

section \<open>The abstract life cycle\<close>

inductive job_move :: "job_state \<Rightarrow> job_state \<Rightarrow> bool" where
  deliver: "job_move Queued Dispatched"
| acknowledged: "job_move Dispatched Acknowledged"
| undelivered: "job_move Dispatched Queued"
| unstarted: "job_move Acknowledged Queued"
| report: "s \<in> {Acknowledged, Running} \<Longrightarrow> s' \<in> {Running, Succeeded, Failed} \<Longrightarrow> job_move s s'"
| expire: "s \<in> {Queued, Dispatched, Acknowledged, Running} \<Longrightarrow> job_move s TimedOut"

inductive_cases job_moveE: "job_move s s'"

lemma job_move_open: "job_move s s' \<Longrightarrow> \<not> is_terminal_job_state s"
  by (auto elim!: job_moveE simp: is_terminal_job_state_def)

lemma job_move_started: "job_move s s' \<Longrightarrow> s \<notin> {Queued, Dispatched, Acknowledged} \<Longrightarrow> s' \<notin> {Queued, Dispatched, Acknowledged}"
  by (auto elim!: job_moveE)

definition same_job :: "job_row \<Rightarrow> job_row \<Rightarrow> bool" where
  "same_job j j' \<longleftrightarrow> jb_id j' = jb_id j \<and> jb_request_id j' = jb_request_id j \<and> jb_target_id j' = jb_target_id j \<and>
     jb_actor_id j' = jb_actor_id j \<and> jb_kind j' = jb_kind j \<and> jb_parameters j' = jb_parameters j \<and>
     jb_reason j' = jb_reason j \<and> jb_idempotency_key j' = jb_idempotency_key j \<and>
     jb_expires_at j' = jb_expires_at j \<and> jb_created_at j' = jb_created_at j"

definition job_evolves :: "db \<Rightarrow> db \<Rightarrow> job_row \<Rightarrow> job_row \<Rightarrow> bool" where
  "job_evolves d d' j j' \<longleftrightarrow> same_job j j' \<and>
     (\<exists>es. events_of d' (jb_id j) = events_of d (jb_id j) @ es \<and>
        (jb_state j' = jb_state j \<and> es = [] \<or> job_move (jb_state j) (jb_state j')))"

definition jobs_evolve :: "db \<Rightarrow> db \<Rightarrow> bool" where
  "jobs_evolve d d' \<longleftrightarrow> (\<forall>j \<in> set (db_jobs d). \<exists>j' \<in> set (db_jobs d'). job_evolves d d' j j')"

lemma evolve_same:
  "set (db_jobs d) \<subseteq> set (db_jobs d') \<Longrightarrow> db_events d' = db_events d \<Longrightarrow> jobs_evolve d d'"
  by (auto simp: jobs_evolve_def job_evolves_def same_job_def events_of_def)

lemma evolve_audited: "audited A d d' \<Longrightarrow> jobs_evolve d d'"
  by (simp add: evolve_same audited_frame)

lemma evolve_update:
  assumes inv: "server_inv d" and j0: "j0 \<in> set (db_jobs d)"
    and d': "db_jobs d' = update_where (\<lambda>r. jb_id r = jb_id j0) f (db_jobs d)" "db_events d' = db_events d @ es"
    and es: "\<forall>e \<in> set es. ev_job_id e = jb_id j0"
    and f: "same_job j0 (f j0)" "job_move (jb_state j0) (jb_state (f j0))"
  shows "jobs_evolve d d'"
  unfolding jobs_evolve_def
proof
  fix j assume j: "j \<in> set (db_jobs d)"
  show "\<exists>j' \<in> set (db_jobs d'). job_evolves d d' j j'"
  proof (cases "jb_id j = jb_id j0")
    case True
    then have "j = j0" using inv j j0 by (auto simp: server_inv_def job_inv_def distinct_map inj_on_def)
    have "events_of d' (jb_id j0) = events_of d (jb_id j0) @ es"
      using es by (simp add: events_of_def d'(2) filter_id_conv)
    moreover have "f j0 \<in> set (db_jobs d')" using j0 by (auto simp: d'(1) set_update_where image_iff intro!: bexI [of _ j0])
    ultimately show ?thesis using f \<open>j = j0\<close> unfolding job_evolves_def by blast
  next
    case False
    then have "filter (\<lambda>e. ev_job_id e = jb_id j) es = []" using es by (auto simp: filter_empty_conv)
    moreover have "j \<in> set (db_jobs d')" using j False by (auto simp: d'(1) set_update_where image_iff intro!: bexI [of _ j])
    ultimately show ?thesis
      by (intro bexI [of _ j]) (simp_all add: job_evolves_def same_job_def events_of_def d'(2))
  qed
qed

lemma maintained_job:
  assumes "j \<in> set (db_jobs d)"
  obtains j' where "j' \<in> set (db_jobs (d \<lparr> db_jobs := requeue_unstarted now (requeue_undelivered now (db_jobs d)) \<rparr>))"
    "same_job j j'" "jb_state j' = jb_state j \<or> job_move (jb_state j) (jb_state j') \<and> jb_expires_at j > now"
proof -
  let ?P = "delivery_lapsed now" and ?Q = "start_lapsed now"
  let ?f = "\<lambda>j. if ?P j then j \<lparr> jb_state := Queued, jb_delivery_id := None, jb_delivery_lease := None \<rparr> else j"
  let ?g = "\<lambda>j. if ?Q j then j \<lparr> jb_state := Queued, jb_execution_start := None \<rparr> else j"
  have "?g (?f j) \<in> set (requeue_unstarted now (requeue_undelivered now (db_jobs d)))"
    using assms unfolding requeue_unstarted_def requeue_undelivered_def set_update_where by (intro imageI)
  moreover have "same_job j (?g (?f j))" by (simp add: same_job_def)
  moreover have "jb_state (?g (?f j)) = jb_state j \<or> job_move (jb_state j) (jb_state (?g (?f j))) \<and> jb_expires_at j > now"
    by (auto simp: delivery_lapsed_def start_lapsed_def intro: job_move.intros)
  ultimately show thesis by (intro that [of "?g (?f j)"]) simp_all
qed

lemma evolve_maintained:
  assumes "server_inv d" "maintenance_once d now = Inr d'"
  shows "jobs_evolve d d'"
  unfolding jobs_evolve_def
proof
  fix j assume j: "j \<in> set (db_jobs d)"
  let ?r = "d \<lparr> db_jobs := requeue_unstarted now (requeue_undelivered now (db_jobs d)) \<rparr>"
  have inv: "job_inv ?r" using assms(1) by (simp add: server_inv_def job_inv_requeued)
  have frame: "db_jobs d' = db_jobs (expire_jobs now ?r)" "events_of d' = events_of (expire_jobs now ?r)"
    using assms(2) maintenance_eq [OF assms(1), of now]
    by (auto simp: delete_identities_def Let_def maintained_jobs_def events_of_def)
  obtain j1 where j1: "j1 \<in> set (db_jobs ?r)" "same_job j j1"
      "jb_state j1 = jb_state j \<or> job_move (jb_state j) (jb_state j1) \<and> jb_expires_at j > now"
    by (rule maintained_job [OF j, of now])
  let ?t = "\<lambda>r. r \<lparr> jb_state := TimedOut, jb_delivery_id := None, jb_delivery_lease := None, jb_execution_start := None \<rparr>"
  let ?j = "if job_expired now j1 then ?t j1 else j1"
  have "?j \<in> set (db_jobs d')"
    using j1(1) unfolding frame by (simp add: expire_jobs_def set_update_where image_iff) blast
  moreover have "job_evolves d d' j ?j"
  proof (cases "job_expired now j1")
    case True
    then have "jb_state j1 = jb_state j" using j1(2,3) by (auto simp: job_expired_def same_job_def)
    then have "job_move (jb_state j) TimedOut"
      using True by (auto simp: job_expired_def open_state_def intro: job_move.expire)
    with True show ?thesis
      using j1(2) frame(2) expire_events [OF inv, of now] by (simp add: job_evolves_def same_job_def events_of_def)
  next
    case False
    then have "events_of d' (jb_id j) = events_of d (jb_id j)"
      using expire_events [OF inv, of now "jb_id j1"] expired_id [OF inv j1(1), of now] j1(2) frame(2)
      by (simp add: same_job_def events_of_def)
    with False j1(2,3) show ?thesis by (auto simp: job_evolves_def)
  qed
  ultimately show "\<exists>j' \<in> set (db_jobs d'). job_evolves d d' j j'" by blast
qed

lemma step_jobs:
  assumes "server_step J p d l d'" "server_inv d"
  shows "jobs_evolve d d'"
  using assms(1)
proof cases
  case (create_key t role name ttl i secret salt permit key row now actor audit_id)
  then show ?thesis by (simp add: evolve_same audited_frame [OF create_key_commits(2) [OF create_key(3)]])
next
  case (revoke_key now actor key_id reason audit_id)
  then show ?thesis by (simp add: evolve_same audited_frame [OF revoke_key_commits [OF revoke_key(2)]])
next
  case (enroll now t name elevation platform i audit_id r)
  from enroll(2) show ?thesis
    by (rule enroll_commits) (simp add: evolve_same audited_frame enrolled_db_def)
next
  case (activate now identity fp role audit_id)
  from activate(2) show ?thesis
    by (rule activate_commits) (simp_all add: evolve_same audited_frame activated_db_def)
next
  case (renew now identity fp issued kind audit_id)
  then show ?thesis by (simp add: evolve_same audited_frame [OF renew_commits(3) [OF renew(2)]])
next
  case (replace now current replacement reason audit_id)
  then show ?thesis by (simp add: evolve_same audited_frame [OF replace_commits [OF replace(2)]] revoked_db_def)
next
  case (revoke now actor identity reason audit_id)
  then show ?thesis by (simp add: evolve_same audited_frame [OF revoke_commits [OF revoke(2)]] revoked_db_def)
next
  case (hello now identity h)
  from hello(2) show ?thesis by (rule hello_commits) (simp add: evolve_same)
next
  case (heartbeat now identity)
  then show ?thesis by (simp add: evolve_same heartbeat_db_def)
next
  case (start actor snapshot t request i row now audit_id stored)
  from start(5) show ?thesis
    by (rule start_commits) (auto elim!: upsert_cases intro!: evolve_same simp: audited_frame)
next
  case (claim now identity delivery_id grant_id r)
  from claim_commits [OF claim(2)] show ?thesis
  proof
    assume "\<exists>j. next_queued d now identity = Some j \<and> supports_typed_jobs d identity \<and>
      d' = claimed_db d now (jb_id j) delivery_id"
    then obtain j where j: "next_queued d now identity = Some j" "d' = claimed_db d now (jb_id j) delivery_id" by blast
    show ?thesis
    proof (rule evolve_update [OF assms(2) next_queued_Some(1) [OF j(1)]])
      show "db_jobs d' = update_where (\<lambda>r. jb_id r = jb_id j)
          (\<lambda>r. r \<lparr> jb_state := Dispatched, jb_delivery_id := Some delivery_id,
            jb_delivery_lease := Some (now + secs JOB_DELIVERY_LEASE_SECONDS) \<rparr>) (db_jobs d)"
        by (simp add: j(2) claimed_db_def)
      show "db_events d' = db_events d @ (if (jb_id j, 0) \<in> set (map (\<lambda>e. (ev_job_id e, ev_sequence e)) (db_events d))
          then [] else [dispatched_event (jb_id j)])"
        by (simp add: j(2) claimed_db_def)
    qed (use next_queued_Some(2) [OF j(1)] in \<open>auto simp: same_job_def dispatched_event_def intro: job_move.intros\<close>)
  qed (simp add: evolve_same)
next
  case (acknowledge now identity job delivery)
  from acknowledge(2) show ?thesis
  proof (rule acknowledge_commits)
    fix j assume "j \<in> set (db_jobs d)" "jb_state j = Dispatched"
      "d' = d \<lparr> db_jobs := update_where (\<lambda>r. jb_id r = jb_id j)
         (\<lambda>r. r \<lparr> jb_state := Acknowledged, jb_delivery_id := None, jb_delivery_lease := None,
                jb_execution_start := Some (now + secs JOB_EXECUTION_START_LEASE_SECONDS) \<rparr>) (db_jobs d) \<rparr>"
    then show ?thesis
      by (intro evolve_update [OF assms(2), where ?j0.0 = j and es = "[]" and
          f = "\<lambda>r. r \<lparr> jb_state := Acknowledged, jb_delivery_id := None, jb_delivery_lease := None,
            jb_execution_start := Some (now + secs JOB_EXECUTION_START_LEASE_SECONDS) \<rparr>"])
        (auto simp: same_job_def intro: job_move.intros)
  qed
next
  case (event now identity ev job s)
  from event(2) show ?thesis
  proof (rule persist_commits)
    fix j :: job_row and e :: job_event_row
    assume "j \<in> set (db_jobs d)" "jb_state j \<in> {Acknowledged, Running}" "ev_state e \<in> {Running, Succeeded, Failed}"
      "ev_job_id e = jb_id j" "d' = persisted_db d (jb_id j) e"
    then show ?thesis
      by (intro evolve_update [OF assms(2), where ?j0.0 = j and es = "[e]" and
          f = "\<lambda>r. r \<lparr> jb_state := ev_state e, jb_execution_start := None \<rparr>"])
        (auto simp: persisted_db_def same_job_def intro: job_move.intros)
  qed
next
  case (maintain now)
  show ?thesis by (rule evolve_maintained [OF assms(2) maintain(2)])
next
  case audit
  then show ?thesis by (simp add: evolve_audited)
qed

lemma evolve_started:
  assumes "jobs_evolve d d'" "\<exists>j \<in> set (db_jobs d). jb_id j = job \<and> jb_state j \<notin> {Queued, Dispatched, Acknowledged}"
  shows "\<exists>j \<in> set (db_jobs d'). jb_id j = job \<and> jb_state j \<notin> {Queued, Dispatched, Acknowledged}"
proof -
  obtain j where j: "j \<in> set (db_jobs d)" "jb_id j = job" "jb_state j \<notin> {Queued, Dispatched, Acknowledged}"
    using assms(2) by blast
  obtain j' where "j' \<in> set (db_jobs d')" "job_evolves d d' j j'"
    using assms(1) j(1) by (auto simp: jobs_evolve_def)
  with j show ?thesis by (auto simp: job_evolves_def same_job_def dest: job_move_started)
qed

definition job_in_states :: "uuid \<Rightarrow> job_state set \<Rightarrow> db \<Rightarrow> bool" where
  "job_in_states job S d \<longleftrightarrow> (\<exists>j \<in> set (db_jobs d). jb_id j = job \<and> jb_state j \<in> S)"

lemma job_unique:
  assumes "server_inv d" "j \<in> set (db_jobs d)" "j' \<in> set (db_jobs d)" "jb_id j = jb_id j'"
  shows "j = j'"
  using assms by (auto simp: server_inv_def job_inv_def distinct_map inj_on_def)

lemma states_meet:
  assumes "server_inv d" "job_in_states job S d" "job_in_states job T d"
  shows "T \<inter> S \<noteq> {}"
  using assms job_unique [OF assms(1)] unfolding job_in_states_def by blast

lemma closed_states_step:
  assumes "server_inv d" "job_in_states job S d" "server_step J p d l d'" "\<And>s s'. s \<in> S \<Longrightarrow> job_move s s' \<Longrightarrow> s' \<in> S"
  shows "job_in_states job S d'"
proof -
  obtain j where j: "j \<in> set (db_jobs d)" "jb_id j = job" "jb_state j \<in> S"
    using assms(2) by (auto simp: job_in_states_def)
  obtain j' where "j' \<in> set (db_jobs d')" "job_evolves d d' j j'"
    using step_jobs [OF assms(3,1)] j(1) by (auto simp: jobs_evolve_def)
  with j assms(4) show ?thesis by (auto simp: job_in_states_def job_evolves_def same_job_def)
qed

lemma claimed_step:
  assumes "server_step J p d (Claimed job) d'"
  shows "job_in_states job {Queued} d"
  using assms
  by cases (auto simp: job_in_states_def split: option.splits if_splits dest: next_queued_Some)

lemma event_step:
  assumes "server_step J p d (EventStored job s) d'"
  shows "job_in_states job {Acknowledged, Running} d \<and> job_in_states job {s} d' \<and> s \<in> {Running, Succeeded, Failed}"
  using assms
proof cases
  case (event now identity ev)
  from event(1) show ?thesis
  proof (rule persist_commits)
    fix j :: job_row and e :: job_event_row
    assume j: "j \<in> set (db_jobs d)" "jb_state j \<in> {Acknowledged, Running}"
      "parse_uuid (je_server J) (jv_job_id ev) ''job_id'' = Inr (jb_id j)"
      "jv_state ev = Some (ev_state e)" "ev_state e \<in> {Running, Succeeded, Failed}" "d' = persisted_db d (jb_id j) e"
    have e: "jb_id j = job" "s = ev_state e" using j(3,4) event(2,3) by simp_all
    have "j \<lparr> jb_state := ev_state e, jb_execution_start := None \<rparr> \<in> set (db_jobs d')"
      using j(1,6) by (auto simp: persisted_db_def set_update_where image_iff intro!: bexI [of _ j])
    then have "job_in_states job {s} d'" unfolding job_in_states_def by (rule bexI [rotated]) (simp add: e)
    moreover have "job_in_states job {Acknowledged, Running} d"
      unfolding job_in_states_def using j(1,2) e(1) by blast
    ultimately show ?thesis using j(5) e(2) by simp
  qed
qed (auto split: option.splits if_splits)

section \<open>Properties\<close>

text \<open>
  C10. The job table refines the abstract life cycle: whatever transaction runs, every job that was
  there is still there with the same request, target, actor, kind, parameters and deadline; its
  state stays, and then so do its events, or it makes a move of the life cycle (queued, dispatched,
  acknowledged, running, and a terminal state that admits no move), and then events are at most
  added at the end.
\<close>

theorem job_lifecycle_refined:
  assumes "server_inv d" and "server_step J privileged d l d'" and "j \<in> set (db_jobs d)"
  shows "\<exists>j' \<in> set (db_jobs d'). same_job j j' \<and>
    (jb_state j' = jb_state j \<and> events_of d' (jb_id j) = events_of d (jb_id j) \<or>
     job_move (jb_state j) (jb_state j') \<and>
       take (length (events_of d (jb_id j))) (events_of d' (jb_id j)) = events_of d (jb_id j))"
proof -
  obtain j' where j': "j' \<in> set (db_jobs d')" "job_evolves d d' j j'"
    using step_jobs [OF assms(2,1)] assms(3) by (auto simp: jobs_evolve_def)
  then show ?thesis by (intro bexI [OF _ j'(1)]) (auto simp: job_evolves_def)
qed

lemma demo_claim:
  "server_step demo_jobs True demo_server_db (Claimed 5) (claimed_db demo_server_db (secs 10) 5 70)"
proof -
  have n: "next_queued demo_server_db (secs 10) 3 = Some demo_job"
    by (simp add: next_queued_def demo_rows secs_def nanos_per_second_def)
  have t: "supports_typed_jobs demo_server_db 3" by (simp add: supports_typed_jobs_def demo_rows)
  have "snd (claim_next_job demo_jobs demo_server_db (secs 10) 3 70 71) = claimed_db demo_server_db (secs 10) 5 70"
    by (simp add: claim_next_job_def n t Let_def job_kind_text_def demo_job_def split: sum.split)
  then have "claim_next_job demo_jobs demo_server_db (secs 10) 3 70 71 =
      (fst (claim_next_job demo_jobs demo_server_db (secs 10) 3 70 71), claimed_db demo_server_db (secs 10) 5 70)"
    by (simp add: prod_eq_iff)
  moreover have "jb_id demo_job = 5" by (simp add: demo_job_def)
  ultimately show ?thesis using server_step.claim [where privileged = True] n t by fastforce
qed

theorem job_lifecycle_refined_witness:
  "\<exists>j' \<in> set (db_jobs (claimed_db demo_server_db (secs 10) 5 70)). same_job demo_job j' \<and>
     (jb_state j' = Queued \<or> job_move Queued (jb_state j'))"
proof -
  have "demo_job \<in> set (db_jobs demo_server_db)" "jb_state demo_job = Queued" by (simp_all add: demo_rows)
  with job_lifecycle_refined [OF demo_server_inv demo_claim, of demo_job] show ?thesis by auto
qed

text \<open>
  C8. A job that has started is never delivered again: once an event of a job is stored, no later
  transaction of any kind, maintenance included, hands the job out a second time, and after a
  terminal event no further event of it is stored.
\<close>

theorem started_job_never_redelivered:
  assumes "server_inv d" and "server_run J privileged d (EventStored job s # ls) d'"
  shows "Claimed job \<notin> set ls \<and> (is_terminal_job_state s \<longrightarrow> (\<forall>s'. EventStored job s' \<notin> set ls))"
proof -
  obtain d1 where d1: "server_step J privileged d (EventStored job s) d1" "server_run J privileged d1 ls d'"
    using assms(2) by (auto simp: steps_Cons)
  have inv: "server_inv d1" by (rule server_step_inv [OF d1(1) assms(1)])
  note e = event_step [OF d1(1)]
  let ?S = "- {Queued, Dispatched, Acknowledged}"
  have "\<forall>l \<in> set ls. \<not> l = Claimed job"
  proof (rule srv.never [where P = "job_in_states job ?S", OF _ _ d1(2) inv])
    fix x l y assume x: "server_inv x" "job_in_states job ?S x" "server_step J privileged x l y"
    show "job_in_states job ?S y"
      by (rule closed_states_step [OF x]) (use job_move_started in blast)
    show "\<not> l = Claimed job"
      using claimed_step [of J privileged x job y] x states_meet [OF x(1,2), of "{Queued}"] by auto
  next
    show "job_in_states job ?S d1" using e by (auto simp: job_in_states_def)
  qed
  moreover have "\<forall>l \<in> set ls. \<not> (\<exists>s'. l = EventStored job s')" if t: "is_terminal_job_state s"
  proof (rule srv.never [where P = "job_in_states job {s. is_terminal_job_state s}", OF _ _ d1(2) inv])
    fix x l y assume x: "server_inv x" "job_in_states job {s. is_terminal_job_state s} x" "server_step J privileged x l y"
    show "job_in_states job {s. is_terminal_job_state s} y"
      by (rule closed_states_step [OF x]) (use job_move_open in blast)
    show "\<not> (\<exists>s'. l = EventStored job s')"
    proof
      assume "\<exists>s'. l = EventStored job s'"
      then have "job_in_states job {Acknowledged, Running} x" using event_step x(3) by blast
      with x(2) have "{Acknowledged, Running} \<inter> {s. is_terminal_job_state s} \<noteq> {}" by (rule states_meet [OF x(1)])
      then show False by (simp add: is_terminal_job_state_def)
    qed
  next
    show "job_in_states job {s. is_terminal_job_state s} d1" using e t by (auto simp: job_in_states_def)
  qed
  ultimately show ?thesis by blast
qed

text \<open>A run that delivers, acknowledges and starts the demo job.\<close>

definition demo_event :: job_event where
  "demo_event = \<lparr> jv_job_id = ''5'', jv_sequence = 1, jv_state = Some Running, jv_output = [111, 107],
     jv_stderr = False, jv_exit_code = 0, jv_terminal = False \<rparr>"

definition demo_acknowledged_db :: db where
  "demo_acknowledged_db = (let d = claimed_db demo_server_db (secs 10) 5 70 in
     d \<lparr> db_jobs := update_where (\<lambda>j. jb_id j = 5)
       (\<lambda>j. j \<lparr> jb_state := Acknowledged, jb_delivery_id := None, jb_delivery_lease := None,
              jb_execution_start := Some (secs 11 + secs JOB_EXECUTION_START_LEASE_SECONDS) \<rparr>) (db_jobs d) \<rparr>)"

lemma demo_acknowledged_simps:
  "db_jobs demo_acknowledged_db = [demo_job \<lparr> jb_state := Acknowledged, jb_delivery_id := None,
     jb_delivery_lease := None, jb_execution_start := Some (secs 71) \<rparr>]"
  "db_events demo_acknowledged_db = [dispatched_event 5]"
  by (simp_all add: demo_acknowledged_db_def claimed_db_def demo_rows Let_def
      JOB_EXECUTION_START_LEASE_SECONDS_def secs_def nanos_per_second_def)

lemma demo_acknowledged_inv: "server_inv demo_acknowledged_db"
proof -
  have "server_inv (claimed_db demo_server_db (secs 10) 5 70)"
    by (rule server_step_inv [OF demo_claim demo_server_inv])
  moreover have "acknowledge_job_delivery demo_server (claimed_db demo_server_db (secs 10) 5 70) (secs 11) 3 ''5'' ''70'' =
      Inr demo_acknowledged_db"
    by (simp add: acknowledge_job_delivery_def parse_uuid_def find_job_def claimed_db_def demo_rows demo_envs
        deadline_passed_def demo_acknowledged_db_def Let_def JOB_DELIVERY_LEASE_SECONDS_def secs_def nanos_per_second_def)
  ultimately show ?thesis by (rule server_inv_acknowledge)
qed

lemma demo_event_step:
  "\<exists>d'. server_step demo_jobs True demo_acknowledged_db (EventStored 5 Running) d'"
proof -
  have "\<exists>d'. persist_job_event (je_server demo_jobs) demo_acknowledged_db (secs 20) 3 demo_event = Inr d'"
    by (simp add: persist_job_event_def parse_uuid_def demo_event_def demo_envs find_job_def events_of_def
        demo_acknowledged_simps demo_job_def dispatched_event_def validate_job_event_shape_def
        validate_job_transition_def is_terminal_job_state_def deadline_passed_def expected_sequence_def
        retained_bytes_def MAX_JOB_EVENTS_def MAX_JOB_EVENT_OUTPUT_BYTES_def MAX_JOB_RETAINED_OUTPUT_BYTES_def
        Let_def secs_def nanos_per_second_def)
  then obtain d' where d': "persist_job_event (je_server demo_jobs) demo_acknowledged_db (secs 20) 3 demo_event = Inr d'"
    by blast
  have "parse_uuid (je_server demo_jobs) (jv_job_id demo_event) ''job_id'' = Inr 5" "jv_state demo_event = Some Running"
    by (simp_all add: parse_uuid_def demo_event_def demo_envs)
  from server_step.event [OF d' this] show ?thesis by blast
qed

theorem started_job_never_redelivered_witness:
  "\<exists>d'. server_run demo_jobs True demo_acknowledged_db [EventStored 5 Running, Other] d' \<and> Claimed 5 \<notin> set [Other]"
proof -
  obtain d1 where "server_step demo_jobs True demo_acknowledged_db (EventStored 5 Running) d1"
    using demo_event_step by blast
  then have run: "server_run demo_jobs True demo_acknowledged_db [EventStored 5 Running, Other] (heartbeat_db d1 (secs 21) 3)"
    by (rule steps.step) (rule steps.step, rule server_step.heartbeat, rule steps.stop)
  from started_job_never_redelivered [OF demo_acknowledged_inv run] run show ?thesis by blast
qed

text \<open>
  C12. Starting a job is idempotent per request: when a start with the same actor and request id
  arrives later, after whatever other transactions, and succeeds, it returns the job of the first
  start and creates nothing, so a retried RPC never queues the operation twice.
\<close>

theorem start_job_idempotent:
  assumes "server_inv d" and "activated d actor"
    and "start_job_prepare J snapshot t actor request i = Inr r" and "start_job_commit J d now r audit_id = Inr (row, d1)"
    and "server_run J True d1 ls d2"
    and "start_job_commit J d2 now2 r2 audit_id2 = Inr (row2, d3)"
    and "jb_actor_id r2 = jb_actor_id r" and "jb_request_id r2 = jb_request_id r"
  shows "same_job row row2 \<and> db_jobs d3 = db_jobs d2"
proof -
  have inv1: "server_inv d1" by (rule server_inv_started [OF assms(1-4)])
  obtain d0 where u: "upsert_job d r = Inr (row, d0)" "audited (se_audit (je_server J)) d0 d1"
    by (rule start_commits [OF assms(4)])
  from u(1) have row: "row \<in> set (db_jobs d1)" "jb_actor_id row = jb_actor_id r" "jb_request_id row = jb_request_id r"
    by (cases rule: upsert_cases; simp add: audited_frame [OF u(2)])+
  have "\<exists>j \<in> set (db_jobs d2). same_job row j"
  proof (rule srv.kept [where P = "\<lambda>d. \<exists>j \<in> set (db_jobs d). same_job row j" and L = UNIV, OF _ assms(5) inv1])
    fix x l y assume "server_inv x" "\<exists>j \<in> set (db_jobs x). same_job row j" "server_step J True x l y"
    then show "\<exists>j \<in> set (db_jobs y). same_job row j"
      using step_jobs [of J True x l y] by (fastforce simp: jobs_evolve_def job_evolves_def same_job_def)
  qed (use row(1) in \<open>auto simp: same_job_def\<close>)
  then obtain j where j: "j \<in> set (db_jobs d2)" "same_job row j" by blast
  have inv2: "server_inv d2" by (rule srv.inv_steps [OF assms(5) inv1])
  obtain d4 where v: "upsert_job d2 r2 = Inr (row2, d4)" "audited (se_audit (je_server J)) d4 d3"
    by (rule start_commits [OF assms(6)])
  have jr: "jb_actor_id j = jb_actor_id r2" "jb_request_id j = jb_request_id r2"
    using j(2) row(2,3) assms(7,8) by (simp_all add: same_job_def)
  from v(1) show ?thesis
  proof (cases rule: upsert_cases)
    case old
    then have "row2 = j"
      using inv2 j(1) jr by (auto simp: server_inv_def job_inv_def distinct_map inj_on_def)
    then show ?thesis using j(2) old(1) by (simp add: audited_frame [OF v(2)])
  next
    case new
    then show ?thesis using j(1) jr by blast
  qed
qed

definition demo_start :: start_job_request where
  "demo_start = \<lparr> sj_request_id = ''5'', sj_target_id = ''3'', sj_kind = Some KindRestartMachine,
     sj_reason = ''patch'', sj_parameters_json = [] \<rparr>"

definition demo_started :: "uuid \<Rightarrow> job_row" where
  "demo_started i = demo_job \<lparr> jb_id := i, jb_request_id := 5, jb_idempotency_key := 5,
     jb_expires_at := secs 910, jb_created_at := secs 10 \<rparr>"

lemma demo_prepare: "start_job_prepare demo_jobs None (secs 10) 1 demo_start i = Inr (demo_started i)"
proof -
  have "validate_name ''patch'' 512 = Inr ()"
    by (simp add: validate_name_def trim_def has_control_def is_space1_def is_space2_def is_space3_def char_of_def bit_0)
  then show ?thesis
    by (simp add: start_job_prepare_def parse_uuid_def demo_start_def demo_envs job_parameters_def
        MAX_PARAMETERS_BYTES_def demo_started_def demo_job_def secs_def nanos_per_second_def)
qed

lemma demo_starts:
  "\<exists>d1. start_job_commit demo_jobs demo_server_db (secs 10) (demo_started 80) 100 = Inr (demo_started 80, d1) \<and>
     (\<exists>row d2. start_job_commit demo_jobs d1 (secs 12) (demo_started 81) 101 = Inr (row, d2))"
  by (simp add: start_job_commit_def identity_live_def supports_typed_jobs_def upsert_job_def find_identity_def
      demo_started_def demo_rows demo_envs append_audit_def insert_audit_def fk_identity_def Let_def)

theorem start_job_idempotent_witness:
  "\<exists>d1 row d2. start_job_commit demo_jobs demo_server_db (secs 10) (demo_started 80) 100 = Inr (demo_started 80, d1) \<and>
     start_job_commit demo_jobs d1 (secs 12) (demo_started 81) 101 = Inr (row, d2) \<and> jb_id row = 80 \<and>
     db_jobs d2 = db_jobs d1"
proof -
  obtain d1 row d2 where s: "start_job_commit demo_jobs demo_server_db (secs 10) (demo_started 80) 100 = Inr (demo_started 80, d1)"
      "start_job_commit demo_jobs d1 (secs 12) (demo_started 81) 101 = Inr (row, d2)"
    using demo_starts by blast
  have a: "activated demo_server_db 1" by (simp add: activated_def demo_rows)
  have "same_job (demo_started 80) row \<and> db_jobs d2 = db_jobs d1"
    by (rule start_job_idempotent [OF demo_server_inv a demo_prepare s(1) steps.stop s(2)]) (simp_all add: demo_started_def)
  with s show ?thesis by (auto simp: same_job_def demo_started_def)
qed

text \<open>
  C11. The grant of a delivery is good: whenever a heartbeat hands out a job, the signed grant that
  goes with it verifies on the target device from five seconds before to sixteen minutes after the
  delivery, names the job, authorizes exactly the operation of its kind, commits to the digest of
  the parameter bytes that are sent, and the job row is then dispatched under the delivery id.
\<close>

theorem claimed_grant_verifies:
  assumes "grant_crypto_ok (je_crypto J)" and "server_inv d"
    and "claim_next_job J d now identity delivery_id grant_id = (Inr (Some (m, sg)), d')"
    and "now - secs 5 \<le> t" and "t \<le> now + secs 960"
  shows "verify (je_crypto J) sg (ed_verifying_key (je_crypto J) (je_signing_key J)) identity t = Inr () \<and>
    g_job_or_session_id (sg_grant sg) = jm_id m \<and>
    grant_operation (job_kind_text (jm_kind m)) = Inr (g_operation (sg_grant sg)) \<and>
    g_parameters_sha256 (sg_grant sg) = je_sha_hex J (jm_parameters_json m) \<and>
    (\<exists>j. find_job d' (jm_id m) = Some j \<and> jb_target_id j = identity \<and> jb_state j = Dispatched \<and>
       jb_delivery_id j = Some (jm_delivery_id m))"
proof -
  let ?b = "\<lambda>j. au_to_vec (se_audit (je_server J)) (jb_parameters j)"
  obtain j oper where j: "next_queued d now identity = Some j" "grant_operation (job_kind_text (jb_kind j)) = Inr oper"
      "sign (je_crypto J) (job_grant J now identity j oper (?b j) grant_id delivery_id) (je_signing_key J) = Inr sg"
      "d' = claimed_db d now (jb_id j) delivery_id"
    and m: "jm_id m = jb_id j" "jm_kind m = job_kind_from_name (job_kind_text (jb_kind j))"
      "jm_parameters_json m = ?b j" "jm_delivery_id m = delivery_id"
    using assms(3) by (auto simp: claim_next_job_def Let_def split: if_splits option.splits sum.splits)
  note g = sign_signature_valid [OF assms(1) j(3)]
  have "lifetime_ok (sg_grant sg)"
    using g(1) by (simp add: lifetime_ok_def job_grant_def JOB_GRANT_VALIDITY_SECONDS_def secs_def nanos_per_second_def)
  then have "verify (je_crypto J) sg (ed_verifying_key (je_crypto J) (je_signing_key J)) identity t = Inr ()"
    using g assms(4,5) by (simp add: verify_ok_iff job_grant_def JOB_GRANT_VALIDITY_SECONDS_def)
  moreover have "job_kind_text (job_kind_from_name (job_kind_text (jb_kind j))) = job_kind_text (jb_kind j)"
    by (cases "jb_kind j") (simp_all add: job_kind_text_def job_kind_from_name_def)
  moreover have "find_job d (jb_id j) = Some j"
    using assms(2) next_queued_Some(1) [OF j(1)]
    by (auto simp: find_job_def server_inv_def job_inv_def find_key_iff)
  then have "find_job d' (jb_id j) = Some (j \<lparr> jb_state := Dispatched, jb_delivery_id := Some delivery_id,
      jb_delivery_lease := Some (now + secs JOB_DELIVERY_LEASE_SECONDS) \<rparr>)"
    by (simp add: j(4) find_job_def claimed_db_def find_update_where)
  ultimately show ?thesis
    using g(1) j(2) m next_queued_Some(3) [OF j(1)] by (simp add: job_grant_def)
qed

theorem claimed_grant_verifies_witness:
  "\<exists>m sg d'. claim_next_job demo_jobs demo_server_db (secs 10) 3 70 71 = (Inr (Some (m, sg)), d') \<and>
     verify demo_crypto sg (ed_verifying_key demo_crypto 9) 3 (secs 600) = Inr () \<and> jm_id m = 5 \<and>
     g_job_or_session_id (sg_grant sg) = 5"
proof -
  have n: "next_queued demo_server_db (secs 10) 3 = Some demo_job"
    by (simp add: next_queued_def demo_rows secs_def nanos_per_second_def)
  have t: "supports_typed_jobs demo_server_db 3" by (simp add: supports_typed_jobs_def demo_rows)
  obtain m sg d' where c: "claim_next_job demo_jobs demo_server_db (secs 10) 3 70 71 = (Inr (Some (m, sg)), d')" "jm_id m = 5"
    by (simp add: claim_next_job_def n t Let_def job_kind_text_def grant_operation_def demo_job_def demo_jobs_def
        sign_def signing_payload_def demo_crypto_def)
  have k: "grant_crypto_ok (je_crypto demo_jobs)" by (simp add: demo_jobs_def demo_crypto_ok)
  have "je_crypto demo_jobs = demo_crypto" "je_signing_key demo_jobs = 9" by (simp_all add: demo_jobs_def)
  then show ?thesis
    using claimed_grant_verifies [OF k demo_server_inv c(1), of "secs 600"] c
    by (auto simp: secs_def nanos_per_second_def)
qed

lemma maintained_rows:
  "\<forall>j \<in> set (db_jobs (maintained_jobs now d)). open_state (jb_state j) \<longrightarrow> now < jb_expires_at j \<and>
     (\<forall>t. jb_delivery_lease j = Some t \<and> jb_state j = Dispatched \<longrightarrow> now < t) \<and>
     (\<forall>t. jb_execution_start j = Some t \<and> jb_state j = Acknowledged \<longrightarrow> now < t)"
proof
  fix j assume "j \<in> set (db_jobs (maintained_jobs now d))"
  then obtain k where k: "k \<in> set (requeue_unstarted now (requeue_undelivered now (db_jobs d)))"
      "j = k \<and> \<not> job_expired now k \<or> jb_state j = TimedOut"
    unfolding maintained_jobs_def expire_jobs_def by (auto simp: set_update_where)
  from k(1) obtain i where i: "i \<in> set (requeue_undelivered now (db_jobs d))"
      "k = i \<and> \<not> start_lapsed now i \<or> jb_state k = Queued \<and> now < jb_expires_at k"
    unfolding requeue_unstarted_def set_update_where by (auto simp: start_lapsed_def)
  from i(1) have "\<not> delivery_lapsed now i"
    unfolding requeue_undelivered_def set_update_where by (auto simp: delivery_lapsed_def)
  with k(2) i(2) show "open_state (jb_state j) \<longrightarrow> now < jb_expires_at j \<and>
     (\<forall>t. jb_delivery_lease j = Some t \<and> jb_state j = Dispatched \<longrightarrow> now < t) \<and>
     (\<forall>t. jb_execution_start j = Some t \<and> jb_state j = Acknowledged \<longrightarrow> now < t)"
    by (auto simp: open_state_def job_expired_def delivery_lapsed_def start_lapsed_def)
qed



section \<open>The event stream\<close>

lemma filter_seq_drop:
  assumes "map ev_sequence es = map int [m..<m + length es]"
  shows "filter (\<lambda>e. ev_sequence e \<ge> int n) es = drop (n - m) es"
  using assms
proof (induction es arbitrary: m)
  case (Cons e es)
  have e: "ev_sequence e = int m" and es: "map ev_sequence es = map int [Suc m..<Suc m + length es]"
    using Cons.prems by (simp_all add: upt_conv_Cons del: upt_Suc)
  have all: "filter (\<lambda>x. ev_sequence x \<ge> int n) es = drop (n - Suc m) es" by (rule Cons.IH [OF es])
  show ?case
  proof (cases "n \<le> m")
    case False
    then have "n - m = Suc (n - Suc m)" by simp
    with False e all show ?thesis by simp
  qed (use e all in simp)
qed simp

lemma stream_window_eq:
  assumes "map ev_sequence (events_of d job) = map int [0..<length (events_of d job)]"
  shows "stream_window d job (int n) = take 128 (drop n (events_of d job))"
proof -
  have f: "filter (\<lambda>e. ev_sequence e \<ge> int n) (events_of d job) = drop n (events_of d job)"
    using filter_seq_drop [of "events_of d job" 0 n] assms by simp
  have "sorted (map ev_sequence (drop n (events_of d job)))"
    using assms by (simp add: drop_map [symmetric] sorted_map sorted_wrt_drop)
  then show ?thesis unfolding stream_window_def f by (simp add: sort_key_id_if_sorted)
qed

lemma terminal_history:
  assumes "history_ok s es" "list_all event_check es" "list_ex ev_terminal es"
  shows "is_terminal_job_state s" "ev_terminal (last es)" "\<forall>e \<in> set (butlast es). \<not> ev_terminal e"
proof -
  have ne: "es \<noteq> []" using assms(3) by auto
  have nt: "\<forall>e \<in> set (butlast es). \<not> ev_terminal e" using assms(1) by (simp add: history_ok_def)
  have "set es = set (butlast es @ [last es])" using ne by simp
  then have t: "ev_terminal (last es)" using assms(3) nt by (auto simp: list_ex_iff)
  moreover have "event_check (last es)" using assms(2) ne by (simp add: list_all_iff)
  ultimately show "is_terminal_job_state s" using assms(1) ne by (simp add: history_ok_def event_check_def)
  show "ev_terminal (last es)" "\<forall>e \<in> set (butlast es). \<not> ev_terminal e" by (rule t, rule nt)
qed

text \<open>The events of a job only grow, and not at all after a terminal one.\<close>

lemma events_step:
  assumes "server_inv d" "server_step J p d l d'" "j \<in> set (db_jobs d)"
  shows "jb_id j \<in> jb_id ` set (db_jobs d') \<and> (\<exists>es. events_of d' (jb_id j) = events_of d (jb_id j) @ es \<and>
    (list_ex ev_terminal (events_of d (jb_id j)) \<longrightarrow> es = []))"
proof -
  obtain j' es where j': "j' \<in> set (db_jobs d')" "same_job j j'" "events_of d' (jb_id j) = events_of d (jb_id j) @ es"
      "jb_state j' = jb_state j \<and> es = [] \<or> job_move (jb_state j) (jb_state j')"
    using step_jobs [OF assms(2,1)] assms(3) unfolding jobs_evolve_def job_evolves_def by blast
  have inv: "job_inv d" using assms(1) by (simp add: server_inv_def)
  have "es = []" if "list_ex ev_terminal (events_of d (jb_id j))"
    using terminal_history(1) [OF job_historyD(1) [OF inv assms(3)] events_of_checked [OF inv] that] j'(4)
      job_move_open by blast
  moreover have "jb_id j \<in> jb_id ` set (db_jobs d')"
    using j'(1,2) by (metis image_eqI same_job_def)
  ultimately show ?thesis using j'(3) by blast
qed

lemma events_run:
  assumes "server_run J p d ls d'" "server_inv d" "job \<in> jb_id ` set (db_jobs d)"
  shows "job \<in> jb_id ` set (db_jobs d') \<and> (\<exists>es. events_of d' job = events_of d job @ es \<and>
    (list_ex ev_terminal (events_of d job) \<longrightarrow> es = []))"
  using assms
proof (induction rule: steps.induct)
  case (step d l d1 ls d2)
  obtain j where j: "j \<in> set (db_jobs d)" "job = jb_id j" using step.prems(2) by blast
  obtain es where es: "job \<in> jb_id ` set (db_jobs d1)" "events_of d1 job = events_of d job @ es"
      "list_ex ev_terminal (events_of d job) \<longrightarrow> es = []"
    using events_step [OF step.prems(1) step.hyps(1) j(1)] j(2) by blast
  obtain es' where "job \<in> jb_id ` set (db_jobs d2)" "events_of d2 job = events_of d1 job @ es'"
      "list_ex ev_terminal (events_of d1 job) \<longrightarrow> es' = []"
    using step.IH [OF server_step_inv [OF step.hyps(1) step.prems(1)] es(1)] by blast
  with es show ?case by auto
qed simp

text \<open>The databases a stream sees, one per turn, each reached from the one before.\<close>

fun server_history :: "('sk, 'vk, 'sig) job_env \<Rightarrow> bool \<Rightarrow> db \<Rightarrow> db list \<Rightarrow> bool" where
  "server_history J p d [] = True"
| "server_history J p d (d' # ds) = ((\<exists>ls. server_run J p d ls d') \<and> server_history J p d' ds)"

lemma server_history_run: "server_history J p d ds \<Longrightarrow> \<exists>ls. server_run J p d ls (last (d # ds))"
proof (induction ds arbitrary: d)
  case (Cons d' ds)
  obtain ls where "server_run J p d ls d'" using Cons.prems by auto
  moreover obtain ls' where "server_run J p d' ls' (last (d' # ds))" using Cons.IH [of d'] Cons.prems by auto
  ultimately have "server_run J p d (ls @ ls') (last (d' # ds))" unfolding steps_append by blast
  then show ?case by auto
qed (auto intro: steps.stop)

lemma take_drop_add: "take a (drop n xs) @ take b (drop (n + a) xs) = take (a + b) (drop n xs)"
  by (simp add: take_add add.commute)

lemma stream_turn_rows:
  assumes "server_inv d" "job \<in> jb_id ` set (db_jobs d)"
    and "stream_turn d now actor fp job deadline follow reauth (int n) = (rows, r)"
  shows "rows = take (length rows) (drop n (events_of d job))"
    and "r = StreamMore k \<Longrightarrow> k = int (n + length rows)"
    and "r = StreamEnd \<Longrightarrow> follow \<Longrightarrow> rows = drop n (events_of d job) \<and> list_ex ev_terminal (events_of d job)"
proof -
  have inv: "job_inv d" using assms(1) by (simp add: server_inv_def)
  obtain j where j: "j \<in> set (db_jobs d)" "jb_id j = job" using assms(2) by blast
  let ?es = "events_of d job"
  have h: "history_ok (jb_state j) ?es" using job_historyD(1) [OF inv j(1)] j(2) by simp
  then have sq: "map ev_sequence ?es = map int [0..<length ?es]" by (simp add: history_ok_def)
  have cases: "rows = [] \<and> (\<exists>e. r = StreamFail e) \<or> rows = take 128 (drop n ?es) \<and>
      r = (if list_ex ev_terminal rows \<or> \<not> follow then StreamEnd
           else StreamMore (if rows = [] then int n else ev_sequence (last rows) + 1))"
    using assms(3) stream_window_eq [OF sq, of n]
    by (auto simp: stream_turn_def Let_def split: if_splits sum.splits)
  then show rows: "rows = take (length rows) (drop n ?es)" by (auto simp: min_def)
  have "ev_sequence (last rows) = int (n + length rows - 1)" if "rows \<noteq> []"
  proof -
    have "length rows \<le> length ?es - n" using arg_cong [OF rows, of length] by simp
    then have k: "n + length rows - 1 < length ?es" using that by (cases rows) auto
    have "last rows = rows ! (length rows - 1)" using that by (rule last_conv_nth)
    also have "\<dots> = ?es ! (n + length rows - 1)"
      using that k by (subst rows) (cases rows, auto)
    finally show ?thesis using arg_cong [OF sq, of "\<lambda>xs. xs ! (n + length rows - 1)"] k by simp
  qed
  with cases show "r = StreamMore k \<Longrightarrow> k = int (n + length rows)"
    by (auto split: if_splits simp: Suc_leI of_nat_diff)
  show "rows = drop n ?es \<and> list_ex ev_terminal ?es" if "r = StreamEnd" "follow"
  proof -
    have t: "list_ex ev_terminal rows" "rows = take 128 (drop n ?es)" using cases that by (auto split: if_splits)
    then have e: "list_ex ev_terminal ?es" by (auto simp: list_ex_iff dest: in_set_takeD in_set_dropD)
    note th = terminal_history [OF h events_of_checked [OF inv] e]
    have "rows = drop n ?es"
    proof (rule ccontr)
      assume "rows \<noteq> drop n ?es"
      then have "set rows \<subseteq> set (butlast ?es)"
        using t(2) by (metis butlast_drop drop_butlast in_set_dropD set_take_subset subset_code(1) take_all_iff take_butlast linorder_not_le)
      with t(1) th(3) show False by (auto simp: list_ex_iff)
    qed
    with e show ?thesis by blast
  qed
qed

lemma take_drop_extend:
  assumes "xs = take (length xs) (drop n es)"
  shows "xs = take (length xs) (drop n (es @ fs))"
proof (cases "xs = []")
  case False
  have "length xs \<le> length (drop n es)" using arg_cong [OF assms, of length] by simp
  then have "take (length xs) (drop n (es @ fs)) = take (length xs) (drop n es)" using False by (cases xs) auto
  then show ?thesis using assms by simp
qed simp

lemma stream_loop_sound:
  assumes "server_inv d" "job \<in> jb_id ` set (db_jobs d)" "server_history J p d (map fst turns)"
    and "stream_loop actor fp job deadline follow (int n) turns = (sent, r)"
  shows "sent = take (length sent) (drop n (events_of (last (d # map fst turns)) job)) \<and>
    (r = StreamEnd \<and> follow \<longrightarrow> sent = drop n (events_of (last (d # map fst turns)) job))"
  using assms
proof (induction turns arbitrary: d n sent r)
  case (Cons turn turns)
  obtain d1 now re where turn: "turn = (d1, now, re)" by (cases turn) auto
  obtain ls where run: "server_run J p d ls d1" and hist: "server_history J p d1 (map fst turns)"
    using Cons.prems(3) turn by auto
  have inv: "server_inv d1" by (rule srv.inv_steps [OF run Cons.prems(1)])
  have job: "job \<in> jb_id ` set (db_jobs d1)" using events_run [OF run Cons.prems(1,2)] by blast
  let ?D = "last (d1 # map fst turns)"
  have last: "last (d # map fst (turn # turns)) = ?D" using turn by simp
  obtain ls' where "server_run J p d1 ls' ?D" using server_history_run [OF hist] by blast
  from events_run [OF this inv job] obtain es where es: "events_of ?D job = events_of d1 job @ es"
      "list_ex ev_terminal (events_of d1 job) \<longrightarrow> es = []" by blast
  obtain rows q where t: "stream_turn d1 now actor fp job deadline follow re (int n) = (rows, q)" by fastforce
  note st = stream_turn_rows [OF inv job t]
  have rows: "rows = take (length rows) (drop n (events_of ?D job))"
    using take_drop_extend [OF st(1)] es(1) by simp
  show ?case unfolding last
  proof (cases q)
    case (StreamMore k)
    obtain rest r' where rest: "stream_loop actor fp job deadline follow (int (n + length rows)) turns = (rest, r')" by fastforce
    have eq: "sent = rows @ rest" "r = r'"
      using Cons.prems(4) turn t StreamMore st(2) [OF StreamMore] rest by (auto simp: Let_def)
    from Cons.IH [OF inv job hist rest]
    have ih: "rest = take (length rest) (drop (n + length rows) (events_of ?D job))"
        "r' = StreamEnd \<and> follow \<longrightarrow> rest = drop (n + length rows) (events_of ?D job)" by blast+
    have len: "length sent = length rows + length rest" using eq(1) by simp
    have "sent = take (length sent) (drop n (events_of ?D job))"
      unfolding len unfolding eq(1) take_drop_add [symmetric] using rows ih(1) by (rule arg_cong2)
    moreover have "sent = drop n (events_of ?D job)" if "r = StreamEnd \<and> follow"
      using that ih(2) eq rows by (metis add.commute append_take_drop_id drop_drop)
    ultimately show "sent = take (length sent) (drop n (events_of ?D job)) \<and>
        (r = StreamEnd \<and> follow \<longrightarrow> sent = drop n (events_of ?D job))" by blast
  next
    case StreamEnd
    then have eq: "sent = rows" "r = StreamEnd" using Cons.prems(4) turn t by auto
    have "rows = drop n (events_of ?D job)" if follow using st(3) [OF StreamEnd that] es by simp
    then show "sent = take (length sent) (drop n (events_of ?D job)) \<and>
        (r = StreamEnd \<and> follow \<longrightarrow> sent = drop n (events_of ?D job))" using eq rows by simp
  next
    case (StreamFail e)
    then have "sent = rows" "r = StreamFail e" using Cons.prems(4) turn t by auto
    then show "sent = take (length sent) (drop n (events_of ?D job)) \<and>
        (r = StreamEnd \<and> follow \<longrightarrow> sent = drop n (events_of ?D job))" using rows by simp
  qed
qed simp

text \<open>
  C20. The event stream of a job is exact: while the server goes on running any transactions, the
  events an Admin receives from sequence number n on are consecutive events of the job in their
  order, starting with number n, without a gap or a duplicate; and when a following stream ends
  normally, it has delivered all of them up to the terminal event.
\<close>

theorem stream_job_exact:
  assumes "server_inv d" and "job \<in> jb_id ` set (db_jobs d)" and "server_history J privileged d (map fst turns)"
    and "stream_loop actor fp job deadline follow (int n) turns = (sent, r)"
  shows "sent = take (length sent) (drop n (events_of (last (d # map fst turns)) job)) \<and>
    (r = StreamEnd \<and> follow \<longrightarrow> sent = drop n (events_of (last (d # map fst turns)) job))"
  by (rule stream_loop_sound [OF assms])

theorem stream_job_exact_witness:
  "stream_loop 1 ''f1'' 5 (secs 1300) False 0 [(demo_acknowledged_db, secs 12, True)] = ([dispatched_event 5], StreamEnd) \<and>
   [dispatched_event 5] = take 1 (drop 0 (events_of demo_acknowledged_db 5))"
proof -
  have "authorize_existing_identity demo_acknowledged_db (secs 12) 1 ''f1'' RoleAdmin = Inr ()"
    by (simp add: authorize_existing_identity_def demo_acknowledged_db_def claimed_db_def Let_def demo_rows
        certificate_live_def identity_live_def secs_def nanos_per_second_def)
  then have s: "stream_loop 1 ''f1'' 5 (secs 1300) False (int 0) [(demo_acknowledged_db, secs 12, True)] =
      ([dispatched_event 5], StreamEnd)"
    by (simp add: stream_turn_def stream_window_def events_of_def demo_acknowledged_simps dispatched_event_def
        secs_def nanos_per_second_def)
  have h: "server_history demo_jobs True demo_acknowledged_db (map fst [(demo_acknowledged_db, secs 12, True)])"
    by (simp add: exI [of _ "[]"])
  have j: "5 \<in> jb_id ` set (db_jobs demo_acknowledged_db)" by (simp add: demo_acknowledged_simps demo_job_def)
  show ?thesis using stream_job_exact [OF demo_acknowledged_inv j h s] s by simp
qed

end
