(* ===== verification/Shells.thy ===== *)
theory Shells
  imports Jobs "HOL-Library.AList"
begin

text \<open>
  Shell sessions: \<^verbatim>\<open>centrald-server/src/shell.rs\<close> with the parts of \<^verbatim>\<open>services.rs\<close> that drive it (the
  registries of \<^verbatim>\<open>RuntimeState\<close>, \<^verbatim>\<open>begin_elevation\<close>, \<^verbatim>\<open>open_shell\<close>, \<^verbatim>\<open>run_shell_relay\<close>,
  \<^verbatim>\<open>route_client_shell_frame\<close>, \<^verbatim>\<open>shell_housekeeping\<close>, \<^verbatim>\<open>control_stream\<close>) and the signing side of the Admin
  application. The statements of these handlers are not in one transaction, so an operation returns
  its result together with the state it leaves, also on an error. A channel is a number and \<open>alive\<close>
  says whether its receiver is still there; the monotonic clock of the relay is an argument as the
  wall clock is. The crate constant \<^verbatim>\<open>TERMINAL_SESSIONS_ENABLED\<close>, false in this release, is the
  argument \<open>enabled\<close>.
\<close>

section \<open>Messages\<close>

datatype shell_privilege = PrivilegeUnspecified | PrivilegeLow | PrivilegeElevated

text \<open>\<open>so_privilege\<close> is \<^const>\<open>None\<close> for a number outside the enum.\<close>

record shell_open =
  so_session_id :: string
  so_target_id :: string
  so_privilege :: "shell_privilege option"
  so_reason :: string
  so_challenge_id :: string
  so_challenge_signature :: bytes
  so_columns :: "32 word"
  so_rows :: "32 word"
  so_account_user :: string
  so_account_password :: bytes
  so_save_credentials :: bool
  so_parameters_json :: bytes

record shell_data =
  sd_session_id :: string
  sd_sequence :: "64 word"
  sd_data :: bytes

record shell_resize =
  sr_session_id :: string
  sr_columns :: "32 word"
  sr_rows :: "32 word"

record shell_close =
  sc_session_id :: string
  sc_reason :: string
  sc_exit_code :: "32 word"

datatype shell_payload = OpenFrame shell_open | DataFrame shell_data | ResizeFrame shell_resize
  | CloseFrame shell_close

type_synonym shell_frame = "shell_payload option"
type_synonym admin_shell_frame = "shell_frame option"

datatype client_bound = GrantToClient signed_grant | ShellToClient shell_frame

record begin_elevation_request =
  be_target_id :: string
  be_operation :: string
  be_reason :: string

record elevation_challenge =
  ec_id :: uuid
  ec_nonce :: bytes
  ec_context_hash :: bytes
  ec_expires_at :: instant

section \<open>State\<close>

record challenge_row =
  ch_id :: uuid
  ch_admin_id :: uuid
  ch_target_id :: uuid
  ch_operation :: string
  ch_nonce :: bytes
  ch_context_hash :: bytes
  ch_expires_at :: instant
  ch_consumed_at :: "instant option"

record shell_session_row =
  ss_id :: uuid
  ss_target_id :: uuid
  ss_actor_id :: uuid
  ss_privilege :: string
  ss_reason :: string
  ss_started_at :: instant
  ss_ended_at :: "instant option"
  ss_outcome :: "string option"

text \<open>\<open>sh_admin_in\<close> is the content of the channel whose sender is \<^verbatim>\<open>admin_in_tx\<close>.\<close>

record shell_session_handle =
  sh_session_id :: uuid
  sh_target_id :: uuid
  sh_actor_id :: uuid
  sh_privilege :: string
  sh_max_frame_bytes :: nat
  sh_started_at :: instant
  sh_last_activity :: instant
  sh_admin_sequence :: "64 word"
  sh_client_sequence :: "64 word"
  sh_input_bytes :: "64 word"
  sh_output_bytes :: "64 word"
  sh_closed :: bool
  sh_admin_in :: "admin_shell_frame list"

record shell_state =
  st_db :: db
  st_challenges :: "challenge_row list"
  st_rows :: "shell_session_row list"
  st_streams :: "(uuid \<times> nat) list"
  st_sessions :: "(uuid \<times> shell_session_handle) list"

record ('sk, 'vk, 'sig) shell_env =
  sv_jobs :: "('sk, 'vk, 'sig) job_env"
  sv_verifying_key :: "bytes \<Rightarrow> 'vk option"
  sv_uuid_bytes :: "uuid \<Rightarrow> bytes"
  sv_max_frame_bytes :: "32 word"
  sv_idle_timeout :: "32 word"

abbreviation sv_server :: "('sk, 'vk, 'sig) shell_env \<Rightarrow> server_env" where
  "sv_server E \<equiv> je_server (sv_jobs E)"

abbreviation sv_audit :: "('sk, 'vk, 'sig) shell_env \<Rightarrow> audit_env" where
  "sv_audit E \<equiv> se_audit (sv_server E)"

definition SHELL_ABSOLUTE_TIMEOUT_SECONDS :: "32 word" where "SHELL_ABSOLUTE_TIMEOUT_SECONDS = 28800"
definition ELEVATION_CHALLENGE_TTL_SECONDS :: int where "ELEVATION_CHALLENGE_TTL_SECONDS = 300"
definition MAX_SHELL_REASON_BYTES :: nat where "MAX_SHELL_REASON_BYTES = 512"
definition MAX_SHELL_ACCOUNT_BYTES :: nat where "MAX_SHELL_ACCOUNT_BYTES = 128"
definition MAX_SHELL_ACCOUNT_PASSWORD_BYTES :: nat where "MAX_SHELL_ACCOUNT_PASSWORD_BYTES = 4096"
definition MAX_SHELL_INPUT_BYTES :: "64 word" where "MAX_SHELL_INPUT_BYTES = 256 * 1024 * 1024"
definition MAX_SHELL_OUTPUT_BYTES :: "64 word" where "MAX_SHELL_OUTPUT_BYTES = 1024 * 1024 * 1024"
definition MAX_ACTIVE_SHELL_SESSIONS :: nat where "MAX_ACTIVE_SHELL_SESSIONS = 64"
definition ADMIN_IN_CAPACITY :: nat where "ADMIN_IN_CAPACITY = 64"

text \<open>The bytes of \<^verbatim>\<open>b"centrald-elevation-v1\0"\<close>.\<close>

definition ELEVATION_DOMAIN :: bytes where
  "ELEVATION_DOMAIN = map (\<lambda>ch. word_of_nat (of_char ch)) ''centrald-elevation-v1'' @ [0]"

section \<open>Registries\<close>

text \<open>A poisoned lock aborts the process (\<^verbatim>\<open>panic = "abort"\<close>), so the lock errors are not branches.\<close>

definition register_client_stream :: "shell_state \<Rightarrow> uuid \<Rightarrow> nat \<Rightarrow> shell_state" where
  "register_client_stream s identity channel =
     s \<lparr> st_streams := AList.update identity channel (st_streams s) \<rparr>"

text \<open>
  \<^verbatim>\<open>unregister_client_stream\<close> takes the lock twice: it looks whether the stream is still the registered
  one, and then removes whatever is registered.
\<close>

definition is_current_stream :: "shell_state \<Rightarrow> uuid \<Rightarrow> nat \<Rightarrow> bool" where
  "is_current_stream s identity channel \<longleftrightarrow> map_of (st_streams s) identity = Some channel"

definition drop_client_stream :: "shell_state \<Rightarrow> uuid \<Rightarrow> shell_state" where
  "drop_client_stream s identity = s \<lparr> st_streams := AList.delete identity (st_streams s) \<rparr>"

definition unregister_client_stream :: "shell_state \<Rightarrow> uuid \<Rightarrow> nat \<Rightarrow> shell_state" where
  "unregister_client_stream s identity channel =
     (if \<not> is_current_stream s identity channel then s else drop_client_stream s identity)"

definition client_online :: "shell_state \<Rightarrow> uuid \<Rightarrow> bool" where
  "client_online s identity \<longleftrightarrow> map_of (st_streams s) identity \<noteq> None"

definition insert_shell_session ::
  "shell_state \<Rightarrow> uuid \<Rightarrow> shell_session_handle \<Rightarrow> (status + unit) \<times> shell_state" where
  "insert_shell_session s session_id h =
     (if length (st_sessions s) \<ge> MAX_ACTIVE_SHELL_SESSIONS
      then (Inl (ResourceExhausted, ''the active shell-session limit was reached''), s)
      else (Inr (), s \<lparr> st_sessions := AList.update session_id h (st_sessions s) \<rparr>))"

definition remove_shell_session :: "shell_state \<Rightarrow> uuid \<Rightarrow> shell_state" where
  "remove_shell_session s session_id = s \<lparr> st_sessions := AList.delete session_id (st_sessions s) \<rparr>"

definition shell_session_for_client ::
  "shell_state \<Rightarrow> uuid \<Rightarrow> uuid \<Rightarrow> shell_session_handle option" where
  "shell_session_for_client s session_id client_id =
     (case map_of (st_sessions s) session_id of
        None \<Rightarrow> None
      | Some h \<Rightarrow> if sh_target_id h = client_id then Some h else None)"

definition shell_parse_uuid :: "('sk, 'vk, 'sig) shell_env \<Rightarrow> string \<Rightarrow> string \<Rightarrow> status + uuid" where
  "shell_parse_uuid E value field =
     (case se_parse_uuid (sv_server E) value of
        None \<Rightarrow> Inl (InvalidArgument, field @ '' is invalid'')
      | Some u \<Rightarrow> Inr u)"

text \<open>\<^verbatim>\<open>audit\<close>: one append in a transaction of its own.\<close>

definition audit ::
  "('sk, 'vk, 'sig) shell_env \<Rightarrow> shell_state \<Rightarrow> uuid \<Rightarrow> instant \<Rightarrow> uuid option \<Rightarrow> string \<Rightarrow> string \<Rightarrow>
   uuid option \<Rightarrow> string \<Rightarrow> json \<Rightarrow> (status + unit) \<times> shell_state" where
  "audit E s audit_id now actor_id actor_label action target_id outcome metadata =
     (case append_audit (sv_audit E) (st_db s) audit_id now actor_id actor_label action target_id
         outcome metadata of
        Inl e \<Rightarrow> (Inl e, s)
      | Inr d \<Rightarrow> (Inr (), s \<lparr> st_db := d \<rparr>))"

section \<open>Elevation challenges\<close>

definition elevation_context :: "('sk, 'vk, 'sig) shell_env \<Rightarrow> uuid \<Rightarrow> string \<Rightarrow> string \<Rightarrow> bytes" where
  "elevation_context E target_id operation reason =
     sv_uuid_bytes E target_id @ map (\<lambda>ch. word_of_nat (of_char ch)) operation @
     map (\<lambda>ch. word_of_nat (of_char ch)) reason"

definition insert_challenge :: "shell_state \<Rightarrow> challenge_row \<Rightarrow> status + shell_state" where
  "insert_challenge s c =
     (if ch_id c \<in> set (map ch_id (st_challenges s)) \<or>
         \<not> fk_identity (st_db s) (Some (ch_admin_id c)) \<or> \<not> fk_identity (st_db s) (Some (ch_target_id c))
      then Inl internal_status
      else Inr (s \<lparr> st_challenges := st_challenges s @ [c] \<rparr>))"

definition begin_elevation ::
  "('sk, 'vk, 'sig) shell_env \<Rightarrow> shell_state \<Rightarrow> instant \<Rightarrow> uuid \<Rightarrow> begin_elevation_request \<Rightarrow> bytes \<Rightarrow>
   uuid \<Rightarrow> uuid \<Rightarrow> (status + elevation_challenge) \<times> shell_state" where
  "begin_elevation E s now actor request nonce challenge_id audit_id =
     (case shell_parse_uuid E (be_target_id request) ''target_id'' of
        Inl e \<Rightarrow> (Inl e, s)
      | Inr target_id \<Rightarrow>
          if be_operation request \<noteq> ''open_shell'' then
            (Inl (InvalidArgument, ''unsupported elevation operation''), s)
          else if be_reason request = [] \<or> length (be_reason request) > MAX_SHELL_REASON_BYTES \<or>
              has_control (be_reason request) then
            (Inl (InvalidArgument, ''elevation reason is invalid''), s)
          else if \<not> supports_typed_jobs (st_db s) target_id then
            (Inl (FailedPrecondition, ''target client does not support typed operations''), s)
          else
            let context_hash = au_sha (sv_audit E)
                  (elevation_context E target_id (be_operation request) (be_reason request));
                expires_at = now + secs ELEVATION_CHALLENGE_TTL_SECONDS
            in (case insert_challenge s
                    \<lparr> ch_id = challenge_id, ch_admin_id = actor, ch_target_id = target_id,
                      ch_operation = be_operation request, ch_nonce = nonce,
                      ch_context_hash = context_hash, ch_expires_at = expires_at, ch_consumed_at = None \<rparr> of
                  Inl e \<Rightarrow> (Inl e, s)
                | Inr s \<Rightarrow>
                    (case audit E s audit_id now (Some actor) ''admin'' ''shell.elevation.begin'' (Some target_id)
                        ''challenge_issued''
                        (JObj [(''challenge_id'', au_uuid (sv_audit E) challenge_id),
                               (''operation'', JStr (be_operation request))]) of
                       (Inl e, s) \<Rightarrow> (Inl e, s)
                     | (Inr _, s) \<Rightarrow>
                         (Inr \<lparr> ec_id = challenge_id, ec_nonce = nonce, ec_context_hash = context_hash,
                                ec_expires_at = expires_at \<rparr>, s))))"

definition begin_elevation_rpc ::
  "('sk, 'vk, 'sig) shell_env \<Rightarrow> bool \<Rightarrow> shell_state \<Rightarrow> instant \<Rightarrow> string option \<Rightarrow>
   begin_elevation_request \<Rightarrow> bytes \<Rightarrow> uuid \<Rightarrow> uuid \<Rightarrow> (status + elevation_challenge) \<times> shell_state" where
  "begin_elevation_rpc E enabled s now leaf request nonce challenge_id audit_id =
     (if \<not> enabled then
        (Inl (FailedPrecondition, ''interactive terminal is unavailable in this alpha release''), s)
      else (case authenticate (st_db s) now leaf RoleAdmin of
          Inl e \<Rightarrow> (Inl e, s)
        | Inr actor \<Rightarrow> begin_elevation E s now actor request nonce challenge_id audit_id))"

definition elevation_payload :: "bytes \<Rightarrow> bytes \<Rightarrow> bytes" where
  "elevation_payload nonce context_hash = ELEVATION_DOMAIN @ nonce @ context_hash"

text \<open>The Admin application signs the same bytes with the elevation key of its profile.\<close>

definition sign_elevation_challenge ::
  "('sk, 'vk, 'sig) grant_crypto \<Rightarrow> 'sk \<Rightarrow> elevation_challenge \<Rightarrow> bytes" where
  "sign_elevation_challenge c key challenge =
     sig_to_bytes c (ed_sign c key (ELEVATION_DOMAIN @ ec_nonce challenge @ ec_context_hash challenge))"

text \<open>
  \<^verbatim>\<open>verify_elevation_challenge\<close> reads the challenge and the key in one statement and consumes the
  challenge in another: \<open>elevation_check\<close> and \<open>elevation_consume\<close>.
\<close>

definition elevation_check ::
  "('sk, 'vk, 'sig) shell_env \<Rightarrow> shell_state \<Rightarrow> instant \<Rightarrow> uuid \<Rightarrow> uuid \<Rightarrow> shell_open \<Rightarrow> status + uuid" where
  "elevation_check E s now actor target_id op =
     (case shell_parse_uuid E (so_challenge_id op) ''challenge_id'' of
        Inl e \<Rightarrow> Inl e
      | Inr challenge_id \<Rightarrow>
          if so_challenge_signature op = [] then
            Inl (InvalidArgument, ''elevation challenge signature is missing'')
          else (case find (\<lambda>c. ch_id c = challenge_id) (st_challenges s) of
              None \<Rightarrow> Inl (NotFound, ''elevation challenge does not exist'')
            | Some c \<Rightarrow>
                if ch_admin_id c \<noteq> actor \<or> ch_target_id c \<noteq> target_id then
                  Inl (PermissionDenied, ''elevation challenge is not for this target'')
                else if ch_expires_at c \<le> now then
                  Inl (FailedPrecondition, ''elevation challenge has expired'')
                else (case Option.bind (find_identity (st_db s) (ch_admin_id c)) i_elevation_public_key of
                    None \<Rightarrow> Inl (FailedPrecondition,
                      ''the requesting Admin has no elevation key; re-enroll to enable elevated shells'')
                  | Some key \<Rightarrow>
                      if length key \<noteq> 32 then
                        Inl (FailedPrecondition, ''the Admin elevation key is invalid'')
                      else (case sig_from_slice (je_crypto (sv_jobs E)) (so_challenge_signature op) of
                          None \<Rightarrow> Inl (InvalidArgument, ''elevation challenge signature is invalid'')
                        | Some signature \<Rightarrow> (case sv_verifying_key E key of
                            None \<Rightarrow> Inl (FailedPrecondition, ''the Admin elevation key is invalid'')
                          | Some vk \<Rightarrow>
                              if \<not> ed_verify (je_crypto (sv_jobs E)) vk
                                  (elevation_payload (ch_nonce c) (ch_context_hash c)) signature then
                                Inl (PermissionDenied, ''elevation challenge signature does not verify'')
                              else Inr challenge_id)))))"

definition challenge_open :: "instant \<Rightarrow> uuid \<Rightarrow> challenge_row \<Rightarrow> bool" where
  "challenge_open now i c \<longleftrightarrow> ch_id c = i \<and> ch_consumed_at c = None \<and> ch_expires_at c > now"

definition elevation_consume :: "shell_state \<Rightarrow> instant \<Rightarrow> uuid \<Rightarrow> (status + unit) \<times> shell_state" where
  "elevation_consume s now challenge_id =
     (if rows_affected (challenge_open now challenge_id) (st_challenges s) \<noteq> 1
      then Inl (FailedPrecondition, ''elevation challenge was already consumed'') else Inr (),
      s \<lparr> st_challenges := update_where (challenge_open now challenge_id)
            (\<lambda>c. c \<lparr> ch_consumed_at := Some now \<rparr>) (st_challenges s) \<rparr>)"

definition verify_elevation_challenge ::
  "('sk, 'vk, 'sig) shell_env \<Rightarrow> shell_state \<Rightarrow> instant \<Rightarrow> uuid \<Rightarrow> uuid \<Rightarrow> shell_open \<Rightarrow>
   (status + unit) \<times> shell_state" where
  "verify_elevation_challenge E s now actor target_id op =
     (case elevation_check E s now actor target_id op of
        Inl e \<Rightarrow> (Inl e, s)
      | Inr challenge_id \<Rightarrow> elevation_consume s now challenge_id)"

section \<open>Opening a session\<close>

record shell_open_plan =
  sp_session_id :: uuid
  sp_target_id :: uuid
  sp_privilege :: string
  sp_parameters_json :: bytes
  sp_operation :: grant_operation

definition session_parameters ::
  "('sk, 'vk, 'sig) shell_env \<Rightarrow> string \<Rightarrow> string \<Rightarrow> string \<Rightarrow> json" where
  "session_parameters E privilege user credentials_sha256 =
     JObj [(''privilege'', JStr privilege), (''user'', JStr user), (''shell'', JStr []),
           (''max_frame_bytes'', JNum (uint (sv_max_frame_bytes E))),
           (''idle_timeout_seconds'', JNum (uint (sv_idle_timeout E))),
           (''absolute_timeout_seconds'', JNum (uint SHELL_ABSOLUTE_TIMEOUT_SECONDS)),
           (''credentials_sha256'', JStr credentials_sha256)]"

definition privilege_name :: "shell_privilege option \<Rightarrow> status + string" where
  "privilege_name p =
     (case p of
        Some PrivilegeLow \<Rightarrow> Inr ''low''
      | Some PrivilegeElevated \<Rightarrow> Inr ''elevated''
      | _ \<Rightarrow> Inl (InvalidArgument, ''unsupported shell privilege''))"

definition valid_size :: "32 word \<Rightarrow> 32 word \<Rightarrow> bool" where
  "valid_size columns rows \<longleftrightarrow> 2 \<le> columns \<and> columns \<le> 500 \<and> 2 \<le> rows \<and> rows \<le> 500"

text \<open>The checks of \<^verbatim>\<open>validate_shell_open\<close> on the message alone.\<close>

definition validate_open_fields :: "string \<Rightarrow> shell_open \<Rightarrow> status + unit" where
  "validate_open_fields privilege op =
     (if \<not> valid_size (so_columns op) (so_rows op) then
        Inl (InvalidArgument, ''shell size must be 2-500 columns and rows'')
      else if so_reason op = [] \<or> length (so_reason op) > MAX_SHELL_REASON_BYTES \<or> has_control (so_reason op) then
        Inl (InvalidArgument, ''shell reason is invalid'')
      else if length (so_account_user op) > MAX_SHELL_ACCOUNT_BYTES \<or> has_control (so_account_user op) then
        Inl (InvalidArgument, ''shell OS account is invalid'')
      else if length (so_account_password op) > MAX_SHELL_ACCOUNT_PASSWORD_BYTES then
        Inl (InvalidArgument, ''shell OS account password is too large'')
      else if so_save_credentials op \<and> so_account_password op = [] then
        Inl (InvalidArgument, ''credential saving requires a password to save'')
      else if privilege = ''elevated'' \<and> trim (so_account_user op) = [] then
        Inl (InvalidArgument, ''elevated shells require an OS account'')
      else if privilege = ''low'' \<and> so_account_user op = ''root'' then
        Inl (InvalidArgument, ''a low shell must not run as root'')
      else Inr ())"

definition validate_shell_open ::
  "('sk, 'vk, 'sig) shell_env \<Rightarrow> shell_state \<Rightarrow> instant \<Rightarrow> uuid \<Rightarrow> shell_open \<Rightarrow> uuid \<Rightarrow>
   (status + shell_open_plan) \<times> shell_state" where
  "validate_shell_open E s now actor op session_id =
     (case shell_parse_uuid E (so_target_id op) ''target_id'' of
        Inl e \<Rightarrow> (Inl e, s)
      | Inr target_id \<Rightarrow> (case privilege_name (so_privilege op) of
          Inl e \<Rightarrow> (Inl e, s)
        | Inr privilege \<Rightarrow> (case validate_open_fields privilege op of
            Inl e \<Rightarrow> (Inl e, s)
          | Inr _ \<Rightarrow>
              if \<not> list_ex (\<lambda>c. cl_identity_id c = target_id) (db_clients (st_db s)) then
                (Inl (NotFound, ''target client does not exist''), s)
              else if \<not> supports_typed_jobs (st_db s) target_id then
                (Inl (FailedPrecondition, ''target client does not support typed operations''), s)
              else if \<not> client_online s target_id then
                (Inl (FailedPrecondition, ''target client is offline''), s)
              else
                let user = (if trim (so_account_user op) = [] then ''centrald'' else so_account_user op);
                    credentials_sha256 = (if so_account_password op = [] then []
                      else je_sha_hex (sv_jobs E) (so_account_password op));
                    (verified, s) = (if privilege = ''elevated''
                      then verify_elevation_challenge E s now actor target_id op else (Inr (), s))
                in (case verified of
                      Inl e \<Rightarrow> (Inl e, s)
                    | Inr _ \<Rightarrow>
                        (Inr \<lparr> sp_session_id = session_id, sp_target_id = target_id, sp_privilege = privilege,
                               sp_parameters_json = au_to_vec (sv_audit E)
                                 (session_parameters E privilege user credentials_sha256),
                               sp_operation = (if privilege = ''low'' then OpenLowShell else OpenElevatedShell) \<rparr>,
                         s)))))"

definition insert_shell_row :: "shell_state \<Rightarrow> shell_session_row \<Rightarrow> status + shell_state" where
  "insert_shell_row s r =
     (if ss_id r \<in> set (map ss_id (st_rows s)) \<or> \<not> fk_identity (st_db s) (Some (ss_target_id r)) \<or>
         \<not> fk_identity (st_db s) (Some (ss_actor_id r)) \<or> ss_privilege r \<notin> {''low'', ''elevated''}
      then Inl internal_status else Inr (s \<lparr> st_rows := st_rows s @ [r] \<rparr>))"

definition session_grant ::
  "('sk, 'vk, 'sig) shell_env \<Rightarrow> instant \<Rightarrow> uuid \<Rightarrow> shell_open_plan \<Rightarrow> uuid \<Rightarrow> privileged_grant" where
  "session_grant E now actor plan grant_id =
     \<lparr> g_id = grant_id, g_device_id = sp_target_id plan, g_job_or_session_id = sp_session_id plan,
       g_admin_id = actor, g_operation = sp_operation plan,
       g_parameters_sha256 = je_sha_hex (sv_jobs E) (sp_parameters_json plan),
       g_issued_at = now - secs 5, g_expires_at = now + secs 960,
       g_nonce = je_uuid_text (sv_jobs E) (sp_session_id plan) \<rparr>"

definition create_shell_session ::
  "('sk, 'vk, 'sig) shell_env \<Rightarrow> shell_state \<Rightarrow> instant \<Rightarrow> uuid \<Rightarrow> shell_open \<Rightarrow> shell_open_plan \<Rightarrow>
   uuid \<Rightarrow> uuid \<Rightarrow> (status + shell_frame \<times> signed_grant) \<times> shell_state" where
  "create_shell_session E s now actor op plan audit_id grant_id =
     (case insert_shell_row s
         \<lparr> ss_id = sp_session_id plan, ss_target_id = sp_target_id plan, ss_actor_id = actor,
           ss_privilege = sp_privilege plan, ss_reason = so_reason op, ss_started_at = now,
           ss_ended_at = None, ss_outcome = None \<rparr> of
        Inl e \<Rightarrow> (Inl e, s)
      | Inr s \<Rightarrow>
          (case audit E s audit_id now (Some actor) ''admin'' ''shell.session.open'' (Some (sp_target_id plan))
              ''opened'' (JObj [(''session_id'', au_uuid (sv_audit E) (sp_session_id plan)),
                              (''privilege'', JStr (sp_privilege plan))]) of
             (Inl e, s) \<Rightarrow> (Inl e, s)
           | (Inr _, s) \<Rightarrow>
               (case sign (je_crypto (sv_jobs E)) (session_grant E now actor plan grant_id)
                   (je_signing_key (sv_jobs E)) of
                  Inl _ \<Rightarrow> (Inl internal_status, s)
                | Inr sgrant \<Rightarrow>
                    (Inr (Some (OpenFrame (op
                       \<lparr> so_session_id := je_uuid_text (sv_jobs E) (sp_session_id plan),
                         so_target_id := je_uuid_text (sv_jobs E) (sp_target_id plan),
                         so_parameters_json := sp_parameters_json plan \<rparr>)), sgrant), s))))"

definition deliver_shell_open_to_client ::
  "shell_state \<Rightarrow> (nat \<Rightarrow> bool) \<Rightarrow> uuid \<Rightarrow> shell_frame \<Rightarrow> signed_grant \<Rightarrow> status + nat \<times> client_bound list" where
  "deliver_shell_open_to_client s alive target_id frame sgrant =
     (case map_of (st_streams s) target_id of
        None \<Rightarrow> Inl (FailedPrecondition, ''target client stream is unavailable'')
      | Some channel \<Rightarrow>
          if \<not> alive channel then Inl (Cancelled, ''target client stream closed'')
          else Inr (channel, [GrantToClient sgrant, ShellToClient frame]))"

definition new_handle ::
  "('sk, 'vk, 'sig) shell_env \<Rightarrow> instant \<Rightarrow> uuid \<Rightarrow> shell_open_plan \<Rightarrow> shell_session_handle" where
  "new_handle E clock actor plan =
     \<lparr> sh_session_id = sp_session_id plan, sh_target_id = sp_target_id plan, sh_actor_id = actor,
       sh_privilege = sp_privilege plan, sh_max_frame_bytes = unat (sv_max_frame_bytes E),
       sh_started_at = clock, sh_last_activity = clock, sh_admin_sequence = 0, sh_client_sequence = 0,
       sh_input_bytes = 0, sh_output_bytes = 0, sh_closed = False, sh_admin_in = [] \<rparr>"

datatype first_message = FirstTimeout | FirstUndecodable | FirstEnd | First admin_shell_frame

definition first_open :: "first_message \<Rightarrow> status + shell_open" where
  "first_open m =
     (case m of
        FirstTimeout \<Rightarrow> Inl (DeadlineExceeded, ''shell open was not received in time'')
      | FirstUndecodable \<Rightarrow> Inl (InvalidArgument, ''could not decode the shell open frame'')
      | FirstEnd \<Rightarrow> Inl (InvalidArgument, ''shell stream closed before open'')
      | First (Some (Some (OpenFrame op))) \<Rightarrow> Inr op
      | First _ \<Rightarrow> Inl (FailedPrecondition, ''the first Admin shell frame must be an open frame''))"

text \<open>
  \<^verbatim>\<open>open_shell\<close> from the moment it has its stream permit until it spawns the relay: the frames for the
  client and the Admin, and the handle the relay works on.
\<close>

record shell_opened =
  op_handle :: shell_session_handle
  op_channel :: nat
  op_to_client :: "client_bound list"
  op_to_admin :: "admin_shell_frame list"

definition open_shell ::
  "('sk, 'vk, 'sig) shell_env \<Rightarrow> bool \<Rightarrow> (nat \<Rightarrow> bool) \<Rightarrow> shell_state \<Rightarrow> instant \<Rightarrow> instant \<Rightarrow> string option \<Rightarrow>
   first_message \<Rightarrow> uuid \<Rightarrow> uuid \<Rightarrow> uuid \<Rightarrow> (status + shell_opened) \<times> shell_state" where
  "open_shell E enabled alive s now clock leaf m session_id audit_id grant_id =
     (if \<not> enabled then
        (Inl (FailedPrecondition, ''interactive terminal is unavailable in this alpha release''), s)
      else (case authenticate (st_db s) now leaf RoleAdmin of
          Inl e \<Rightarrow> (Inl e, s)
        | Inr actor \<Rightarrow> (case first_open m of
            Inl e \<Rightarrow> (Inl e, s)
          | Inr op \<Rightarrow> (case validate_shell_open E s now actor op session_id of
              (Inl e, s) \<Rightarrow> (Inl e, s)
            | (Inr plan, s) \<Rightarrow> (case create_shell_session E s now actor op plan audit_id grant_id of
                (Inl e, s) \<Rightarrow> (Inl e, s)
              | (Inr (frame, sgrant), s) \<Rightarrow>
                  (case deliver_shell_open_to_client s alive (sp_target_id plan) frame sgrant of
                     Inl e \<Rightarrow> (Inl e, s)
                   | Inr (channel, delivered) \<Rightarrow>
                       (case insert_shell_session s (sp_session_id plan) (new_handle E clock actor plan) of
                          (Inl e, s) \<Rightarrow> (Inl e, s)
                        | (Inr _, s) \<Rightarrow>
                            (Inr \<lparr> op_handle = new_handle E clock actor plan, op_channel = channel,
                                   op_to_client = delivered, op_to_admin = [Some frame] \<rparr>, s))))))))"

section \<open>The relay\<close>

definition validate_shell_data ::
  "('sk, 'vk, 'sig) shell_env \<Rightarrow> shell_data \<Rightarrow> shell_session_handle \<Rightarrow> status + unit" where
  "validate_shell_data E data h =
     (case shell_parse_uuid E (sd_session_id data) ''session_id'' of
        Inl e \<Rightarrow> Inl e
      | Inr session_id \<Rightarrow>
          if session_id \<noteq> sh_session_id h then
            Inl (PermissionDenied, ''shell frame session ID does not match this session'')
          else if length (sd_data data) > sh_max_frame_bytes h then
            Inl (ResourceExhausted, ''shell data frame exceeds the limit'')
          else Inr ())"

text \<open>The counters are \<^verbatim>\<open>AtomicU64\<close>: \<^verbatim>\<open>fetch_add\<close> wraps, and so does \<^verbatim>\<open>+\<close> in the release profile.\<close>

definition relay_admin_frame ::
  "('sk, 'vk, 'sig) shell_env \<Rightarrow> shell_session_handle \<Rightarrow> instant \<Rightarrow> bool \<Rightarrow> admin_shell_frame \<Rightarrow>
   (status + client_bound list) \<times> shell_session_handle" where
  "relay_admin_frame E h clock alive frame =
     (if sh_closed h then (Inl (FailedPrecondition, ''shell session is closed''), h)
      else (case frame of
          Some (Some (DataFrame data)) \<Rightarrow> (case validate_shell_data E data h of
              Inl e \<Rightarrow> (Inl e, h)
            | Inr _ \<Rightarrow>
                let sequence = sh_admin_sequence h + 1;
                    total = sh_input_bytes h + word_of_nat (length (sd_data data));
                    h = h \<lparr> sh_admin_sequence := sequence, sh_input_bytes := total \<rparr>
                in if total > MAX_SHELL_INPUT_BYTES then
                     (Inl (ResourceExhausted, ''shell input bound reached''), h)
                   else if \<not> alive then (Inl (Cancelled, ''target client stream closed''), h)
                   else (Inr [ShellToClient (Some (DataFrame (data \<lparr> sd_sequence := sequence \<rparr>)))],
                         h \<lparr> sh_last_activity := clock \<rparr>))
        | Some (Some (ResizeFrame resize)) \<Rightarrow>
            if \<not> valid_size (sr_columns resize) (sr_rows resize) then
              (Inl (InvalidArgument, ''invalid shell resize''), h)
            else (case shell_parse_uuid E (sr_session_id resize) ''session_id'' of
                Inl e \<Rightarrow> (Inl e, h)
              | Inr resize_session \<Rightarrow>
                  if resize_session \<noteq> sh_session_id h then
                    (Inl (PermissionDenied, ''shell frame session ID does not match this session''), h)
                  else if \<not> alive then (Inl (Cancelled, ''target client stream closed''), h)
                  else (Inr [ShellToClient (Some (ResizeFrame resize))], h \<lparr> sh_last_activity := clock \<rparr>))
        | Some (Some (CloseFrame _)) \<Rightarrow>
            (Inl (FailedPrecondition, ''the Admin may not close a session; end the stream instead''), h)
        | Some (Some (OpenFrame _)) \<Rightarrow>
            (Inl (FailedPrecondition, ''a session is already open; open frames are server-generated''), h)
        | _ \<Rightarrow> (Inl (InvalidArgument, ''empty Admin shell frame''), h)))"

definition relay_client_data ::
  "('sk, 'vk, 'sig) shell_env \<Rightarrow> shell_session_handle \<Rightarrow> instant \<Rightarrow> shell_data \<Rightarrow>
   (status + admin_shell_frame option) \<times> shell_session_handle" where
  "relay_client_data E h clock data =
     (if sh_closed h then (Inr None, h)
      else (case validate_shell_data E data h of
          Inl e \<Rightarrow> (Inl e, h)
        | Inr _ \<Rightarrow>
            let sequence = sh_client_sequence h + 1;
                total = sh_output_bytes h + word_of_nat (length (sd_data data));
                h = h \<lparr> sh_client_sequence := sequence, sh_output_bytes := total \<rparr>
            in if total > MAX_SHELL_OUTPUT_BYTES then
                 (Inl (ResourceExhausted, ''shell output bound reached''), h)
               else (Inr (Some (Some (Some (DataFrame (data \<lparr> sd_sequence := sequence \<rparr>))))),
                     h \<lparr> sh_last_activity := clock \<rparr>)))"

text \<open>The part of \<^verbatim>\<open>route_client_shell_frame\<close> after the session is found.\<close>

definition route_to_session ::
  "('sk, 'vk, 'sig) shell_env \<Rightarrow> shell_session_handle \<Rightarrow> instant \<Rightarrow> shell_payload \<Rightarrow>
   (status + unit) \<times> shell_session_handle" where
  "route_to_session E h clock payload =
     (case payload of
        DataFrame data \<Rightarrow> (case relay_client_data E h clock data of
            (Inl e, h) \<Rightarrow> (Inl e, h)
          | (Inr None, h) \<Rightarrow> (Inr (), h)
          | (Inr (Some forwarded), h) \<Rightarrow>
              (Inr (), if length (sh_admin_in h) < ADMIN_IN_CAPACITY
                       then h \<lparr> sh_admin_in := sh_admin_in h @ [forwarded] \<rparr> else h))
      | CloseFrame _ \<Rightarrow> (Inr (), h \<lparr> sh_closed := True \<rparr>)
      | _ \<Rightarrow> (Inr (), h))"

definition route_client_shell_frame ::
  "('sk, 'vk, 'sig) shell_env \<Rightarrow> shell_state \<Rightarrow> instant \<Rightarrow> uuid \<Rightarrow> shell_frame \<Rightarrow> (status + unit) \<times> shell_state"
where
  "route_client_shell_frame E s clock identity frame =
     (case frame of
        None \<Rightarrow> (Inl (InvalidArgument, ''empty client shell frame''), s)
      | Some payload \<Rightarrow>
          (case (case payload of DataFrame data \<Rightarrow> Some (sd_session_id data)
                 | CloseFrame close \<Rightarrow> Some (sc_session_id close) | _ \<Rightarrow> None) of
             None \<Rightarrow> (Inl (FailedPrecondition, ''clients may only send shell data or close frames''), s)
           | Some text \<Rightarrow> (case se_parse_uuid (sv_server E) text of
               None \<Rightarrow> (Inl (InvalidArgument, ''invalid shell session ID''), s)
             | Some session_id \<Rightarrow> (case shell_session_for_client s session_id identity of
                 None \<Rightarrow> (case payload of
                     CloseFrame _ \<Rightarrow> (Inr (), s)
                   | _ \<Rightarrow> (Inl (FailedPrecondition, ''shell session is not active for this client''), s))
               | Some h \<Rightarrow>
                   (let (r, h) = route_to_session E h clock payload in
                    (r, s \<lparr> st_sessions := AList.update session_id h (st_sessions s) \<rparr>))))))"

definition shell_deadline_exceeded ::
  "shell_session_handle \<Rightarrow> 32 word \<Rightarrow> 32 word \<Rightarrow> instant \<Rightarrow> bool" where
  "shell_deadline_exceeded h idle_timeout_seconds absolute_timeout_seconds clock \<longleftrightarrow>
     max 0 (clock - sh_last_activity h) > secs (uint idle_timeout_seconds) \<or>
     max 0 (clock - sh_started_at h) > secs (uint absolute_timeout_seconds)"

text \<open>
  \<^verbatim>\<open>next_admin_frame\<close> checks the deadline before each wait of at most five seconds. The list has the
  clock at each check; every wait but the last has timed out, and the last one gives \<open>poll\<close>.
\<close>

datatype admin_poll = PollFrame admin_shell_frame | PollEnd | PollUndecodable | PollTimeout

fun next_admin_frame ::
  "shell_session_handle \<Rightarrow> 32 word \<Rightarrow> 32 word \<Rightarrow> instant list \<Rightarrow> admin_poll \<Rightarrow>
   (status + admin_shell_frame option) option" where
  "next_admin_frame h idle absolute [] poll = None"
| "next_admin_frame h idle absolute (clock # rest) poll =
     (if shell_deadline_exceeded h idle absolute clock then
        Some (Inl (DeadlineExceeded, ''shell session timeout reached''))
      else if rest \<noteq> [] then next_admin_frame h idle absolute rest poll
      else (case poll of
          PollFrame frame \<Rightarrow> Some (Inr (Some frame))
        | PollEnd \<Rightarrow> Some (Inr None)
        | PollUndecodable \<Rightarrow> Some (Inl (InvalidArgument, ''could not decode Admin shell frame''))
        | PollTimeout \<Rightarrow> None))"

text \<open>
  One turn of the loop of \<^verbatim>\<open>run_shell_relay\<close>: the branch of the \<^verbatim>\<open>select!\<close> that completed, what it sent to
  the client and to the Admin, and the status that ends the relay.
\<close>

datatype relay_branch =
    ReauthTick db instant
  | AdminReady "instant list" admin_poll instant bool
  | ClientReady bool

type_synonym relay_result = "client_bound list \<times> admin_shell_frame list \<times> status option"

definition closed_check :: "relay_result \<times> shell_session_handle \<Rightarrow> relay_result \<times> shell_session_handle" where
  "closed_check r =
     (case r of ((to_client, to_admin, outcome), h) \<Rightarrow>
        ((to_client, to_admin,
          if outcome = None \<and> sh_closed h
          then Some (FailedPrecondition, ''client closed the shell session'') else outcome), h))"

definition relay_turn ::
  "('sk, 'vk, 'sig) shell_env \<Rightarrow> uuid \<Rightarrow> string \<Rightarrow> shell_session_handle \<Rightarrow> relay_branch \<Rightarrow>
   relay_result \<times> shell_session_handle" where
  "relay_turn E actor fingerprint h branch =
     (case branch of
        ReauthTick d now \<Rightarrow>
          closed_check (case authorize_existing_identity d now actor fingerprint RoleAdmin of
             Inl _ \<Rightarrow> (([], [], Some (Unauthenticated, ''Admin identity was revoked or expired'')), h)
           | Inr _ \<Rightarrow> (([], [], None), h))
      | AdminReady clocks poll clock alive \<Rightarrow>
          (case next_admin_frame h (sv_idle_timeout E) SHELL_ABSOLUTE_TIMEOUT_SECONDS clocks poll of
             None \<Rightarrow> (([], [], None), h)
           | Some (Inl status) \<Rightarrow> (([], [], Some status), h)
           | Some (Inr None) \<Rightarrow> (([], [], Some (FailedPrecondition, ''Admin closed the shell stream'')), h)
           | Some (Inr (Some frame)) \<Rightarrow>
               closed_check (case relay_admin_frame E h clock alive frame of
                  (Inl status, h) \<Rightarrow> (([], [], Some status), h)
                | (Inr sent, h) \<Rightarrow> ((sent, [], None), h)))
      | ClientReady alive \<Rightarrow>
          (case sh_admin_in h of
             [] \<Rightarrow> (([], [], None), h)
           | frame # rest \<Rightarrow>
               closed_check (if alive then (([], [frame], None), h \<lparr> sh_admin_in := rest \<rparr>)
                 else (([], [], Some (Cancelled, ''Admin shell stream closed'')), h \<lparr> sh_admin_in := rest \<rparr>))))"

text \<open>A session: turns of the relay and, between them, frames of the client for its handle.\<close>

datatype session_event = RelayTurn relay_branch | FromClient instant shell_payload

fun run_shell_relay ::
  "('sk, 'vk, 'sig) shell_env \<Rightarrow> uuid \<Rightarrow> string \<Rightarrow> shell_session_handle \<Rightarrow> session_event list \<Rightarrow>
   relay_result \<times> shell_session_handle" where
  "run_shell_relay E actor fingerprint h [] = (([], [], None), h)"
| "run_shell_relay E actor fingerprint h (FromClient clock payload # es) =
     run_shell_relay E actor fingerprint (snd (route_to_session E h clock payload)) es"
| "run_shell_relay E actor fingerprint h (RelayTurn branch # es) =
     (case relay_turn E actor fingerprint h branch of
        ((to_client, to_admin, Some status), h) \<Rightarrow> ((to_client, to_admin, Some status), h)
      | ((to_client, to_admin, None), h) \<Rightarrow>
          (case run_shell_relay E actor fingerprint h es of
             ((to_client', to_admin', outcome), h) \<Rightarrow> ((to_client @ to_client', to_admin @ to_admin', outcome), h)))"

section \<open>The end of a session\<close>

definition end_shell_session ::
  "('sk, 'vk, 'sig) shell_env \<Rightarrow> shell_state \<Rightarrow> instant \<Rightarrow> uuid \<Rightarrow> string \<Rightarrow> uuid option \<Rightarrow> uuid \<Rightarrow>
   (client_bound \<times> admin_shell_frame) \<times> shell_state" where
  "end_shell_session E s now session_id outcome target_id audit_id =
     (let s = s \<lparr> st_rows := update_where (\<lambda>r. ss_id r = session_id \<and> ss_ended_at r = None)
                (\<lambda>r. r \<lparr> ss_ended_at := Some now, ss_outcome := Some outcome \<rparr>) (st_rows s) \<rparr>;
          s = (case target_id of
                 None \<Rightarrow> s
               | Some t \<Rightarrow> snd (audit E s audit_id now None ''server'' ''shell.session.end'' (Some t) ''closed''
                   (JObj [(''session_id'', au_uuid (sv_audit E) session_id), (''outcome'', JStr outcome)])));
          close = Some (CloseFrame \<lparr> sc_session_id = je_uuid_text (sv_jobs E) session_id,
                                     sc_reason = outcome, sc_exit_code = 0 \<rparr>)
      in ((ShellToClient close, Some close), s))"

text \<open>What the task that ran the relay does with its outcome.\<close>

definition finish_shell ::
  "('sk, 'vk, 'sig) shell_env \<Rightarrow> shell_state \<Rightarrow> instant \<Rightarrow> uuid \<Rightarrow> uuid \<Rightarrow> status option \<Rightarrow> uuid \<Rightarrow>
   (client_bound \<times> admin_shell_frame) \<times> shell_state" where
  "finish_shell E s now session_id target_id outcome audit_id =
     (let reason = (case outcome of None \<Rightarrow> ''session ended'' | Some status \<Rightarrow> snd status)
      in end_shell_session E (remove_shell_session s session_id) now session_id reason (Some target_id) audit_id)"

section \<open>Housekeeping\<close>

definition challenge_stale :: "instant \<Rightarrow> challenge_row \<Rightarrow> bool" where
  "challenge_stale now c \<longleftrightarrow> ch_expires_at c \<le> now \<or>
     (case ch_consumed_at c of None \<Rightarrow> False | Some t \<Rightarrow> t < now - secs 86400)"

fun close_abandoned ::
  "('sk, 'vk, 'sig) shell_env \<Rightarrow> instant \<Rightarrow> uuid list \<Rightarrow> (uuid \<times> uuid) list \<Rightarrow> shell_state \<Rightarrow>
   (status + unit) \<times> shell_state" where
  "close_abandoned E now active [] s = (Inr (), s)"
| "close_abandoned E now active ((session_id, audit_id) # rest) s =
     (if session_id \<in> set active then close_abandoned E now active rest s
      else
        let s = s \<lparr> st_rows := update_where (\<lambda>r. ss_id r = session_id \<and> ss_ended_at r = None)
                  (\<lambda>r. r \<lparr> ss_ended_at := Some now, ss_outcome := Some ''abandoned'' \<rparr>) (st_rows s) \<rparr>
        in (case audit E s audit_id now None ''server'' ''shell.session.end'' None ''abandoned''
                (JObj [(''session_id'', au_uuid (sv_audit E) session_id)]) of
              (Inl e, s) \<Rightarrow> (Inl e, s)
            | (Inr _, s) \<Rightarrow> close_abandoned E now active rest s))"

text \<open>\<open>audit_ids\<close> has the identifier of the audit entry of each candidate.\<close>

definition shell_housekeeping ::
  "('sk, 'vk, 'sig) shell_env \<Rightarrow> shell_state \<Rightarrow> instant \<Rightarrow> (uuid \<Rightarrow> uuid) \<Rightarrow> (status + unit) \<times> shell_state" where
  "shell_housekeeping E s now audit_ids =
     (let s = s \<lparr> st_challenges := filter (\<lambda>c. \<not> challenge_stale now c) (st_challenges s) \<rparr>;
          candidates = map ss_id (filter (\<lambda>r. ss_ended_at r = None \<and> ss_started_at r < now - secs 600) (st_rows s));
          active = map fst (st_sessions s)
      in close_abandoned E now active (map (\<lambda>i. (i, audit_ids i)) candidates) s)"

section \<open>The control stream\<close>

datatype control_payload = JobPayload client_payload | ShellPayload shell_frame

definition handle_control_frame ::
  "('sk, 'vk, 'sig) shell_env \<Rightarrow> shell_state \<Rightarrow> instant \<Rightarrow> instant \<Rightarrow> uuid \<Rightarrow> control_payload \<Rightarrow> uuid \<Rightarrow> uuid \<Rightarrow>
   (status + server_payload list) \<times> shell_state" where
  "handle_control_frame E s now clock identity frame delivery_id grant_id =
     (case frame of
        ShellPayload f \<Rightarrow>
          (case route_client_shell_frame E s clock identity f of
             (Inl e, s) \<Rightarrow> (Inl e, s) | (Inr _, s) \<Rightarrow> (Inr [], s))
      | JobPayload p \<Rightarrow>
          (case handle_client_frame (sv_jobs E) (st_db s) now identity p delivery_id grant_id of
             (r, d) \<Rightarrow> (r, s \<lparr> st_db := d \<rparr>)))"

text \<open>
  One turn of the loop of \<^verbatim>\<open>control_stream\<close>: the frames it sends, the status it ends with if it sends
  one, and whether the loop goes on. Leaving the loop removes the registration.
\<close>

datatype control_event = AuthTick | ControlFrame control_payload | ControlEnd | ControlUndecodable

record control_result =
  cr_sent :: "server_payload list"
  cr_status :: "status option"
  cr_open :: bool

definition control_turn ::
  "('sk, 'vk, 'sig) shell_env \<Rightarrow> shell_state \<Rightarrow> instant \<Rightarrow> instant \<Rightarrow> uuid \<Rightarrow> string \<Rightarrow> nat \<Rightarrow> control_event \<Rightarrow>
   uuid \<Rightarrow> uuid \<Rightarrow> control_result \<times> shell_state" where
  "control_turn E s now clock identity fingerprint channel ev delivery_id grant_id =
     (let stop = (\<lambda>status s. (\<lparr> cr_sent = [], cr_status = status, cr_open = False \<rparr>,
                              unregister_client_stream s identity channel))
      in (case ev of
            AuthTick \<Rightarrow>
              (case authorize_existing_identity (st_db s) now identity fingerprint RoleClient of
                 Inl e \<Rightarrow> stop (Some e) s
               | Inr _ \<Rightarrow> (\<lparr> cr_sent = [], cr_status = None, cr_open = True \<rparr>, s))
          | ControlEnd \<Rightarrow> stop None s
          | ControlUndecodable \<Rightarrow> stop (Some (InvalidArgument, ''could not decode client frame'')) s
          | ControlFrame frame \<Rightarrow>
              (case handle_control_frame E s now clock identity frame delivery_id grant_id of
                 (Inl e, s) \<Rightarrow> stop (Some e) s
               | (Inr sent, s) \<Rightarrow> (\<lparr> cr_sent = sent, cr_status = None, cr_open = True \<rparr>, s))))"

datatype first_control = HelloTimeout | HelloUndecodable | HelloEnd | FirstControl control_payload

definition control_stream ::
  "('sk, 'vk, 'sig) shell_env \<Rightarrow> bool \<Rightarrow> shell_state \<Rightarrow> instant \<Rightarrow> string option \<Rightarrow> first_control \<Rightarrow> nat \<Rightarrow>
   status + uuid \<times> string \<times> shell_state" where
  "control_stream E privileged s now leaf m channel =
     (case peer_certificate_fingerprint leaf of
        Inl e \<Rightarrow> Inl e
      | Inr fingerprint \<Rightarrow> (case authenticate (st_db s) now leaf RoleClient of
          Inl e \<Rightarrow> Inl e
        | Inr identity \<Rightarrow>
            (case m of
               HelloTimeout \<Rightarrow> Inl (DeadlineExceeded, ''client Hello was not received in time'')
             | HelloUndecodable \<Rightarrow> Inl (InvalidArgument, ''could not decode client Hello'')
             | HelloEnd \<Rightarrow> Inl (InvalidArgument, ''client stream closed before Hello'')
             | FirstControl (JobPayload (HelloFrame hello)) \<Rightarrow>
                 (case handle_client_hello (sv_server E) privileged (st_db s) now identity hello of
                    Inl e \<Rightarrow> Inl e
                  | Inr d \<Rightarrow> Inr (identity, fingerprint,
                      register_client_stream (s \<lparr> st_db := d \<rparr>) identity channel))
             | FirstControl _ \<Rightarrow> Inl (FailedPrecondition, ''the first client frame must be Hello''))))"

end
