(* ===== verification/Shell_Relay.thy ===== *)
theory Shell_Relay
  imports Shells Server_Demo "HOL-Library.Sublist"
begin

text \<open>
  What the relay of a shell session promises: on both legs it neither reorders nor invents data and
  stays within its bounds, and a revoked Admin or a passed deadline ends it.
\<close>

section \<open>Frames\<close>

definition data_to_client :: "client_bound list \<Rightarrow> shell_data list" where
  "data_to_client fs = concat (map (\<lambda>f. case f of ShellToClient (Some (DataFrame d)) \<Rightarrow> [d] | _ \<Rightarrow> []) fs)"

definition data_to_admin :: "admin_shell_frame list \<Rightarrow> shell_data list" where
  "data_to_admin fs = concat (map (\<lambda>f. case f of Some (Some (DataFrame d)) \<Rightarrow> [d] | _ \<Rightarrow> []) fs)"

text \<open>The payloads of the data frames that arrived from the Admin and from the client.\<close>

fun offered :: "relay_branch \<Rightarrow> bytes list" where
  "offered (AdminReady (c # cs) (PollFrame (Some (Some (DataFrame d)))) clock alive) = [sd_data d]"
| "offered _ = []"

fun admin_data :: "session_event list \<Rightarrow> bytes list" where
  "admin_data [] = []"
| "admin_data (RelayTurn b # es) = offered b @ admin_data es"
| "admin_data (FromClient _ _ # es) = admin_data es"

fun client_data :: "session_event list \<Rightarrow> bytes list" where
  "client_data [] = []"
| "client_data (FromClient _ (DataFrame d) # es) = sd_data d # client_data es"
| "client_data (_ # es) = client_data es"

definition own_frame :: "('sk, 'vk, 'sig) shell_env \<Rightarrow> shell_session_handle \<Rightarrow> shell_data \<Rightarrow> bool" where
  "own_frame E h d \<longleftrightarrow> se_parse_uuid (sv_server E) (sd_session_id d) = Some (sh_session_id h) \<and>
     length (sd_data d) \<le> sh_max_frame_bytes h"

lemma data_simps [simp]:
  "data_to_client [] = []" "data_to_client (xs @ ys) = data_to_client xs @ data_to_client ys"
  "data_to_client [ShellToClient (Some (DataFrame d))] = [d]"
  "data_to_client [ShellToClient (Some (ResizeFrame r))] = []"
  "data_to_admin [] = []" "data_to_admin (us @ vs) = data_to_admin us @ data_to_admin vs"
  "data_to_admin (f # fs) = (case f of Some (Some (DataFrame d)) \<Rightarrow> [d] | _ \<Rightarrow> []) @ data_to_admin fs"
  by (simp_all add: data_to_client_def data_to_admin_def)

lemma validate_shell_data_ok: "validate_shell_data E d h = Inr u \<longleftrightarrow> own_frame E h d"
  by (auto simp: validate_shell_data_def shell_parse_uuid_def own_frame_def split: option.splits if_splits)

lemma closed_check_parts:
  "closed_check ((tc, ta, o'), h) = ((tc', ta', o''), h') \<longleftrightarrow>
     tc' = tc \<and> ta' = ta \<and> h' = h \<and>
     o'' = (if o' = None \<and> sh_closed h then Some (FailedPrecondition, ''client closed the shell session'') else o')"
  by (auto simp: closed_check_def)

definition same_admin_leg :: "shell_session_handle \<Rightarrow> shell_session_handle \<Rightarrow> bool" where
  "same_admin_leg h h' \<longleftrightarrow> sh_admin_sequence h' = sh_admin_sequence h \<and> sh_input_bytes h' = sh_input_bytes h"

definition same_client_leg :: "shell_session_handle \<Rightarrow> shell_session_handle \<Rightarrow> bool" where
  "same_client_leg h h' \<longleftrightarrow> sh_client_sequence h' = sh_client_sequence h \<and> sh_output_bytes h' = sh_output_bytes h"

definition same_session :: "shell_session_handle \<Rightarrow> shell_session_handle \<Rightarrow> bool" where
  "same_session h h' \<longleftrightarrow> sh_session_id h' = sh_session_id h \<and> sh_max_frame_bytes h' = sh_max_frame_bytes h"

lemmas same_defs = same_admin_leg_def same_client_leg_def same_session_def

lemma own_frame_same: "same_session h h' \<Longrightarrow> own_frame E h' = own_frame E h"
  by (auto simp: own_frame_def same_session_def fun_eq_iff)

lemma relay_admin_frame_cases:
  assumes "relay_admin_frame E h clock alive f = (r, h')"
  shows "same_session h h' \<and> same_client_leg h h' \<and> sh_admin_in h' = sh_admin_in h \<and>
    (case r of
       Inl _ \<Rightarrow> True
     | Inr sent \<Rightarrow>
         (\<exists>rz. f = Some (Some (ResizeFrame rz)) \<and> data_to_client sent = [] \<and> same_admin_leg h h') \<or>
         (\<exists>d. f = Some (Some (DataFrame d)) \<and> own_frame E h d \<and>
            data_to_client sent = [d \<lparr> sd_sequence := sh_admin_sequence h + 1 \<rparr>] \<and>
            sh_admin_sequence h' = sh_admin_sequence h + 1 \<and>
            sh_input_bytes h' = sh_input_bytes h + word_of_nat (length (sd_data d)) \<and>
            sh_input_bytes h' \<le> MAX_SHELL_INPUT_BYTES))"
  using assms unfolding relay_admin_frame_def Let_def
  by (auto simp: same_defs validate_shell_data_ok not_less
      split: if_splits option.splits shell_payload.splits sum.splits)

lemma next_admin_frame_frame:
  "next_admin_frame h i a cs poll = Some (Inr (Some f)) \<Longrightarrow> cs \<noteq> [] \<and> poll = PollFrame f"
  by (induction h i a cs poll rule: next_admin_frame.induct)
     (auto split: if_splits admin_poll.splits)

lemma next_admin_frame_None: "next_admin_frame h i a cs poll = None \<Longrightarrow> cs = [] \<or> poll = PollTimeout"
  by (induction h i a cs poll rule: next_admin_frame.induct)
     (auto split: if_splits admin_poll.splits)

lemma offered_eq: "offered (AdminReady cs poll c al) =
   (case poll of PollFrame (Some (Some (DataFrame d))) \<Rightarrow> if cs = [] then [] else [sd_data d] | _ \<Rightarrow> [])"
  by (cases cs) (auto split: admin_poll.splits option.splits shell_payload.splits)

lemma relay_turn_admin_leg:
  assumes "relay_turn E a fp h b = ((tc, ta, out), h')"
  shows "same_session h h' \<and> same_client_leg h h' \<and>
    ((data_to_client tc = [] \<and> (out = None \<longrightarrow> same_admin_leg h h' \<and> offered b = [])) \<or>
     (\<exists>d. own_frame E h d \<and> data_to_client tc = [d \<lparr> sd_sequence := sh_admin_sequence h + 1 \<rparr>] \<and>
        offered b = [sd_data d] \<and> sh_admin_sequence h' = sh_admin_sequence h + 1 \<and>
        sh_input_bytes h' = sh_input_bytes h + word_of_nat (length (sd_data d)) \<and>
        sh_input_bytes h' \<le> MAX_SHELL_INPUT_BYTES))"
proof (cases b)
  case (AdminReady cs poll clock alive)
  show ?thesis
  proof (cases "next_admin_frame h (sv_idle_timeout E) SHELL_ABSOLUTE_TIMEOUT_SECONDS cs poll")
    case None
    with assms AdminReady next_admin_frame_None [OF None] show ?thesis
      by (auto simp: relay_turn_def same_defs offered_eq split: admin_poll.splits option.splits shell_payload.splits)
  next
    case (Some r)
    show ?thesis
    proof (cases "\<exists>f. r = Inr (Some f)")
      case True
      then obtain f where f: "r = Inr (Some f)" by blast
      obtain q h1 where q: "relay_admin_frame E h clock alive f = (q, h1)" by fastforce
      from assms AdminReady Some f q relay_admin_frame_cases [OF q] next_admin_frame_frame [OF Some [unfolded f]]
      show ?thesis
        by (cases q) (auto simp: relay_turn_def closed_check_parts offered_eq)
    next
      case False
      with assms AdminReady Some show ?thesis
        by (auto simp: relay_turn_def same_defs split: sum.splits option.splits)
    qed
  qed
qed (use assms in \<open>auto simp: relay_turn_def closed_check_parts same_defs split: sum.splits list.splits if_splits\<close>)

lemma relay_turn_client_leg:
  assumes "relay_turn E a fp h b = ((tc, ta, out), h')"
  shows "(ta = [] \<and> (out = None \<longrightarrow> sh_admin_in h' = sh_admin_in h)) \<or>
    (\<exists>f. ta = [f] \<and> sh_admin_in h = f # sh_admin_in h')"
proof (cases b)
  case (AdminReady cs poll clock alive)
  then show ?thesis using assms
    by (auto simp: relay_turn_def closed_check_parts split: option.splits sum.splits prod.splits
        dest: relay_admin_frame_cases)
qed (use assms in \<open>auto simp: relay_turn_def closed_check_parts split: sum.splits list.splits if_splits\<close>)

lemma route_to_session_cases:
  assumes "h' = snd (route_to_session E h clock p)"
  shows "same_session h h' \<and> same_admin_leg h h' \<and>
    ((same_client_leg h h' \<and> sh_admin_in h' = sh_admin_in h) \<or>
     (\<exists>d. p = DataFrame d \<and> own_frame E h d \<and> sh_client_sequence h' = sh_client_sequence h + 1 \<and>
        sh_output_bytes h' = sh_output_bytes h + word_of_nat (length (sd_data d)) \<and>
        (sh_admin_in h' = sh_admin_in h \<or>
         sh_output_bytes h' \<le> MAX_SHELL_OUTPUT_BYTES \<and>
         sh_admin_in h' = sh_admin_in h @
           [Some (Some (DataFrame (d \<lparr> sd_sequence := sh_client_sequence h + 1 \<rparr>)))])))"
  using assms unfolding route_to_session_def relay_client_data_def Let_def
  by (auto simp: same_defs validate_shell_data_ok not_less split: shell_payload.splits sum.splits if_splits)

subsection \<open>From the Admin to the client\<close>

lemma relay_input:
  assumes "run_shell_relay E a fp h es = ((tc, ta, out), h')"
    and "sh_max_frame_bytes h < 2 ^ 32" and "sh_input_bytes h \<le> MAX_SHELL_INPUT_BYTES"
  shows "map sd_sequence (data_to_client tc) =
      map (\<lambda>k. sh_admin_sequence h + word_of_nat k) [1..<Suc (length (data_to_client tc))] \<and>
    prefix (map sd_data (data_to_client tc)) (admin_data es) \<and>
    (\<forall>d \<in> set (data_to_client tc). own_frame E h d) \<and>
    sum_list (map (\<lambda>d. length (sd_data d)) (data_to_client tc)) + unat (sh_input_bytes h) \<le> unat MAX_SHELL_INPUT_BYTES"
  using assms
proof (induction E a fp h es arbitrary: tc ta out h' rule: run_shell_relay.induct)
  case (1 E a fp h)
  then show ?case by (simp add: word_le_nat_alt)
next
  case (2 E a fp h clock p es)
  define h1 where "h1 = snd (route_to_session E h clock p)"
  note r = route_to_session_cases [OF h1_def]
  have "same_session h h1" "same_admin_leg h h1" using r by auto
  then show ?case
    using "2.IH" [folded h1_def, of tc ta out h'] "2.prems" own_frame_same [of h h1 E]
    by (simp add: h1_def [symmetric] same_session_def same_admin_leg_def)
next
  case (3 E a fp h b es)
  obtain tc1 ta1 out1 h1 where t: "relay_turn E a fp h b = ((tc1, ta1, out1), h1)" by (metis surj_pair)
  note leg = relay_turn_admin_leg [OF t]
  then have ss: "same_session h h1" by blast
  have step: "data_to_client tc1 = [d \<lparr> sd_sequence := sh_admin_sequence h + 1 \<rparr>] \<Longrightarrow> own_frame E h d \<Longrightarrow>
      sh_input_bytes h1 = sh_input_bytes h + word_of_nat (length (sd_data d)) \<Longrightarrow>
      sh_input_bytes h1 \<le> MAX_SHELL_INPUT_BYTES \<Longrightarrow>
      unat (sh_input_bytes h1) = unat (sh_input_bytes h) + length (sd_data d)" for d
  proof -
    assume a: "own_frame E h d" "sh_input_bytes h1 = sh_input_bytes h + word_of_nat (length (sd_data d))"
    have l: "length (sd_data d) < 2 ^ 32" using a(1) "3.prems"(2) by (simp add: own_frame_def)
    have "unat (sh_input_bytes h) \<le> 268435456"
      using "3.prems"(3) by (simp add: word_le_nat_alt MAX_SHELL_INPUT_BYTES_def)
    with l a(2) show ?thesis by (simp add: unat_word_ariths unat_of_nat)
  qed
  show ?case
  proof (cases out1)
    case (Some st)
    with t "3.prems"(1) have "tc = tc1" by simp
    show ?thesis
    proof (cases "data_to_client tc1 = []")
      case True
      with \<open>tc = tc1\<close> "3.prems"(3) show ?thesis by (simp add: word_le_nat_alt)
    next
      case False
      with leg obtain d where d: "own_frame E h d" "data_to_client tc1 = [d \<lparr> sd_sequence := sh_admin_sequence h + 1 \<rparr>]"
        "offered b = [sd_data d]" "sh_input_bytes h1 = sh_input_bytes h + word_of_nat (length (sd_data d))"
        "sh_input_bytes h1 \<le> MAX_SHELL_INPUT_BYTES" by blast
      with \<open>tc = tc1\<close> step [OF d(2,1,4,5)] show ?thesis by (simp add: word_le_nat_alt own_frame_def)
    qed
  next
    case None
    obtain tc2 ta2 where r2: "run_shell_relay E a fp h1 es = ((tc2, ta2, out), h')" and tc: "tc = tc1 @ tc2"
      using t "3.prems"(1) None by (auto split: prod.splits)
    have pre: "sh_max_frame_bytes h1 < 2 ^ 32" "sh_input_bytes h1 \<le> MAX_SHELL_INPUT_BYTES"
      using leg "3.prems"(2,3) None by (auto simp: same_defs)
    note IH = "3.IH" [OF t [symmetric] refl refl None r2 pre]
    show ?thesis
    proof (cases "data_to_client tc1 = []")
      case True
      with leg None have "same_admin_leg h h1" "offered b = []" by auto
      with IH True tc show ?thesis by (simp add: same_admin_leg_def own_frame_same [OF ss] del: upt_Suc)
    next
      case False
      with leg obtain d where d: "own_frame E h d" "data_to_client tc1 = [d \<lparr> sd_sequence := sh_admin_sequence h + 1 \<rparr>]"
        "offered b = [sd_data d]" "sh_admin_sequence h1 = sh_admin_sequence h + 1"
        "sh_input_bytes h1 = sh_input_bytes h + word_of_nat (length (sd_data d))"
        "sh_input_bytes h1 \<le> MAX_SHELL_INPUT_BYTES" by blast
      have "map (\<lambda>k. sh_admin_sequence h + 1 + word_of_nat k) [1..<Suc n] =
        map (\<lambda>k. sh_admin_sequence h + word_of_nat k) [2..<Suc (Suc n)]" for n
        by (rule nth_equalityI) (simp_all add: algebra_simps del: upt_Suc)
      moreover have "[1..<Suc (Suc n)] = 1 # [2..<Suc (Suc n)]" for n
        by (simp add: upt_conv_Cons numeral_2_eq_2 del: upt_Suc)
      ultimately show ?thesis using IH tc d step [OF d(2,1,5,6)]
        by (simp del: upt_Suc add: own_frame_same [OF ss]) (simp add: own_frame_def)
    qed
  qed
qed

subsection \<open>From the client to the Admin\<close>

abbreviation to_admin :: "shell_data \<Rightarrow> admin_shell_frame" where
  "to_admin d \<equiv> Some (Some (DataFrame d))"

lemma data_to_admin_map [simp]: "data_to_admin (map to_admin ds) = ds"
  by (induction ds) simp_all

definition numbered :: "nat list \<Rightarrow> shell_data list \<Rightarrow> bool" where
  "numbered ks ds \<longleftrightarrow> sorted_wrt (<) ks \<and> map sd_sequence ds = map word_of_nat ks"

lemma relay_output:
  assumes "run_shell_relay E a fp h es = ((tc, ta, out), h')"
    and "sh_admin_in h = map to_admin ds" and "\<forall>d \<in> set ds. own_frame E h d"
  shows "(\<forall>d \<in> set (data_to_admin ta). own_frame E h d) \<and>
    subseq (map sd_data (data_to_admin ta)) (map sd_data ds @ client_data es)"
  using assms
proof (induction E a fp h es arbitrary: tc ta out h' ds rule: run_shell_relay.induct)
  case (1 E a fp h)
  then show ?case by simp
next
  case (2 E a fp h clock p es)
  define h1 where "h1 = snd (route_to_session E h clock p)"
  note r = route_to_session_cases [OF h1_def]
  have ss: "own_frame E h1 = own_frame E h" using r own_frame_same by blast
  have run: "run_shell_relay E a fp h1 es = ((tc, ta, out), h')" using "2.prems"(1) by (simp add: h1_def)
  note IH = "2.IH" [folded h1_def, OF run]
  have sub: "subseq (map sd_data ds @ client_data es) (map sd_data ds @ client_data (FromClient clock p # es))"
    by (cases p) (auto intro!: list_emb_append_mono)
  show ?case
  proof (cases "sh_admin_in h1 = sh_admin_in h")
    case True
    with IH [of ds] "2.prems"(2,3) sub show ?thesis by (auto simp: ss intro: subseq_order.trans)
  next
    case False
    with r obtain d where d: "p = DataFrame d" "own_frame E h d"
      "sh_admin_in h1 = map to_admin (ds @ [d \<lparr> sd_sequence := sh_client_sequence h + 1 \<rparr>])"
      using "2.prems"(2) by auto
    have "\<forall>x \<in> set (ds @ [d \<lparr> sd_sequence := sh_client_sequence h + 1 \<rparr>]). own_frame E h1 x"
      unfolding ss using "2.prems"(3) d(2) by (simp add: own_frame_def)
    from IH [OF d(3) this] show ?thesis by (simp add: ss d(1))
  qed
next
  case (3 E a fp h b es)
  obtain tc1 ta1 out1 h1 where t: "relay_turn E a fp h b = ((tc1, ta1, out1), h1)" by (metis surj_pair)
  have ss: "own_frame E h1 = own_frame E h" using relay_turn_admin_leg [OF t] own_frame_same by blast
  have leg: "(ta1 = [] \<and> (out1 = None \<longrightarrow> sh_admin_in h1 = map to_admin ds)) \<or>
      (\<exists>d ds'. ta1 = [to_admin d] \<and> ds = d # ds' \<and> sh_admin_in h1 = map to_admin ds')"
    using relay_turn_client_leg [OF t] "3.prems"(2) by (cases ds) auto
  show ?case
  proof (cases out1)
    case (Some st)
    with t "3.prems"(1) have "ta = ta1" by simp
    with leg "3.prems"(3) show ?thesis by auto
  next
    case None
    obtain tc2 ta2 where r2: "run_shell_relay E a fp h1 es = ((tc2, ta2, out), h')" and ta: "ta = ta1 @ ta2"
      using t "3.prems"(1) None by (auto split: prod.splits)
    note IH = "3.IH" [OF t [symmetric] refl refl None r2]
    from leg None IH "3.prems"(3) ta show ?thesis by (auto simp: ss)
  qed
qed

lemma relay_output_numbered:
  assumes "run_shell_relay E a fp h es = ((tc, ta, out), h')"
    and "sh_admin_in h = map to_admin ds" and "numbered ks ds" and "\<forall>k \<in> set ks. k \<le> m"
    and "sh_client_sequence h = word_of_nat m"
  shows "\<exists>js. numbered js (data_to_admin ta) \<and> set js \<subseteq> set ks \<union> {m<..}"
  using assms
proof (induction E a fp h es arbitrary: tc ta out h' ds ks m rule: run_shell_relay.induct)
  case (1 E a fp h)
  then show ?case by (auto simp: numbered_def intro: exI [of _ "[]"])
next
  case (2 E a fp h clock p es)
  define h1 where "h1 = snd (route_to_session E h clock p)"
  note r = route_to_session_cases [OF h1_def]
  have run: "run_shell_relay E a fp h1 es = ((tc, ta, out), h')" using "2.prems"(1) by (simp add: h1_def)
  note IH = "2.IH" [folded h1_def, OF run]
  consider (same) "sh_admin_in h1 = map to_admin ds" "sh_client_sequence h1 = word_of_nat m"
    | (dropped) "sh_admin_in h1 = map to_admin ds" "sh_client_sequence h1 = word_of_nat (Suc m)"
    | (queued) d where "sh_admin_in h1 = map to_admin (ds @ [d \<lparr> sd_sequence := word_of_nat (Suc m) \<rparr>])"
        "sh_client_sequence h1 = word_of_nat (Suc m)"
    using r "2.prems"(2,5) by (auto simp: same_client_leg_def add.commute)
  then show ?case
  proof cases
    case same
    with IH "2.prems"(3,4) show ?thesis by blast
  next
    case dropped
    with IH [of ds ks "Suc m"] "2.prems"(3,4) show ?thesis by fastforce
  next
    case (queued d)
    have "numbered (ks @ [Suc m]) (ds @ [d \<lparr> sd_sequence := word_of_nat (Suc m) \<rparr>])"
      using "2.prems"(3,4) by (auto simp: numbered_def sorted_wrt_append)
    from IH [OF queued(1) this _ queued(2)] "2.prems"(4) show ?thesis by fastforce
  qed
next
  case (3 E a fp h b es)
  obtain tc1 ta1 out1 h1 where t: "relay_turn E a fp h b = ((tc1, ta1, out1), h1)" by (metis surj_pair)
  have cs: "sh_client_sequence h1 = word_of_nat m"
    using relay_turn_admin_leg [OF t] "3.prems"(5) by (simp add: same_client_leg_def)
  have leg: "(ta1 = [] \<and> (out1 = None \<longrightarrow> sh_admin_in h1 = map to_admin ds)) \<or>
      (\<exists>d ds' k ks'. ta1 = [to_admin d] \<and> ds = d # ds' \<and> ks = k # ks' \<and> sh_admin_in h1 = map to_admin ds')"
    using relay_turn_client_leg [OF t] "3.prems"(2,3) by (cases ds; cases ks) (auto simp: numbered_def)
  show ?case
  proof (cases out1)
    case (Some st)
    with t "3.prems"(1) have "ta = ta1" by simp
    from leg show ?thesis
    proof (elim disjE exE conjE)
      assume "ta1 = []"
      with \<open>ta = ta1\<close> show ?thesis by (auto simp: numbered_def intro: exI [of _ "[]"])
    next
      fix d ds' k ks'
      assume "ta1 = [to_admin d]" "ds = d # ds'" "ks = k # ks'"
      with \<open>ta = ta1\<close> "3.prems"(3) show ?thesis by (auto simp: numbered_def intro: exI [of _ "[k]"])
    qed
  next
    case None
    obtain tc2 ta2 where r2: "run_shell_relay E a fp h1 es = ((tc2, ta2, out), h')" and ta: "ta = ta1 @ ta2"
      using t "3.prems"(1) None by (auto split: prod.splits)
    note IH = "3.IH" [OF t [symmetric] refl refl None r2]
    from leg show ?thesis
    proof (elim disjE exE conjE)
      assume "ta1 = []" "out1 = None \<longrightarrow> sh_admin_in h1 = map to_admin ds"
      with None IH [OF _ "3.prems"(3,4) cs] ta show ?thesis by simp
    next
      fix d ds' k ks'
      assume q: "ta1 = [to_admin d]" "ds = d # ds'" "ks = k # ks'" "sh_admin_in h1 = map to_admin ds'"
      have "numbered ks' ds'" "\<forall>j \<in> set ks'. j \<le> m" using "3.prems"(3,4) q by (auto simp: numbered_def)
      from IH [OF q(4) this cs] obtain js where js: "numbered js (data_to_admin ta2)" "set js \<subseteq> set ks' \<union> {m<..}"
        by blast
      have "numbered (k # js) (data_to_admin ta)"
        using js q ta "3.prems"(3,4) by (auto simp: numbered_def)
      with js q show ?thesis by (intro exI [of _ "k # js"]) auto
    qed
  qed
qed

abbreviation payload_bytes :: "shell_data list \<Rightarrow> nat" where
  "payload_bytes ds \<equiv> sum_list (map (\<lambda>d. length (sd_data d)) ds)"

lemma relay_output_bytes:
  assumes "run_shell_relay E a fp h es = ((tc, ta, out), h')"
    and "sh_admin_in h = map to_admin ds"
    and "unat (sh_output_bytes h) + sum_list (map length (client_data es)) < 2 ^ 64"
  shows "payload_bytes (data_to_admin ta) \<le>
    payload_bytes ds + (unat MAX_SHELL_OUTPUT_BYTES - unat (sh_output_bytes h))"
  using assms
proof (induction E a fp h es arbitrary: tc ta out h' ds rule: run_shell_relay.induct)
  case (1 E a fp h)
  then show ?case by simp
next
  case (2 E a fp h clock p es)
  define h1 where "h1 = snd (route_to_session E h clock p)"
  note r = route_to_session_cases [OF h1_def]
  have run: "run_shell_relay E a fp h1 es = ((tc, ta, out), h')" using "2.prems"(1) by (simp add: h1_def)
  note IH = "2.IH" [folded h1_def, OF run]
  have add: "unat (sh_output_bytes h1) = unat (sh_output_bytes h) + length (sd_data d)"
    if "p = DataFrame d" "sh_output_bytes h1 = sh_output_bytes h + word_of_nat (length (sd_data d))" for d
    using "2.prems"(3) that by (simp add: unat_word_ariths unat_of_nat)
  consider (same) "sh_admin_in h1 = map to_admin ds" "sh_output_bytes h1 = sh_output_bytes h"
    | (dropped) d where "p = DataFrame d" "sh_admin_in h1 = map to_admin ds"
        "sh_output_bytes h1 = sh_output_bytes h + word_of_nat (length (sd_data d))"
    | (queued) d where "p = DataFrame d" "sh_admin_in h1 = map to_admin (ds @ [d \<lparr> sd_sequence := sh_client_sequence h + 1 \<rparr>])"
        "sh_output_bytes h1 = sh_output_bytes h + word_of_nat (length (sd_data d))"
        "sh_output_bytes h1 \<le> MAX_SHELL_OUTPUT_BYTES"
    using r "2.prems"(2) by (auto simp: same_client_leg_def)
  then show ?case
  proof cases
    case same
    moreover have "sum_list (map length (client_data es)) \<le> sum_list (map length (client_data (FromClient clock p # es)))"
      by (cases p) auto
    ultimately show ?thesis using IH [of ds] "2.prems"(3) by simp
  next
    case (dropped d)
    with IH [of ds] add [of d] "2.prems"(3) show ?thesis by simp
  next
    case (queued d)
    with IH [OF queued(2)] add [of d] "2.prems"(3) show ?thesis by (simp add: word_le_nat_alt)
  qed
next
  case (3 E a fp h b es)
  obtain tc1 ta1 out1 h1 where t: "relay_turn E a fp h b = ((tc1, ta1, out1), h1)" by (metis surj_pair)
  have ob: "sh_output_bytes h1 = sh_output_bytes h"
    using relay_turn_admin_leg [OF t] by (simp add: same_client_leg_def)
  have leg: "(ta1 = [] \<and> (out1 = None \<longrightarrow> sh_admin_in h1 = map to_admin ds)) \<or>
      (\<exists>d ds'. ta1 = [to_admin d] \<and> ds = d # ds' \<and> sh_admin_in h1 = map to_admin ds')"
    using relay_turn_client_leg [OF t] "3.prems"(2) by (cases ds) auto
  show ?case
  proof (cases out1)
    case (Some st)
    with t "3.prems"(1) have "ta = ta1" by simp
    with leg show ?thesis by auto
  next
    case None
    obtain tc2 ta2 where r2: "run_shell_relay E a fp h1 es = ((tc2, ta2, out), h')" and ta: "ta = ta1 @ ta2"
      using t "3.prems"(1) None by (auto split: prod.splits)
    note IH = "3.IH" [OF t [symmetric] refl refl None r2]
    have small: "unat (sh_output_bytes h1) + sum_list (map length (client_data es)) < 2 ^ 64"
      using "3.prems"(3) ob by simp
    from leg show ?thesis
    proof (elim disjE exE conjE)
      assume "ta1 = []" "out1 = None \<longrightarrow> sh_admin_in h1 = map to_admin ds"
      with None IH [OF _ small, of ds] ta ob show ?thesis by simp
    next
      fix d ds'
      assume q: "ta1 = [to_admin d]" "ds = d # ds'" "sh_admin_in h1 = map to_admin ds'"
      with IH [OF q(3) small] ta ob show ?thesis by simp
    qed
  qed
qed
section \<open>Properties\<close>

lemma new_handle_simps [simp]:
  "sh_admin_in (new_handle E clock actor plan) = map to_admin []"
  "sh_admin_sequence (new_handle E clock actor plan) = 0" "sh_client_sequence (new_handle E clock actor plan) = 0"
  "sh_input_bytes (new_handle E clock actor plan) = 0" "sh_output_bytes (new_handle E clock actor plan) = 0"
  "sh_session_id (new_handle E clock actor plan) = sp_session_id plan"
  "sh_target_id (new_handle E clock actor plan) = sp_target_id plan"
  "sh_max_frame_bytes (new_handle E clock actor plan) = unat (sv_max_frame_bytes E)"
  by (simp_all add: new_handle_def)

lemma new_handle_frame: "unat (sv_max_frame_bytes E) < 2 ^ 32"
  by (rule order_less_le_trans [OF unsigned_less]) simp


text \<open>A relay that has sent one frame each way and then ends because the Admin has left.\<close>

definition demo_shells :: "(byte, byte, bytes) shell_env" where
  "demo_shells = \<lparr> sv_jobs = demo_jobs, sv_verifying_key = (\<lambda>k. Some (hd k)), sv_uuid_bytes = (\<lambda>_. [1]),
     sv_max_frame_bytes = 65536, sv_idle_timeout = 900 \<rparr>"

definition demo_plan :: shell_open_plan where
  "demo_plan = \<lparr> sp_session_id = 6, sp_target_id = 3, sp_privilege = ''low'', sp_parameters_json = [],
     sp_operation = OpenLowShell \<rparr>"

definition demo_data :: "bytes \<Rightarrow> shell_data" where
  "demo_data bs = \<lparr> sd_session_id = ''6'', sd_sequence = 0, sd_data = bs \<rparr>"

definition demo_events :: "session_event list" where
  "demo_events = [RelayTurn (AdminReady [0] (PollFrame (Some (Some (DataFrame (demo_data [1]))))) 0 True),
     FromClient 0 (DataFrame (demo_data [2, 3])), RelayTurn (ClientReady True),
     RelayTurn (AdminReady [0] PollEnd 0 True)]"

lemmas demo_shell_defs = demo_shells_def demo_plan_def demo_data_def demo_events_def demo_envs

lemma demo_relay:
  "\<exists>h'. run_shell_relay demo_shells 1 ''f1'' (new_handle demo_shells 0 1 demo_plan) demo_events =
     (([ShellToClient (Some (DataFrame (demo_data [1] \<lparr> sd_sequence := 1 \<rparr>)))],
       [to_admin (demo_data [2, 3] \<lparr> sd_sequence := 1 \<rparr>)],
       Some (FailedPrecondition, ''Admin closed the shell stream'')), h')"
  by (simp add: demo_shell_defs new_handle_def relay_turn_def relay_admin_frame_def validate_shell_data_def
      shell_parse_uuid_def shell_deadline_exceeded_def SHELL_ABSOLUTE_TIMEOUT_SECONDS_def secs_def
      nanos_per_second_def MAX_SHELL_INPUT_BYTES_def MAX_SHELL_OUTPUT_BYTES_def closed_check_def
      route_to_session_def relay_client_data_def ADMIN_IN_CAPACITY_def Let_def)


lemma run_shell_relay_append:
  "run_shell_relay E a fp h (es @ fs) =
     (case run_shell_relay E a fp h es of
        ((tc, ta, Some st), h') \<Rightarrow> ((tc, ta, Some st), h')
      | ((tc, ta, None), h') \<Rightarrow>
          (case run_shell_relay E a fp h' fs of ((tc', ta', out), h'') \<Rightarrow> ((tc @ tc', ta @ ta', out), h'')))"
  by (induction E a fp h es rule: run_shell_relay.induct)
     (auto split: prod.splits option.splits)

lemma deadline_ends:
  assumes "shell_deadline_exceeded h i ab c" and "c \<in> set cs"
  shows "next_admin_frame h i ab cs poll = Some (Inl (DeadlineExceeded, ''shell session timeout reached''))"
  using assms by (induction h i ab cs poll rule: next_admin_frame.induct) auto


definition revoked_admin_db :: db where
  "revoked_admin_db = demo_server_db \<lparr> db_identities := [demo_admin \<lparr> i_revoked_at := Some 0 \<rparr>, demo_client] \<rparr>"


end
