(* ===== verification/Shell_Safety.thy ===== *)
theory Shell_Safety
  imports Shell_Relay Runs
begin

text \<open>
  The shell sessions as a system: its steps interleave the statements of \<open>Shells\<close> with the
  transactions of the control plane, so that its database runs the steps of \<open>Control_Plane\<close>. A
  challenge is consumed once per issue (\<open>one_shot\<close> again), an elevated grant needs the consumed
  challenge of the Admin it names, a signed challenge is accepted, rows do not stay open, and frames
  reach only the sessions of their client.
\<close>

section \<open>Steps\<close>

datatype shell_label = Issued uuid | Consumed uuid | Quiet

inductive shell_step ::
  "('sk, 'vk, 'sig) shell_env \<Rightarrow> bool \<Rightarrow> shell_state \<Rightarrow> shell_label \<Rightarrow> shell_state \<Rightarrow> bool" for E privileged where
  begin_elevation: "begin_elevation E s now actor request nonce c audit_id = (r, s') \<Longrightarrow>
    shell_step E privileged s (Issued c) s'"
| consume: "elevation_consume s now c = (Inr (), s') \<Longrightarrow> shell_step E privileged s (Consumed c) s'"
| refuse: "elevation_consume s now c = (Inl e, s') \<Longrightarrow> shell_step E privileged s Quiet s'"
| create: "create_shell_session E s now actor op plan audit_id grant_id = (r, s') \<Longrightarrow>
    shell_step E privileged s Quiet s'"
| register: "insert_shell_session s i h = (r, s') \<Longrightarrow> shell_step E privileged s Quiet s'"
| relay: "map_of (st_sessions s) i = Some h \<Longrightarrow> relay_turn E a fp h b = (r, h') \<Longrightarrow>
    shell_step E privileged s Quiet (s \<lparr> st_sessions := AList.update i h' (st_sessions s) \<rparr>)"
| route: "route_client_shell_frame E s clock identity frame = (r, s') \<Longrightarrow> shell_step E privileged s Quiet s'"
| finish: "finish_shell E s now i t out audit_id = (r, s') \<Longrightarrow> shell_step E privileged s Quiet s'"
| housekeep: "shell_housekeeping E s now ids = (r, s') \<Longrightarrow> shell_step E privileged s Quiet s'"
| connect: "shell_step E privileged s Quiet (register_client_stream s identity channel)"
| disconnect: "shell_step E privileged s Quiet (drop_client_stream s identity)"
| server: "server_step (sv_jobs E) privileged (st_db s) l d \<Longrightarrow> shell_step E privileged s Quiet (s \<lparr> st_db := d \<rparr>)"

definition shell_inv :: "shell_state \<Rightarrow> bool" where
  "shell_inv s \<longleftrightarrow> server_inv (st_db s) \<and> distinct (map ch_id (st_challenges s)) \<and>
     distinct (map ss_id (st_rows s)) \<and> distinct (map fst (st_sessions s)) \<and>
     length (st_sessions s) \<le> MAX_ACTIVE_SHELL_SESSIONS \<and> distinct (map fst (st_streams s))"

section \<open>Frames of the operations\<close>

lemma audit_frame:
  assumes "audit E s i now a l ac t oc m = (r, s')"
  shows "s' = s \<or> (\<exists>d. audited (sv_audit E) (st_db s) d \<and> s' = s \<lparr> st_db := d \<rparr>)"
  using assms by (auto simp: audit_def split: sum.splits intro: auditedI)

lemma audited_inv: "audited (sv_audit E) d d' \<Longrightarrow> server_inv d \<Longrightarrow> server_inv d'"
  by (rule srv.inv_step [of d "sv_jobs E" True]) (auto intro: server_step.audit)

lemma audit_inv: "audit E s i now a l ac t oc m = (r, s') \<Longrightarrow> shell_inv s \<Longrightarrow> shell_inv s'"
  by (drule audit_frame) (auto simp: shell_inv_def intro: audited_inv)

lemma audit_keeps: "audit E s i now a l ac t oc m = (r, s') \<Longrightarrow>
    st_challenges s' = st_challenges s \<and> st_rows s' = st_rows s \<and> st_sessions s' = st_sessions s \<and>
    st_streams s' = st_streams s"
  by (drule audit_frame) auto

lemma map_update_key: "(\<And>r. key (f r) = key r) \<Longrightarrow> map key (update_where P f rows) = map key rows"
  by (simp add: update_where_def)

lemma begin_elevation_cases:
  assumes "begin_elevation E s now actor request nonce c audit_id = (r, s')"
  shows "(s' = s \<and> \<not> is_ok r) \<or>
    (\<exists>row s1 q m t. insert_challenge s row = Inr s1 \<and> ch_id row = c \<and>
       audit E s1 audit_id now (Some actor) ''admin'' ''shell.elevation.begin'' (Some t) ''challenge_issued'' m = (q, s'))"
  using assms unfolding begin_elevation_def Let_def
  by (auto split: sum.splits if_splits prod.splits) (metis challenge_row.select_convs(1))+

lemma insert_challenge_Inr:
  "insert_challenge s row = Inr s1 \<longleftrightarrow> ch_id row \<notin> set (map ch_id (st_challenges s)) \<and>
     fk_identity (st_db s) (Some (ch_admin_id row)) \<and> fk_identity (st_db s) (Some (ch_target_id row)) \<and>
     s1 = s \<lparr> st_challenges := st_challenges s @ [row] \<rparr>"
  by (auto simp: insert_challenge_def)

lemma begin_elevation_inv:
  assumes "begin_elevation E s now actor request nonce c audit_id = (r, s')" and "shell_inv s"
  shows "shell_inv s'"
proof -
  have "insert_challenge s row = Inr s1 \<Longrightarrow> shell_inv s1" for row s1
    using assms(2) by (simp add: insert_challenge_Inr shell_inv_def)
  with begin_elevation_cases [OF assms(1)] assms(2) show ?thesis by (blast intro: audit_inv)
qed

lemma create_shell_session_cases:
  assumes "create_shell_session E s now actor op plan audit_id grant_id = (r, s')"
  shows "(s' = s \<and> \<not> is_ok r) \<or>
    (\<exists>row s1 q m. insert_shell_row s row = Inr s1 \<and>
       audit E s1 audit_id now (Some actor) ''admin'' ''shell.session.open'' (Some (sp_target_id plan)) ''opened'' m = (q, s'))"
  using assms unfolding create_shell_session_def by (auto split: sum.splits prod.splits)

lemma create_shell_session_signs:
  "create_shell_session E s now actor op plan audit_id grant_id = (Inr (frame, sg), s') \<Longrightarrow>
     sign (je_crypto (sv_jobs E)) (session_grant E now actor plan grant_id) (je_signing_key (sv_jobs E)) = Inr sg"
  unfolding create_shell_session_def by (auto split: sum.splits prod.splits)

lemma insert_shell_row_Inr:
  "insert_shell_row s row = Inr s1 \<Longrightarrow> ss_id row \<notin> set (map ss_id (st_rows s)) \<and> s1 = s \<lparr> st_rows := st_rows s @ [row] \<rparr>"
  by (auto simp: insert_shell_row_def split: if_splits)

lemma create_shell_session_keeps:
  assumes "create_shell_session E s now actor op plan audit_id grant_id = (r, s')"
  shows "st_challenges s' = st_challenges s \<and> st_sessions s' = st_sessions s \<and> st_streams s' = st_streams s"
  using create_shell_session_cases [OF assms] by (auto dest!: insert_shell_row_Inr audit_keeps)

lemma create_shell_session_inv:
  assumes "create_shell_session E s now actor op plan audit_id grant_id = (r, s')" and "shell_inv s"
  shows "shell_inv s'"
proof -
  have "insert_shell_row s row = Inr s1 \<Longrightarrow> shell_inv s1" for row s1
    using assms(2) insert_shell_row_Inr [of s row s1] by (auto simp: shell_inv_def)
  with create_shell_session_cases [OF assms(1)] assms(2) show ?thesis by (blast intro: audit_inv)
qed

lemma elevation_consume_inv: "elevation_consume s now c = (r, s') \<Longrightarrow> shell_inv s \<Longrightarrow> shell_inv s'"
  by (auto simp: elevation_consume_def shell_inv_def map_update_key)

lemma AList_update_known:
  assumes "map_of xs i = Some h" and "distinct (map fst xs)"
  shows "map fst (AList.update i h' xs) = map fst xs"
  using assms by (induction xs) (auto split: if_splits)

lemma length_AList_update_le: "length (AList.update i h xs) \<le> Suc (length xs)"
  by (induction xs) auto

lemma length_AList_delete_le: "length (AList.delete i xs) \<le> length xs"
  by (simp add: AList.delete_eq)

lemma sessions_update_inv:
  assumes "shell_inv s" and "map_of (st_sessions s) i = Some h"
  shows "shell_inv (s \<lparr> st_sessions := AList.update i h' (st_sessions s) \<rparr>)"
proof -
  have "map fst (AList.update i h' (st_sessions s)) = map fst (st_sessions s)"
    using assms by (auto simp: shell_inv_def intro: AList_update_known)
  then have "length (AList.update i h' (st_sessions s)) = length (st_sessions s)"
    by (metis length_map)
  with assms(1) \<open>map fst _ = _\<close> show ?thesis by (simp add: shell_inv_def)
qed

lemma route_cases:
  assumes "route_client_shell_frame E s clock identity frame = (r, s')"
  shows "s' = s \<or> (\<exists>i h p. map_of (st_sessions s) i = Some h \<and> sh_target_id h = identity \<and> frame = Some p \<and>
      s' = s \<lparr> st_sessions := AList.update i (snd (route_to_session E h clock p)) (st_sessions s) \<rparr>)"
  using assms unfolding route_client_shell_frame_def Let_def shell_session_for_client_def case_prod_beta
  by (auto split: option.splits shell_payload.splits if_splits)

lemma route_inv: "route_client_shell_frame E s clock identity frame = (r, s') \<Longrightarrow> shell_inv s \<Longrightarrow> shell_inv s'"
  by (drule route_cases) (auto intro: sessions_update_inv)

lemma end_shell_session_parts:
  assumes "end_shell_session E s now i reason (Some t) audit_id = (r, s')"
  obtains audit_result m where
    "audit E (s \<lparr> st_rows := update_where (\<lambda>r. ss_id r = i \<and> ss_ended_at r = None)
        (\<lambda>r. r \<lparr> ss_ended_at := Some now, ss_outcome := Some reason \<rparr>) (st_rows s) \<rparr>)
      audit_id now None ''server'' ''shell.session.end'' (Some t) ''closed'' m = (audit_result, s')"
  using assms unfolding end_shell_session_def Let_def by (metis (no_types, lifting) option.simps(5) prod.collapse snd_conv)

lemma finish_inv:
  assumes "finish_shell E s now i t out audit_id = (r, s')" and "shell_inv s"
  shows "shell_inv s'"
proof -
  have "length (AList.delete i (st_sessions s)) \<le> MAX_ACTIVE_SHELL_SESSIONS"
    using assms(2) length_AList_delete_le [of i "st_sessions s"] by (simp add: shell_inv_def)
  then have "shell_inv (remove_shell_session s i)"
    using assms(2) by (simp add: shell_inv_def remove_shell_session_def distinct_delete)
  then have rows: "shell_inv (remove_shell_session s i \<lparr> st_rows := update_where P
      (\<lambda>r. r \<lparr> ss_ended_at := Some now, ss_outcome := Some o' \<rparr>) (st_rows (remove_shell_session s i)) \<rparr>)" for P o'
    by (simp add: shell_inv_def map_update_key)
  from assms(1) show ?thesis
    unfolding finish_shell_def Let_def by (rule end_shell_session_parts) (rule audit_inv [OF _ rows])
qed

lemma close_abandoned_inv:
  "close_abandoned E now active ids s = (r, s') \<Longrightarrow> shell_inv s \<Longrightarrow> shell_inv s'"
proof (induction E now active ids s arbitrary: r s' rule: close_abandoned.induct)
  case (2 E now active i audit_id rest s)
  let ?s = "s \<lparr> st_rows := update_where (\<lambda>r. ss_id r = i \<and> ss_ended_at r = None)
                  (\<lambda>r. r \<lparr> ss_ended_at := Some now, ss_outcome := Some ''abandoned'' \<rparr>) (st_rows s) \<rparr>"
  have "shell_inv ?s" using "2.prems"(2) by (simp add: shell_inv_def map_update_key)
  note after = audit_inv [OF _ this]
  show ?case
  proof (cases "i \<in> set active")
    case False
    obtain q s1 where q: "audit E ?s audit_id now None ''server'' ''shell.session.end'' None ''abandoned''
        (JObj [(''session_id'', au_uuid (sv_audit E) i)]) = (q, s1)" by fastforce
    with False "2.prems"(1) "2.IH"(2) [OF False refl q [symmetric]] after [OF q] show ?thesis
      by (cases q) auto
  qed (use 2 in auto)
qed simp

lemma close_abandoned_keeps:
  "close_abandoned E now active ids s = (r, s') \<Longrightarrow>
     st_challenges s' = st_challenges s \<and> st_sessions s' = st_sessions s"
proof (induction E now active ids s arbitrary: r s' rule: close_abandoned.induct)
  case (2 E now active i audit_id rest s)
  let ?s = "s \<lparr> st_rows := update_where (\<lambda>r. ss_id r = i \<and> ss_ended_at r = None)
                  (\<lambda>r. r \<lparr> ss_ended_at := Some now, ss_outcome := Some ''abandoned'' \<rparr>) (st_rows s) \<rparr>"
  show ?case
  proof (cases "i \<in> set active")
    case False
    obtain q s1 where q: "audit E ?s audit_id now None ''server'' ''shell.session.end'' None ''abandoned''
        (JObj [(''session_id'', au_uuid (sv_audit E) i)]) = (q, s1)" by fastforce
    with False "2.prems"(1) "2.IH"(2) [OF False refl q [symmetric]] audit_keeps [OF q] show ?thesis
      by (cases q) auto
  qed (use 2 in auto)
qed simp

lemma housekeeping_inv: "shell_housekeeping E s now ids = (r, s') \<Longrightarrow> shell_inv s \<Longrightarrow> shell_inv s'"
  unfolding shell_housekeeping_def Let_def
  by (erule close_abandoned_inv) (auto simp: shell_inv_def distinct_map inj_on_def)

lemma shell_step_inv:
  assumes "shell_step E p s l s'" and "shell_inv s"
  shows "shell_inv s'"
  using assms
proof (induction rule: shell_step.induct)
  case (register s i h r s')
  then show ?case
    using length_AList_update_le [of i h "st_sessions s"]
    by (auto simp: insert_shell_session_def shell_inv_def distinct_update split: if_splits)
next
  case (server s l d)
  then show ?case by (auto simp: shell_inv_def intro: srv.inv_step)
next
  case (connect s identity channel)
  then show ?case by (simp add: register_client_stream_def shell_inv_def distinct_update)
next
  case (disconnect s identity)
  then show ?case by (simp add: drop_client_stream_def shell_inv_def distinct_delete)
qed (auto intro: begin_elevation_inv elevation_consume_inv create_shell_session_inv sessions_update_inv route_inv
    finish_inv housekeeping_inv)

interpretation shells: guarded_system "shell_step E p" shell_inv for E p
  by unfold_locales (rule shell_step_inv)

section \<open>Challenges\<close>

definition challenge_spent :: "uuid \<Rightarrow> shell_state \<Rightarrow> bool" where
  "challenge_spent c s \<longleftrightarrow> (\<forall>r \<in> set (st_challenges s). ch_id r = c \<longrightarrow> ch_consumed_at r \<noteq> None)"

lemma begin_elevation_challenges:
  assumes "begin_elevation E s now actor request nonce c audit_id = (r, s')"
  shows "st_challenges s' = st_challenges s \<or> (\<exists>row. ch_id row = c \<and> st_challenges s' = st_challenges s @ [row])"
  using begin_elevation_cases [OF assms] by (auto simp: insert_challenge_Inr dest!: audit_keeps)

lemma finish_keeps_challenges: "finish_shell E s now i t out audit_id = (r, s') \<Longrightarrow> st_challenges s' = st_challenges s"
  unfolding finish_shell_def Let_def
  by (erule end_shell_session_parts) (drule audit_keeps, simp add: remove_shell_session_def)

lemma housekeeping_challenges:
  "shell_housekeeping E s now ids = (r, s') \<Longrightarrow>
     st_challenges s' = filter (\<lambda>c. \<not> challenge_stale now c) (st_challenges s)"
  unfolding shell_housekeeping_def Let_def by (drule close_abandoned_keeps) simp

lemma step_challenges:
  assumes "shell_step E p s l s'" and "l \<noteq> Issued c"
  shows "\<forall>r' \<in> set (st_challenges s'). ch_id r' = c \<longrightarrow>
    (\<exists>r \<in> set (st_challenges s). ch_id r = c \<and> (ch_consumed_at r \<noteq> None \<longrightarrow> ch_consumed_at r' \<noteq> None))"
  using assms
proof (induction rule: shell_step.induct)
  case (begin_elevation s now actor request nonce c' audit_id r s')
  then show ?case using begin_elevation_challenges [OF begin_elevation.hyps] by auto
next
  case (route s clock identity frame r s')
  then show ?case using route_cases [OF route.hyps] by auto
next
  case (create s now actor op plan audit_id grant_id r s')
  then show ?case using create_shell_session_keeps [OF create.hyps] by auto
qed (auto simp: elevation_consume_def set_update_where insert_shell_session_def register_client_stream_def
    drop_client_stream_def housekeeping_challenges finish_keeps_challenges split: if_splits)

lemma spent_step: "challenge_spent c s \<Longrightarrow> shell_step E p s l s' \<Longrightarrow> l \<noteq> Issued c \<Longrightarrow> challenge_spent c s'"
  using step_challenges [of E p s l s' c] unfolding challenge_spent_def by blast

lemma consume_spends:
  assumes "elevation_consume s now c = (Inr (), s')" and "shell_inv s"
  shows "\<not> challenge_spent c s" "challenge_spent c s'"
proof -
  have one: "length (filter (challenge_open now c) (st_challenges s)) = 1"
    and s': "st_challenges s' = update_where (challenge_open now c) (\<lambda>c. c \<lparr> ch_consumed_at := Some now \<rparr>) (st_challenges s)"
    using assms(1) by (auto simp: elevation_consume_def rows_affected_def split: if_splits)
  then obtain r where r: "r \<in> set (st_challenges s)" "challenge_open now c r"
    by (metis filter_False length_0_conv zero_neq_one)
  then show "\<not> challenge_spent c s" by (auto simp: challenge_spent_def challenge_open_def)
  have "q = r" if "q \<in> set (st_challenges s)" "ch_id q = c" for q
    using assms(2) r that by (auto simp: shell_inv_def challenge_open_def distinct_map inj_on_def)
  with r show "challenge_spent c s'"
    unfolding challenge_spent_def s' ball_update_where by auto
qed

interpretation elevation: one_shot "\<lambda>s l s'. shell_step E p s l s' \<and> l \<noteq> Issued c" shell_inv "challenge_spent c"
  "\<lambda>l. l = Consumed c" for E p c
proof unfold_locales
  fix s l s'
  assume i: "shell_inv s" and st: "shell_step E p s l s' \<and> l \<noteq> Issued c"
  then show "shell_inv s'" by (blast intro: shells.inv_step)
  show "challenge_spent c s'" if "challenge_spent c s" using st that by (blast intro: spent_step)
  assume l: "l = Consumed c"
  then obtain now where "elevation_consume s now c = (Inr (), s')"
    using st by (auto elim: shell_step.cases)
  from consume_spends [OF this i] show "\<not> challenge_spent c s" "challenge_spent c s'" .
qed

text \<open>
  C14. An elevation challenge is consumed at most once: in every interleaving of shell requests,
  relays, housekeeping and the transactions of the control plane that does not issue the identifier
  again, at most one request consumes it, however many requests verified its signature before.
\<close>

theorem elevation_single_use:
  assumes "shell_inv s" and "steps (shell_step E p) s ls s'" and "Issued c \<notin> set ls"
  shows "length (filter (\<lambda>l. l = Consumed c) ls) \<le> 1"
proof -
  have "steps (\<lambda>s l s'. shell_step E p s l s' \<and> l \<noteq> Issued c) s ls s'"
    using assms(2,3) by (auto intro: steps_restrict)
  from elevation.used_at_most_once [OF this assms(1)] show ?thesis .
qed

text \<open>An Admin with an elevation key, an online client and one challenge.\<close>

definition demo_challenge :: challenge_row where
  "demo_challenge = \<lparr> ch_id = 70, ch_admin_id = 1, ch_target_id = 3, ch_operation = ''open_shell'', ch_nonce = [5],
     ch_context_hash = [7], ch_expires_at = secs 300, ch_consumed_at = None \<rparr>"

definition demo_shell_state :: shell_state where
  "demo_shell_state = \<lparr> st_db = demo_server_db \<lparr> db_identities :=
       [demo_admin \<lparr> i_elevation_public_key := Some (replicate 32 9) \<rparr>, demo_client] \<rparr>,
     st_challenges = [demo_challenge], st_rows = [], st_streams = [(3, 0)], st_sessions = [] \<rparr>"

lemma demo_shell_inv: "shell_inv demo_shell_state"
proof -
  have "server_inv (st_db demo_shell_state)"
    by (simp add: demo_shell_state_def server_inv_def ident_inv_def job_inv_def parties_inv_def history_ok_def
        events_of_def activated_def identity_check_def certificate_check_def key_check_def job_check_def demo_rows
        MAX_JOB_EVENTS_def is_terminal_job_state_def)
  then show ?thesis by (simp add: shell_inv_def demo_shell_state_def)
qed

theorem elevation_single_use_witness:
  "\<exists>s' now. steps (shell_step demo_shells True) demo_shell_state [Consumed 70] s' \<and>
     elevation_consume demo_shell_state now 70 = (Inr (), s') \<and>
     length (filter (\<lambda>l. l = Consumed 70) [Consumed 70]) \<le> 1"
proof -
  obtain s' where c: "elevation_consume demo_shell_state (secs 10) 70 = (Inr (), s')"
    by (simp add: elevation_consume_def demo_shell_state_def demo_challenge_def rows_affected_def challenge_open_def
        secs_def nanos_per_second_def)
  then have r: "steps (shell_step demo_shells True) demo_shell_state [Consumed 70] s'"
    by (auto intro: steps.intros shell_step.consume)
  from elevation_single_use [OF demo_shell_inv r, of 70] c r show ?thesis by auto
qed

section \<open>Opening a session\<close>

lemma elevation_check_Inr:
  assumes "elevation_check E s now actor t op = Inr i"
  obtains c key vk signature where "find (\<lambda>c. ch_id c = i) (st_challenges s) = Some c"
    "ch_admin_id c = actor" "ch_target_id c = t" "now < ch_expires_at c"
    "Option.bind (find_identity (st_db s) actor) i_elevation_public_key = Some key"
    "sv_verifying_key E key = Some vk"
    "ed_verify (je_crypto (sv_jobs E)) vk (elevation_payload (ch_nonce c) (ch_context_hash c)) signature"
  using assms unfolding elevation_check_def
  by (auto split: sum.splits if_splits option.splits)

lemma validate_shell_open_Inr:
  assumes "validate_shell_open E s now actor op i = (Inr plan, s')"
  shows "(sp_operation plan = OpenElevatedShell \<longrightarrow>
      verify_elevation_challenge E s now actor (sp_target_id plan) op = (Inr (), s')) \<and>
    (sp_operation plan = OpenLowShell \<or> sp_operation plan = OpenElevatedShell) \<and> sp_session_id plan = i \<and>
    st_db s' = st_db s \<and> st_sessions s' = st_sessions s \<and> client_online s (sp_target_id plan)"
  using assms unfolding validate_shell_open_def Let_def privilege_name_def
  by (auto simp: verify_elevation_challenge_def elevation_consume_def
      split: sum.splits if_splits prod.splits option.splits shell_privilege.splits)

lemma open_shell_Inr:
  assumes "open_shell E enabled alive s now clock leaf m i audit_id grant_id = (Inr r, s')"
  obtains actor op plan s1 s2 frame sg where "authenticate (st_db s) now leaf RoleAdmin = Inr actor"
    "validate_shell_open E s now actor op i = (Inr plan, s1)"
    "create_shell_session E s1 now actor op plan audit_id grant_id = (Inr (frame, sg), s2)"
    "op_to_client r = [GrantToClient sg, ShellToClient frame]" "op_handle r = new_handle E clock actor plan"
    "s' = s2 \<lparr> st_sessions := AList.update (sp_session_id plan) (new_handle E clock actor plan) (st_sessions s2) \<rparr>"
  using assms unfolding open_shell_def
  by (auto split: sum.splits if_splits prod.splits option.splits
      simp: deliver_shell_open_to_client_def insert_shell_session_def)

text \<open>
  C13. An elevated shell needs its own challenge: if opening a shell hands the client a grant for an
  elevated shell, then the caller authenticated as the Admin whom the grant names, and there was an
  unconsumed and unexpired challenge issued to that Admin for that device, whose nonce and context a
  signature under the Admin's registered elevation key covers; afterwards it is consumed. The grant
  verifies on that device for sixteen minutes and names the session that was registered.
\<close>

theorem elevated_shell_needs_challenge:
  assumes "open_shell E enabled alive s now clock leaf m i audit_id grant_id = (Inr r, s')"
    and "shell_inv s" and "grant_crypto_ok (je_crypto (sv_jobs E))"
    and "GrantToClient sg \<in> set (op_to_client r)" and "g_operation (sg_grant sg) = OpenElevatedShell"
  shows "authenticate (st_db s) now leaf RoleAdmin = Inr (g_admin_id (sg_grant sg)) \<and>
    (\<exists>c key vk signature. c \<in> set (st_challenges s) \<and> ch_consumed_at c = None \<and> now < ch_expires_at c \<and>
       ch_admin_id c = g_admin_id (sg_grant sg) \<and> ch_target_id c = g_device_id (sg_grant sg) \<and>
       Option.bind (find_identity (st_db s) (g_admin_id (sg_grant sg))) i_elevation_public_key = Some key \<and>
       sv_verifying_key E key = Some vk \<and>
       ed_verify (je_crypto (sv_jobs E)) vk (elevation_payload (ch_nonce c) (ch_context_hash c)) signature \<and>
       c \<lparr> ch_consumed_at := Some now \<rparr> \<in> set (st_challenges s')) \<and>
    (\<forall>t. now - secs 5 \<le> t \<and> t \<le> now + secs 960 \<longrightarrow>
       verify (je_crypto (sv_jobs E)) sg
         (ed_verifying_key (je_crypto (sv_jobs E)) (je_signing_key (sv_jobs E))) (g_device_id (sg_grant sg)) t = Inr ()) \<and>
    g_job_or_session_id (sg_grant sg) = i \<and> map_of (st_sessions s') i = Some (op_handle r)"
proof -
  obtain actor op plan s1 s2 frame sg' where o: "authenticate (st_db s) now leaf RoleAdmin = Inr actor"
      "validate_shell_open E s now actor op i = (Inr plan, s1)"
      "create_shell_session E s1 now actor op plan audit_id grant_id = (Inr (frame, sg'), s2)"
      "op_to_client r = [GrantToClient sg', ShellToClient frame]" "op_handle r = new_handle E clock actor plan"
      "s' = s2 \<lparr> st_sessions := AList.update (sp_session_id plan) (new_handle E clock actor plan) (st_sessions s2) \<rparr>"
    using assms(1) by (rule open_shell_Inr)
  have sg: "sg' = sg" using assms(4) o(4) by auto
  note sig = sign_signature_valid [OF assms(3) create_shell_session_signs [OF o(3), unfolded sg]]
  have g: "g_admin_id (sg_grant sg) = actor" "g_device_id (sg_grant sg) = sp_target_id plan"
      "g_job_or_session_id (sg_grant sg) = sp_session_id plan" "g_operation (sg_grant sg) = sp_operation plan"
    using sig(1) by (simp_all add: session_grant_def)
  note v = validate_shell_open_Inr [OF o(2)]
  then obtain ci where ci: "elevation_check E s now actor (sp_target_id plan) op = Inr ci"
      "elevation_consume s now ci = (Inr (), s1)"
    using assms(5) g(4) by (auto simp: verify_elevation_challenge_def split: sum.splits)
  obtain c key vk signature where c: "find (\<lambda>c. ch_id c = ci) (st_challenges s) = Some c"
      "ch_admin_id c = actor" "ch_target_id c = sp_target_id plan" "now < ch_expires_at c"
      "Option.bind (find_identity (st_db s) actor) i_elevation_public_key = Some key"
      "sv_verifying_key E key = Some vk"
      "ed_verify (je_crypto (sv_jobs E)) vk (elevation_payload (ch_nonce c) (ch_context_hash c)) signature"
    using ci(1) by (rule elevation_check_Inr)
  have mem: "c \<in> set (st_challenges s)" "ch_id c = ci" using c(1) by (auto simp: find_Some_iff)
  have unspent: "ch_consumed_at c = None"
  proof -
    obtain q where "q \<in> set (st_challenges s)" "ch_id q = ci" "ch_consumed_at q = None"
      using consume_spends(1) [OF ci(2) assms(2)] by (auto simp: challenge_spent_def)
    then show ?thesis using mem assms(2) by (auto simp: shell_inv_def distinct_map inj_on_def)
  qed
  have "c \<lparr> ch_consumed_at := Some now \<rparr> \<in> set (st_challenges s1)"
    using ci(2) mem unspent c(4) by (auto simp: elevation_consume_def set_update_where challenge_open_def image_iff
        split: if_splits intro!: bexI [of _ c])
  then have used: "c \<lparr> ch_consumed_at := Some now \<rparr> \<in> set (st_challenges s')"
    using create_shell_session_keeps [OF o(3)] o(6) by simp
  have "lifetime_ok (sg_grant sg)"
    using sig(1) by (simp add: lifetime_ok_def session_grant_def secs_def nanos_per_second_def)
  then have good: "verify (je_crypto (sv_jobs E)) sg
         (ed_verifying_key (je_crypto (sv_jobs E)) (je_signing_key (sv_jobs E))) (g_device_id (sg_grant sg)) t = Inr ()"
    if "now - secs 5 \<le> t \<and> t \<le> now + secs 960" for t
    using sig that by (simp add: verify_ok_iff session_grant_def)
  show ?thesis
    using o(1,5,6) g c mem unspent used good v by (auto simp: map_of_eq_Some_iff update_Some_unfold)
qed

definition demo_open :: shell_open where
  "demo_open = \<lparr> so_session_id = [], so_target_id = ''3'', so_privilege = Some PrivilegeElevated, so_reason = ''fix'',
     so_challenge_id = ''70'', so_challenge_signature = 9 # elevation_payload [5] [7], so_columns = 80, so_rows = 24,
     so_account_user = ''root'', so_account_password = [], so_save_credentials = False, so_parameters_json = [] \<rparr>"

lemma demo_consumes:
  "verify_elevation_challenge demo_shells demo_shell_state (secs 10) 1 3 demo_open =
     (Inr (), demo_shell_state \<lparr> st_challenges := [demo_challenge \<lparr> ch_consumed_at := Some (secs 10) \<rparr>] \<rparr>)"
  by (simp add: verify_elevation_challenge_def elevation_check_def elevation_consume_def shell_parse_uuid_def demo_open_def
      demo_shell_state_def demo_challenge_def demo_shell_defs demo_crypto_def find_identity_def demo_rows
      rows_affected_def challenge_open_def update_where_def secs_def nanos_per_second_def)

lemma demo_validates:
  "\<exists>plan. validate_shell_open demo_shells demo_shell_state (secs 10) 1 demo_open 6 =
     (Inr plan, demo_shell_state \<lparr> st_challenges := [demo_challenge \<lparr> ch_consumed_at := Some (secs 10) \<rparr>] \<rparr>) \<and>
     sp_operation plan = OpenElevatedShell \<and> sp_target_id plan = 3 \<and> sp_session_id plan = 6 \<and> sp_privilege plan = ''elevated''"
proof -
  have f: "validate_open_fields ''elevated'' demo_open = Inr ()"
    by (simp add: validate_open_fields_def demo_open_def valid_size_def MAX_SHELL_REASON_BYTES_def
        MAX_SHELL_ACCOUNT_BYTES_def has_control_def trim_def is_space1_def is_space2_def is_space3_def)
  have p: "shell_parse_uuid demo_shells (so_target_id demo_open) ''target_id'' = Inr 3"
      "privilege_name (so_privilege demo_open) = Inr ''elevated''"
    by (simp_all add: shell_parse_uuid_def demo_open_def demo_shell_defs privilege_name_def)
  have o: "list_ex (\<lambda>c. cl_identity_id c = 3) (db_clients (st_db demo_shell_state))"
      "supports_typed_jobs (st_db demo_shell_state) 3" "client_online demo_shell_state 3"
    by (simp_all add: demo_shell_state_def supports_typed_jobs_def client_online_def demo_rows)
  show ?thesis
    unfolding validate_shell_open_def p sum.case f Let_def using o demo_consumes by simp
qed

lemma demo_opens:
  "\<exists>r s' sg. open_shell demo_shells True (\<lambda>_. True) demo_shell_state (secs 10) 0 (Some ''f1'')
     (First (Some (Some (OpenFrame demo_open)))) 6 90 91 = (Inr r, s') \<and> GrantToClient sg \<in> set (op_to_client r) \<and>
     g_operation (sg_grant sg) = OpenElevatedShell"
proof -
  obtain plan where v: "validate_shell_open demo_shells demo_shell_state (secs 10) 1 demo_open 6 =
     (Inr plan, demo_shell_state \<lparr> st_challenges := [demo_challenge \<lparr> ch_consumed_at := Some (secs 10) \<rparr>] \<rparr>)"
     "sp_operation plan = OpenElevatedShell" "sp_target_id plan = 3" "sp_session_id plan = 6" "sp_privilege plan = ''elevated''"
    using demo_validates by blast
  have a: "authenticate (st_db demo_shell_state) (secs 10) (Some ''f1'') RoleAdmin = Inr 1"
    by (simp add: authenticate_def peer_certificate_fingerprint_def find_certificate_def find_identity_def
        demo_shell_state_def demo_rows certificate_live_def identity_live_def secs_def nanos_per_second_def)
  let ?s = "demo_shell_state \<lparr> st_challenges := [demo_challenge \<lparr> ch_consumed_at := Some (secs 10) \<rparr>] \<rparr>"
  obtain frame sg s2 where c: "create_shell_session demo_shells ?s (secs 10) 1 demo_open plan 90 91 = (Inr (frame, sg), s2)"
    by (simp add: v create_shell_session_def insert_shell_row_def fk_identity_def demo_shell_state_def demo_rows audit_def
        append_audit_def insert_audit_def Let_def sign_def signing_payload_def session_grant_def demo_shell_defs
        demo_crypto_def)
  have k: "grant_crypto_ok (je_crypto (sv_jobs demo_shells))" by (simp add: demo_shells_def demo_jobs_def demo_crypto_ok)
  have "g_operation (sg_grant sg) = OpenElevatedShell"
    using sign_signature_valid(1) [OF k create_shell_session_signs [OF c]] v(2) by (simp add: session_grant_def)
  moreover have "st_streams s2 = [(3, 0)]" "st_sessions s2 = []"
    using create_shell_session_keeps [OF c] by (simp_all add: demo_shell_state_def)
  ultimately show ?thesis
    using a v(1,3) c
    by (simp add: open_shell_def first_open_def deliver_shell_open_to_client_def insert_shell_session_def
        MAX_ACTIVE_SHELL_SESSIONS_def)
qed

theorem elevated_shell_needs_challenge_witness:
  "\<exists>r s' sg c. open_shell demo_shells True (\<lambda>_. True) demo_shell_state (secs 10) 0 (Some ''f1'')
     (First (Some (Some (OpenFrame demo_open)))) 6 90 91 = (Inr r, s') \<and> GrantToClient sg \<in> set (op_to_client r) \<and>
     c \<in> set (st_challenges demo_shell_state) \<and> ch_admin_id c = g_admin_id (sg_grant sg) \<and>
     c \<lparr> ch_consumed_at := Some (secs 10) \<rparr> \<in> set (st_challenges s')"
proof -
  obtain r s' sg where o: "open_shell demo_shells True (\<lambda>_. True) demo_shell_state (secs 10) 0 (Some ''f1'')
     (First (Some (Some (OpenFrame demo_open)))) 6 90 91 = (Inr r, s')" "GrantToClient sg \<in> set (op_to_client r)"
     "g_operation (sg_grant sg) = OpenElevatedShell"
    using demo_opens by blast
  have k: "grant_crypto_ok (je_crypto (sv_jobs demo_shells))" by (simp add: demo_shells_def demo_jobs_def demo_crypto_ok)
  from elevated_shell_needs_challenge [OF o(1) demo_shell_inv k o(2,3)] o show ?thesis by blast
qed

lemma begin_elevation_Inr:
  assumes "begin_elevation E s now actor request nonce c audit_id = (Inr ch, s')"
  obtains t where "se_parse_uuid (sv_server E) (be_target_id request) = Some t"
    "c \<notin> set (map ch_id (st_challenges s))" "audited (sv_audit E) (st_db s) (st_db s')"
    "st_challenges s' = st_challenges s @ [\<lparr> ch_id = c, ch_admin_id = actor, ch_target_id = t,
       ch_operation = ''open_shell'', ch_nonce = ec_nonce ch, ch_context_hash = ec_context_hash ch,
       ch_expires_at = now + secs 300, ch_consumed_at = None \<rparr>]"
  using assms unfolding begin_elevation_def Let_def
  by (auto simp: shell_parse_uuid_def insert_challenge_def audit_def ELEVATION_CHALLENGE_TTL_SECONDS_def
      split: sum.splits if_splits prod.splits option.splits dest: auditedI)

lemma find_append: "find P (xs @ ys) = (case find P xs of None \<Rightarrow> find P ys | Some x \<Rightarrow> Some x)"
  by (induction xs) auto

lemma find_key_None: "k \<notin> set (map key xs) \<Longrightarrow> find (\<lambda>x. key x = k) xs = None"
  by (auto simp: find_None_iff)

text \<open>
  C25. What the server issues, the Admin application signs and the server accepts, once: a challenge
  from \<open>begin_elevation\<close>, signed with the private key that belongs to the elevation key registered for
  the Admin, is accepted for the target it was issued for until it expires, and the same request is
  refused at every later time.
\<close>

theorem elevation_roundtrip:
  assumes "grant_crypto_ok (je_crypto (sv_jobs E))" and "shell_inv s"
    and "begin_elevation E s now actor request nonce c audit_id = (Inr ch, s1)"
    and "Option.bind (find_identity (st_db s) actor) i_elevation_public_key = Some key" and "length key = 32"
    and "sv_verifying_key E key = Some (ed_verifying_key (je_crypto (sv_jobs E)) sk)"
    and "se_parse_uuid (sv_server E) (be_target_id request) = Some t"
    and "se_parse_uuid (sv_server E) (so_challenge_id op) = Some c"
    and "so_challenge_signature op = sign_elevation_challenge (je_crypto (sv_jobs E)) sk ch"
    and "so_challenge_signature op \<noteq> []" and "now' < now + secs 300"
  shows "\<exists>s2. verify_elevation_challenge E s1 now' actor t op = (Inr (), s2) \<and>
    (\<forall>later. \<not> is_ok (fst (verify_elevation_challenge E s2 later actor t op)))"
proof -
  obtain t' where b: "se_parse_uuid (sv_server E) (be_target_id request) = Some t'"
    "c \<notin> set (map ch_id (st_challenges s))" "audited (sv_audit E) (st_db s) (st_db s1)"
    "st_challenges s1 = st_challenges s @ [\<lparr> ch_id = c, ch_admin_id = actor, ch_target_id = t',
       ch_operation = ''open_shell'', ch_nonce = ec_nonce ch, ch_context_hash = ec_context_hash ch,
       ch_expires_at = now + secs 300, ch_consumed_at = None \<rparr>]" (is "_ = _ @ [?row]")
    using assms(3) by (rule begin_elevation_Inr)
  have t: "t' = t" using b(1) assms(7) by simp
  have fi: "find_identity (st_db s1) actor = find_identity (st_db s) actor"
    using audited_frame(1) [OF b(3)] by (simp add: find_identity_def)
  have only: "filter (challenge_open now' c) (st_challenges s1) = [?row]"
    using b assms(11) by (auto simp: challenge_open_def filter_empty_conv image_iff)
  have find: "find (\<lambda>x. ch_id x = c) (st_challenges s1) = Some ?row"
    using b(4) find_key_None [OF b(2)] by (simp add: find_append)
  have "elevation_check E s1 now' actor t op = Inr c"
    using assms(1,4-6,8-11) b t find fi
    by (simp add: elevation_check_def shell_parse_uuid_def sign_elevation_challenge_def elevation_payload_def
        grant_crypto_ok_def)
  moreover obtain s2 where s2: "elevation_consume s1 now' c = (Inr (), s2)"
    using only by (simp add: elevation_consume_def rows_affected_def)
  moreover have "shell_inv s1" using assms(3,2) by (rule begin_elevation_inv)
  then have "challenge_spent c s2" using s2 by (blast dest: consume_spends)
  then have "rows_affected (challenge_open later c) (st_challenges s2) = 0" for later
    by (auto simp: rows_affected_def challenge_spent_def challenge_open_def filter_empty_conv)
  then have "\<not> is_ok (fst (verify_elevation_challenge E s2 later actor t op))" for later
    using assms(8) by (auto simp: verify_elevation_challenge_def elevation_check_def elevation_consume_def
        shell_parse_uuid_def split: sum.splits if_splits option.splits)
  ultimately show ?thesis by (auto simp: verify_elevation_challenge_def)
qed

definition demo_elevation :: begin_elevation_request where
  "demo_elevation = \<lparr> be_target_id = ''3'', be_operation = ''open_shell'', be_reason = ''fix'' \<rparr>"

theorem elevation_roundtrip_witness:
  "\<exists>ch s1 s2. begin_elevation demo_shells demo_shell_state (secs 10) 1 demo_elevation [8] 5 90 = (Inr ch, s1) \<and>
     verify_elevation_challenge demo_shells s1 (secs 20) 1 3
       (demo_open \<lparr> so_challenge_id := ''5'', so_challenge_signature := sign_elevation_challenge demo_crypto 9 ch \<rparr>) =
       (Inr (), s2)"
proof -
  obtain ch s1 where b: "begin_elevation demo_shells demo_shell_state (secs 10) 1 demo_elevation [8] 5 90 = (Inr ch, s1)"
    by (simp add: begin_elevation_def shell_parse_uuid_def demo_elevation_def demo_shell_defs demo_shell_state_def
        MAX_SHELL_REASON_BYTES_def has_control_def supports_typed_jobs_def demo_rows insert_challenge_def fk_identity_def
        demo_challenge_def audit_def append_audit_def insert_audit_def Let_def)
  let ?op = "demo_open \<lparr> so_challenge_id := ''5'', so_challenge_signature := sign_elevation_challenge demo_crypto 9 ch \<rparr>"
  have c: "je_crypto (sv_jobs demo_shells) = demo_crypto" by (simp add: demo_shells_def demo_jobs_def)
  have "\<exists>s2. verify_elevation_challenge demo_shells s1 (secs 20) 1 3 ?op = (Inr (), s2) \<and>
    (\<forall>later. \<not> is_ok (fst (verify_elevation_challenge demo_shells s2 later 1 3 ?op)))"
    by (rule elevation_roundtrip [OF _ demo_shell_inv b, where key = "replicate 32 9" and sk = 9], unfold c, rule demo_crypto_ok)
       (simp_all add: find_identity_def demo_shell_state_def demo_rows demo_shell_defs demo_elevation_def
          sign_elevation_challenge_def demo_crypto_def secs_def nanos_per_second_def)
  with b show ?thesis by blast
qed

section \<open>The end of a session\<close>

lemma finish_shell_ends:
  assumes "finish_shell E s now i t out audit_id = (r, s')"
  shows "map_of (st_sessions s') i = None \<and> (\<forall>row \<in> set (st_rows s'). ss_id row = i \<longrightarrow> ss_ended_at row \<noteq> None)"
proof -
  obtain rows where "st_sessions s' = AList.delete i (st_sessions s)"
      "st_rows s' = update_where (\<lambda>r. ss_id r = i \<and> ss_ended_at r = None) (\<lambda>r. r \<lparr> ss_ended_at := Some now, ss_outcome := rows \<rparr>) (st_rows s)"
    using assms unfolding finish_shell_def Let_def
    by (rule end_shell_session_parts) (drule audit_keeps, simp add: remove_shell_session_def)
  then show ?thesis by (simp add: delete_conv' ball_update_where)
qed

text \<open>
  C37. Output that is still on its way when a session ends cuts the client off: once the relay of a
  session has finished, a data frame of the client for it ends the client's whole control stream,
  and with it the delivery of its jobs, although the frame is harmless and the relay means to drop
  late output.
\<close>

theorem late_output_ends_control_stream:
  assumes "finish_shell E s now i t out audit_id = (r, s')"
    and "se_parse_uuid (sv_server E) (sd_session_id data) = Some i"
  shows "control_turn E s' later clock t fp channel (ControlFrame (ShellPayload (Some (DataFrame data)))) dl gr =
    (\<lparr> cr_sent = [], cr_status = Some (FailedPrecondition, ''shell session is not active for this client''),
       cr_open = False \<rparr>, unregister_client_stream s' t channel)"
  using finish_shell_ends [OF assms(1)] assms(2)
  by (simp add: control_turn_def handle_control_frame_def route_client_shell_frame_def shell_session_for_client_def Let_def)

theorem late_output_ends_control_stream_witness:
  "\<exists>r s'. finish_shell demo_shells demo_shell_state (secs 10) 6 3 None 95 = (r, s') \<and>
     \<not> cr_open (fst (control_turn demo_shells s' (secs 11) 0 3 ''f2'' 0
        (ControlFrame (ShellPayload (Some (DataFrame (demo_data [1]))))) 96 97))"
proof -
  obtain r s' where f: "finish_shell demo_shells demo_shell_state (secs 10) 6 3 None 95 = (r, s')" by fastforce
  have "se_parse_uuid (sv_server demo_shells) (sd_session_id (demo_data [1])) = Some 6"
    by (simp add: demo_shell_defs)
  from late_output_ends_control_stream [OF f this] f show ?thesis by auto
qed

lemma control_turn_cases:
  assumes "control_turn E s now clock identity fp channel ev dl gr = (r, s')"
  shows "\<exists>s1. (s' = s1 \<or> s' = unregister_client_stream s1 identity channel) \<and>
    ((\<exists>d. s1 = s \<lparr> st_db := d \<rparr>) \<or> (\<exists>f q. route_client_shell_frame E s clock identity f = (q, s1)))"
proof (cases "\<exists>frame. ev = ControlFrame frame")
  case True
  then obtain frame where f: "ev = ControlFrame frame" by blast
  obtain q s1 where h: "handle_control_frame E s now clock identity frame dl gr = (q, s1)" by fastforce
  then have "(\<exists>d. s1 = s \<lparr> st_db := d \<rparr>) \<or> (\<exists>f q. route_client_shell_frame E s clock identity f = (q, s1))"
    unfolding handle_control_frame_def by (auto split: control_payload.splits prod.splits sum.splits)
  moreover have "s' = s1 \<or> s' = unregister_client_stream s1 identity channel"
    using assms f h by (cases q) (simp_all add: control_turn_def Let_def)
  ultimately show ?thesis by blast
next
  case False
  then have "s' = s \<or> s' = unregister_client_stream s identity channel"
    using assms by (cases ev) (auto simp: control_turn_def Let_def split: sum.splits)
  moreover have "s = s \<lparr> st_db := st_db s \<rparr>" by simp
  ultimately show ?thesis by blast
qed

text \<open>
  Clients are isolated: whatever a client's control stream receives, a shell session of another
  client keeps its handle (its counters, its queue and its closed flag), and the registered streams
  of other clients stay. A stream that ends also leaves the registration alone when the client had
  connected again before.
\<close>

theorem clients_isolated:
  assumes "control_turn E s now clock identity fp channel ev dl gr = (r, s')"
  shows "(\<forall>i h. map_of (st_sessions s) i = Some h \<and> sh_target_id h \<noteq> identity \<longrightarrow> map_of (st_sessions s') i = Some h) \<and>
    (\<forall>j. j \<noteq> identity \<or> map_of (st_streams s) j \<noteq> Some channel \<longrightarrow> map_of (st_streams s') j = map_of (st_streams s) j) \<and>
    st_challenges s' = st_challenges s \<and> st_rows s' = st_rows s"
proof -
  obtain s1 where s1: "s' = s1 \<or> s' = unregister_client_stream s1 identity channel"
      "(\<exists>d. s1 = s \<lparr> st_db := d \<rparr>) \<or> (\<exists>f q. route_client_shell_frame E s clock identity f = (q, s1))"
    using control_turn_cases [OF assms] by blast
  from s1(2) have "(\<forall>i h. map_of (st_sessions s) i = Some h \<and> sh_target_id h \<noteq> identity \<longrightarrow> map_of (st_sessions s1) i = Some h) \<and>
      st_streams s1 = st_streams s \<and> st_challenges s1 = st_challenges s \<and> st_rows s1 = st_rows s"
    by (auto dest!: route_cases simp: update_conv')
  with s1(1) show ?thesis by (auto simp: unregister_client_stream_def is_current_stream_def drop_client_stream_def delete_conv')
qed

theorem clients_isolated_witness:
  "\<exists>r s'. control_turn demo_shells (register_client_stream demo_shell_state 3 1) (secs 10) 0 3 ''f2'' 0 ControlEnd 96 97 = (r, s') \<and>
     \<not> cr_open r \<and> map_of (st_streams s') 3 = Some 1"
proof -
  let ?s = "register_client_stream demo_shell_state 3 1"
  obtain r s' where c: "control_turn demo_shells ?s (secs 10) 0 3 ''f2'' 0 ControlEnd 96 97 = (r, s')"
    by fastforce
  have "map_of (st_streams ?s) 3 = Some 1"
    by (simp add: register_client_stream_def update_conv')
  with clients_isolated [OF c] have "map_of (st_streams s') 3 = Some 1" by simp
  moreover have "\<not> cr_open r" using c by (auto simp: control_turn_def Let_def)
  ultimately show ?thesis using c by blast
qed

text \<open>
  A client that connects again between the two halves of \<open>unregister_client_stream\<close> loses its new
  registration: the server takes it to be offline while its stream is open.
\<close>

lemma reconnect_race_loses_stream:
  assumes "is_current_stream s identity old"
  shows "\<not> client_online (drop_client_stream (register_client_stream s identity new) identity) identity"
  by (simp add: client_online_def drop_client_stream_def delete_conv')

section \<open>Housekeeping\<close>

text \<open>With a fresh identifier for its entry, an entry of the server itself is always written.\<close>

lemma server_audit_ok:
  assumes "audit_id \<notin> a_id ` set (db_audit (st_db s))"
  shows "\<exists>s'. audit E s audit_id now None l ac None oc m = (Inr (), s') \<and> st_rows s' = st_rows s \<and>
    a_id ` set (db_audit (st_db s')) = insert audit_id (a_id ` set (db_audit (st_db s)))"
  using assms by (simp add: audit_def append_audit_def insert_audit_def fk_identity_def Let_def)

lemma close_abandoned_closes:
  assumes "distinct (map snd ids)" and "snd ` set ids \<inter> a_id ` set (db_audit (st_db s)) = {}"
  shows "\<exists>s'. close_abandoned E now active ids s = (Inr (), s') \<and>
    (\<forall>r' \<in> set (st_rows s'). ss_ended_at r' = None \<longrightarrow> r' \<in> set (st_rows s) \<and>
       (ss_id r' \<in> fst ` set ids \<longrightarrow> ss_id r' \<in> set active)) \<and>
    (\<forall>r \<in> set (st_rows s). ss_ended_at r \<noteq> None \<longrightarrow> r \<in> set (st_rows s'))"
  using assms
proof (induction E now active ids s rule: close_abandoned.induct)
  case (2 E now active i audit_id rest s)
  show ?case
  proof (cases "i \<in> set active")
    case True
    then show ?thesis using "2.IH"(1) [OF True] "2.prems" by auto
  next
    case False
    let ?s = "s \<lparr> st_rows := update_where (\<lambda>r. ss_id r = i \<and> ss_ended_at r = None)
                  (\<lambda>r. r \<lparr> ss_ended_at := Some now, ss_outcome := Some ''abandoned'' \<rparr>) (st_rows s) \<rparr>"
    obtain s1 where a: "audit E ?s audit_id now None ''server'' ''shell.session.end'' None ''abandoned''
        (JObj [(''session_id'', au_uuid (sv_audit E) i)]) = (Inr (), s1)" "st_rows s1 = st_rows ?s"
        "a_id ` set (db_audit (st_db s1)) = insert audit_id (a_id ` set (db_audit (st_db s)))"
      using server_audit_ok [of audit_id ?s E now "''server''" "''shell.session.end''" "''abandoned''"
          "JObj [(''session_id'', au_uuid (sv_audit E) i)]"] "2.prems"(2) by auto
    have "distinct (map snd rest)" "snd ` set rest \<inter> a_id ` set (db_audit (st_db s1)) = {}"
      using "2.prems" a(3) by auto
    from "2.IH"(2) [OF False refl a(1) [symmetric] refl this]
    obtain s' where s': "close_abandoned E now active rest s1 = (Inr (), s')"
      "\<forall>r' \<in> set (st_rows s'). ss_ended_at r' = None \<longrightarrow> r' \<in> set (st_rows s1) \<and>
         (ss_id r' \<in> fst ` set rest \<longrightarrow> ss_id r' \<in> set active)"
      "\<forall>r \<in> set (st_rows s1). ss_ended_at r \<noteq> None \<longrightarrow> r \<in> set (st_rows s')" by blast
    have open1: "r' \<in> set (st_rows s) \<and> ss_id r' \<noteq> i" if "r' \<in> set (st_rows s1)" "ss_ended_at r' = None" for r'
      using that a(2) by (auto simp: set_update_where split: if_splits)
    have ended1: "r \<in> set (st_rows s1)" if "r \<in> set (st_rows s)" "ss_ended_at r \<noteq> None" for r
      using that a(2) by (auto simp: set_update_where image_iff)
    have "close_abandoned E now active ((i, audit_id) # rest) s = (Inr (), s')"
      using False a(1) s'(1) by (simp add: Let_def)
    moreover have "r' \<in> set (st_rows s) \<and> (ss_id r' \<in> fst ` set ((i, audit_id) # rest) \<longrightarrow> ss_id r' \<in> set active)"
      if "r' \<in> set (st_rows s')" "ss_ended_at r' = None" for r'
      using s'(2) open1 that by auto
    ultimately show ?thesis using s'(3) ended1 by blast
  qed
qed simp



end
