(* ===== verification/Shell_Handshake.thy ===== *)
theory Shell_Handshake
  imports Shell_Safety
begin

text \<open>
  The two ends of \<^verbatim>\<open>OpenShell\<close> put together: the Admin application
  (\<^verbatim>\<open>apps/admin/src-tauri/src/shell.rs\<close>, \<^verbatim>\<open>open_shell_inner\<close>) and the handler of the server
  (\<^verbatim>\<open>services.rs\<close>, \<^verbatim>\<open>open_shell\<close>). The call of a bidirectional stream returns to the caller when the
  handler has returned its response.
\<close>

section \<open>The two programs\<close>

datatype admin_point = AwaitResponse | SendOpen | Streaming | AdminFailed status

datatype server_point = AwaitFirst | Responded "status + unit"

record handshake =
  hs_admin :: admin_point
  hs_server :: server_point
  hs_request :: "admin_shell_frame list"

definition handshake_start :: handshake where
  "handshake_start = \<lparr> hs_admin = AwaitResponse, hs_server = AwaitFirst, hs_request = [] \<rparr>"

text \<open>What the handler returns for a first message.\<close>

definition open_response :: "(first_message \<Rightarrow> (status + shell_opened) \<times> shell_state) \<Rightarrow> first_message \<Rightarrow> status + unit" where
  "open_response handler m = (case fst (handler m) of Inl e \<Rightarrow> Inl e | Inr _ \<Rightarrow> Inr ())"

inductive handshake_step ::
  "(first_message \<Rightarrow> (status + shell_opened) \<times> shell_state) \<Rightarrow> shell_open \<Rightarrow> handshake \<Rightarrow> unit \<Rightarrow> handshake \<Rightarrow> bool"
  for handler op where
  first: "hs_server x = AwaitFirst \<Longrightarrow> hs_request x = frame # rest \<Longrightarrow>
    handshake_step handler op x () (x \<lparr> hs_server := Responded (open_response handler (First frame)), hs_request := rest \<rparr>)"
| no_first: "hs_server x = AwaitFirst \<Longrightarrow> m \<in> {FirstTimeout, FirstUndecodable, FirstEnd} \<Longrightarrow> hs_request x = [] \<Longrightarrow>
    handshake_step handler op x () (x \<lparr> hs_server := Responded (open_response handler m) \<rparr>)"
| accepted: "hs_admin x = AwaitResponse \<Longrightarrow> hs_server x = Responded (Inr u) \<Longrightarrow>
    handshake_step handler op x () (x \<lparr> hs_admin := SendOpen \<rparr>)"
| refused: "hs_admin x = AwaitResponse \<Longrightarrow> hs_server x = Responded (Inl e) \<Longrightarrow>
    handshake_step handler op x () (x \<lparr> hs_admin := AdminFailed e \<rparr>)"
| send: "hs_admin x = SendOpen \<Longrightarrow>
    handshake_step handler op x () (x \<lparr> hs_admin := Streaming, hs_request := hs_request x @ [Some (Some (OpenFrame op))] \<rparr>)"

section \<open>They wait for each other\<close>

definition waiting :: "handshake \<Rightarrow> bool" where
  "waiting x \<longleftrightarrow> hs_request x = [] \<and>
     (hs_admin x = AwaitResponse \<and> (\<forall>u. hs_server x \<noteq> Responded (Inr u)) \<or>
      (\<exists>e. hs_admin x = AdminFailed e \<and> hs_server x = Responded (Inl e)))"

lemma open_shell_needs_first:
  "first_open m = Inl e \<Longrightarrow> \<exists>e'. fst (open_shell E enabled alive s now clock leaf m i a g) = Inl e'"
  by (auto simp: open_shell_def split: sum.splits)

interpretation handshakes: guarded_system
  "handshake_step (\<lambda>m. open_shell E enabled alive s now clock leaf m i a g) op" waiting
  for E enabled alive s now clock leaf i a g op
proof
  fix x l x'
  assume w: "waiting x"
    and st: "handshake_step (\<lambda>m. open_shell E enabled alive s now clock leaf m i a g) op x l x'"
  show "waiting x'" using st w
  proof cases
    case (no_first m)
    have "\<exists>e. first_open m = Inl e" using no_first by (auto simp: first_open_def)
    then obtain e where "fst (open_shell E enabled alive s now clock leaf m i a g) = Inl e"
      using open_shell_needs_first by blast
    with no_first w show ?thesis by (auto simp: waiting_def open_response_def)
  qed (auto simp: waiting_def)
qed

text \<open>
  C36. The Admin application cannot open a shell: it sends its open frame only after the server has
  answered the call, and the server answers only after it has received the open frame. In every run
  of the two, whatever the state of the server, the open frame is never sent, no session opens, and
  the call can end only with an error.
\<close>

theorem admin_shell_never_opens:
  assumes "steps (handshake_step (\<lambda>m. open_shell E enabled alive s now clock leaf m i a g) op) handshake_start ls x"
  shows "hs_admin x \<notin> {SendOpen, Streaming} \<and> hs_request x = [] \<and> (\<forall>u. hs_server x \<noteq> Responded (Inr u))"
proof -
  have "waiting handshake_start" by (simp add: waiting_def handshake_start_def)
  with handshakes.inv_steps [OF assms] show ?thesis by (auto simp: waiting_def)
qed

theorem admin_shell_never_opens_witness:
  "\<exists>x. steps (handshake_step (\<lambda>m. open_shell demo_shells True (\<lambda>_. True) demo_shell_state (secs 10) 0 (Some ''f1'') m 6 90 91)
      demo_open) handshake_start [(), ()] x \<and>
     hs_admin x = AdminFailed (DeadlineExceeded, ''shell open was not received in time'') \<and> hs_request x = []"
proof -
  let ?h = "\<lambda>m. open_shell demo_shells True (\<lambda>_. True) demo_shell_state (secs 10) 0 (Some ''f1'') m 6 90 91"
  let ?e = "(DeadlineExceeded, ''shell open was not received in time'') :: status"
  have "authenticate (st_db demo_shell_state) (secs 10) (Some ''f1'') RoleAdmin = Inr 1"
    by (simp add: authenticate_def peer_certificate_fingerprint_def find_certificate_def find_identity_def
        demo_shell_state_def demo_rows certificate_live_def identity_live_def secs_def nanos_per_second_def)
  then have r: "open_response ?h FirstTimeout = Inl ?e" by (simp add: open_response_def open_shell_def first_open_def)
  have "handshake_step ?h demo_open handshake_start () (handshake_start \<lparr> hs_server := Responded (Inl ?e) \<rparr>)"
    using handshake_step.no_first [of handshake_start FirstTimeout ?h demo_open] by (simp add: r handshake_start_def)
  moreover have "handshake_step ?h demo_open (handshake_start \<lparr> hs_server := Responded (Inl ?e) \<rparr>) ()
      (handshake_start \<lparr> hs_server := Responded (Inl ?e), hs_admin := AdminFailed ?e \<rparr>)"
    using handshake_step.refused [of "handshake_start \<lparr> hs_server := Responded (Inl ?e) \<rparr>" ?e ?h demo_open]
    by (simp add: handshake_start_def)
  ultimately have run: "steps (handshake_step ?h demo_open) handshake_start [(), ()]
      (handshake_start \<lparr> hs_server := Responded (Inl ?e), hs_admin := AdminFailed ?e \<rparr>)"
    by (blast intro: steps.intros)
  from admin_shell_never_opens [OF run] run show ?thesis by (auto simp: handshake_start_def)
qed

end
