(* ===== verification/Broker_Session.thy ===== *)
theory Broker_Session
  imports Wire_Frames Identities
begin

text \<open>
  Terminal sessions of the broker: \<^verbatim>\<open>centrald-client/src/broker_session.rs\<close> with \<^verbatim>\<open>ptys.rs\<close> and
  \<^verbatim>\<open>auth.rs\<close>. \<^verbatim>\<open>serve_session\<close> is split where it takes and releases what the connections share:
  \<open>session_admit\<close> up to the reservation of a slot, \<open>session_prepare\<close>, which touches no shared state,
  and the release. The running session is three threads on shared counters; each thread is a function
  from the shared state to the shared state that runs one iteration, and an event says which of them
  runs and what its read returned. PAM or \<^verbatim>\<open>LogonUserW\<close>, the pseudo terminal and JSON are parameters.
  The crate constant \<^verbatim>\<open>TERMINAL_SESSIONS_ENABLED\<close>, false in this release, is the argument \<open>enabled\<close>.
\<close>

section \<open>Data\<close>

definition MAX_SESSION_WIRE_FRAME_BYTES :: nat where "MAX_SESSION_WIRE_FRAME_BYTES = 1500000"
definition MAX_CONCURRENT_SESSIONS :: nat where "MAX_CONCURRENT_SESSIONS = 8"
definition MAX_SESSION_INPUT_BYTES :: "64 word" where "MAX_SESSION_INPUT_BYTES = 256 * 1024 * 1024"
definition MAX_SESSION_OUTPUT_BYTES :: "64 word" where "MAX_SESSION_OUTPUT_BYTES = 1024 * 1024 * 1024"

record session_open =
  xo_grant :: signed_grant
  xo_parameters_base64 :: string
  xo_columns :: "32 word"
  xo_rows :: "32 word"
  xo_account_user :: string
  xo_account_password_base64 :: string
  xo_save_credentials :: bool

datatype session_wire_frame = SessionOpen session_open | SessionOpened uuid string
  | SessionError string | SessionData string | SessionResize "32 word" "32 word"
  | SessionClose string "32 word"

record session_params =
  pa_privilege :: string
  pa_user :: string
  pa_shell :: string
  pa_max_frame_bytes :: "32 word"
  pa_idle_timeout_seconds :: "32 word"
  pa_absolute_timeout_seconds :: "32 word"
  pa_credentials_sha256 :: string

datatype session_privilege = Low | Elevated

record pty_session_spec =
  ps_privilege :: session_privilege
  ps_user :: string
  ps_shell :: string
  ps_columns :: "32 word"
  ps_rows :: "32 word"

datatype platform = Linux | Windows | OtherUnix

text \<open>
  What the operating system and the crates provide: the frames and parameters of \<^verbatim>\<open>serde_json\<close>, the
  account check (\<^verbatim>\<open>linux_pam_validate\<close>, \<^verbatim>\<open>LogonUserW\<close>), the path of a Windows shell, and opening a
  pseudo terminal with a program in it.
\<close>

record session_host =
  ho_platform :: platform
  ho_frame_of :: "bytes \<Rightarrow> session_wire_frame option"
  ho_frame_to :: "session_wire_frame \<Rightarrow> bytes option"
  ho_params_of :: "bytes \<Rightarrow> session_params option"
  ho_authenticate :: "string \<Rightarrow> string \<Rightarrow> string + unit"
  ho_windows_shell :: "string \<Rightarrow> string option"
  ho_spawn :: "string \<Rightarrow> string list \<Rightarrow> 16 word \<Rightarrow> 16 word \<Rightarrow> string + unit"

text \<open>The broker as its connections share it: executor and the ids of the session registry.\<close>

record ('vk, 'w) broker =
  bk_executor :: "('vk, 'w) executor"
  bk_sessions :: "uuid list"

datatype session_error = TerminalUnavailable | MalformedFrame | NotAnOpenFrame | MalformedParameters
  | InvalidParameters string | ParametersNotSigned | SessionLedger ledger_error | GrantAlreadyConsumed
  | SessionGrant broker_error | SessionLimit | SessionIo string

section \<open>Parameters\<close>

definition is_sha256_hex :: "string \<Rightarrow> bool" where
  "is_sha256_hex value \<longleftrightarrow> length value = 64 \<and> list_all is_hexdigit value"

definition params_validate :: "session_params \<Rightarrow> string + unit" where
  "params_validate p =
     (if \<not> (pa_privilege p = ''low'' \<or> pa_privilege p = ''elevated'') then
        Inl (''session privilege must be '' @ [CHR 0x27] @ ''low'' @ [CHR 0x27] @ '' or '' @ [CHR 0x27] @
          ''elevated'' @ [CHR 0x27])
      else if \<not> (1024 \<le> pa_max_frame_bytes p \<and> pa_max_frame_bytes p \<le> 1024 * 1024) then
        Inl ''session max_frame_bytes must be between 1024 and 1048576''
      else if \<not> (30 \<le> pa_idle_timeout_seconds p \<and> pa_idle_timeout_seconds p \<le> 86400) then
        Inl ''session idle timeout must be between 30 and 86400 seconds''
      else if \<not> (300 \<le> pa_absolute_timeout_seconds p \<and> pa_absolute_timeout_seconds p \<le> 86400) then
        Inl ''session absolute timeout must be between 300 and 86400 seconds''
      else if pa_credentials_sha256 p \<noteq> [] \<and> \<not> is_sha256_hex (pa_credentials_sha256 p) then
        Inl ''session credentials_sha256 must be a SHA-256 hex digest or empty''
      else if length (pa_user p) > 128 then Inl ''session user must be at most 128 characters''
      else if length (pa_shell p) > 256 then Inl ''session shell must be at most 256 characters''
      else Inr ())"

section \<open>The session registry\<close>

definition reserve :: "uuid list \<Rightarrow> uuid \<Rightarrow> session_error + uuid list" where
  "reserve sessions session_id =
     (if length sessions \<ge> MAX_CONCURRENT_SESSIONS then Inl SessionLimit
      else Inr (sessions @ [session_id]))"

definition release :: "uuid list \<Rightarrow> uuid \<Rightarrow> uuid list" where
  "release sessions session_id = filter (\<lambda>existing. existing \<noteq> session_id) sessions"

section \<open>Accounts\<close>

definition validate_account_credentials :: "session_host \<Rightarrow> string \<Rightarrow> string \<Rightarrow> string + unit" where
  "validate_account_credentials H user password =
     (if trim user = [] then Inl ''an OS account is required''
      else if password = [] then Inl ''a password is required for this account''
      else if ho_platform H = OtherUnix then
        Inl ''OS-account authentication is unsupported on this platform''
      else ho_authenticate H user password)"

definition decode_password :: "('sk, 'vk, 'sig) grant_crypto \<Rightarrow> string \<Rightarrow> string + string option" where
  "decode_password c account_password_base64 =
     (if account_password_base64 = [] then Inr None
      else (case b64_decode c account_password_base64 of
          None \<Rightarrow> Inl ''decode account password''
        | Some decoded \<Rightarrow>
            if \<not> utf8_codes (map unat decoded) then Inl ''account password is not valid text''
            else Inr (Some (map (\<lambda>b. char_of (unat b)) decoded))))"

definition named_user :: "session_params \<Rightarrow> string \<Rightarrow> string" where
  "named_user p account_user = (if account_user = [] then pa_user p else account_user)"

definition resolve_credentials ::
  "('sk, 'vk, 'sig, 'w) exec_env \<Rightarrow> session_host \<Rightarrow> session_params \<Rightarrow> string \<Rightarrow> string \<Rightarrow> bool \<Rightarrow>
   string + string option" where
  "resolve_credentials X H p account_user account_password_base64 save_credentials =
     (if save_credentials then Inl ''saved terminal credentials are unavailable in this alpha release''
      else if named_user p account_user = [] then Inr None
      else (case decode_password (xe_crypto X) account_password_base64 of
          Inl e \<Rightarrow> Inl e
        | Inr None \<Rightarrow> Inr None
        | Inr (Some password) \<Rightarrow>
            if pa_credentials_sha256 p \<noteq> [] \<and> xe_sha X (str_bytes password) \<noteq> pa_credentials_sha256 p then
              Inl ''account password does not match the signed session parameters''
            else (case validate_account_credentials H (named_user p account_user) password of
                Inl e \<Rightarrow> Inl e
              | Inr _ \<Rightarrow> Inr (Some password))))"

section \<open>The pseudo terminal\<close>

definition LINUX_ALLOWED_SHELLS :: "string list" where
  "LINUX_ALLOWED_SHELLS = [''/bin/bash'', ''/bin/sh'']"

definition WINDOWS_ALLOWED_SHELLS :: "string list" where
  "WINDOWS_ALLOWED_SHELLS = [''cmd.exe'', ''powershell.exe'']"

definition resolve_shell_executable :: "session_host \<Rightarrow> string \<Rightarrow> string + string" where
  "resolve_shell_executable H name =
     (if ho_platform H = Windows then
        (case (if name = ''cmd.exe'' \<or> name = ''powershell.exe'' then ho_windows_shell H name else None) of
           None \<Rightarrow> Inl ''Windows did not return its trusted system directory''
         | Some path \<Rightarrow> Inr path)
      else Inr name)"

definition shell_command :: "session_host \<Rightarrow> pty_session_spec \<Rightarrow> string + string \<times> string list" where
  "shell_command H spec =
     (let allowed = (if ho_platform H = Windows then WINDOWS_ALLOWED_SHELLS else LINUX_ALLOWED_SHELLS) in
      if ps_shell spec \<noteq> [] \<and> ps_shell spec \<notin> set allowed then
        Inl ''requested shell is not in the broker allowlist''
      else (case resolve_shell_executable H (if ps_shell spec = [] then allowed ! 0 else ps_shell spec) of
          Inl e \<Rightarrow> Inl e
        | Inr shell \<Rightarrow> (case ps_privilege spec of
            Elevated \<Rightarrow> Inr (shell, [])
          | Low \<Rightarrow>
              if ho_platform H \<noteq> Linux then
                Inl ''low-privilege shells are not supported on this platform in this build; request an elevated shell instead''
              else
                let user = (if ps_user spec = [] then ''centrald'' else ps_user spec) in
                if user = ''root'' then
                  Inl ''a low shell must not run as root; request an elevated shell instead''
                else Inr (''/usr/bin/runuser'', [''-u'', user, ''--'', shell]))))"

text \<open>\<^verbatim>\<open>u16::try_from(n).unwrap_or(u16::MAX)\<close>, and the clamp of \<^verbatim>\<open>PtySession::open\<close>.\<close>

definition u16_saturating :: "32 word \<Rightarrow> 16 word" where
  "u16_saturating n = (if n \<le> 65535 then ucast n else 65535)"

definition pty_dimension :: "32 word \<Rightarrow> 16 word" where
  "pty_dimension n = max 2 (min 500 (u16_saturating n))"

definition pty_open :: "session_host \<Rightarrow> pty_session_spec \<Rightarrow> string + string \<times> string list" where
  "pty_open H spec =
     (case shell_command H spec of
        Inl e \<Rightarrow> Inl e
      | Inr (program, args) \<Rightarrow>
          (case ho_spawn H program args (pty_dimension (ps_rows spec)) (pty_dimension (ps_columns spec)) of
             Inl e \<Rightarrow> Inl e
           | Inr _ \<Rightarrow> Inr (program, args)))"

section \<open>Opening a session\<close>

definition session_decode ::
  "('sk, 'vk, 'sig, 'w) exec_env \<Rightarrow> session_host \<Rightarrow> bool \<Rightarrow> bytes \<Rightarrow>
   session_error + session_open \<times> session_params" where
  "session_decode X H enabled open_bytes =
     (if \<not> enabled then Inl TerminalUnavailable
      else (case ho_frame_of H open_bytes of
          None \<Rightarrow> Inl MalformedFrame
        | Some (SessionOpen op) \<Rightarrow> (case b64_decode (xe_crypto X) (xo_parameters_base64 op) of
            None \<Rightarrow> Inl MalformedParameters
          | Some parameters_json \<Rightarrow> (case ho_params_of H parameters_json of
              None \<Rightarrow> Inl MalformedParameters
            | Some p \<Rightarrow> (case params_validate p of
                Inl e \<Rightarrow> Inl (InvalidParameters e)
              | Inr _ \<Rightarrow>
                  if xe_sha X parameters_json \<noteq> g_parameters_sha256 (sg_grant (xo_grant op))
                  then Inl ParametersNotSigned else Inr (op, p))))
        | Some _ \<Rightarrow> Inl NotAnOpenFrame))"

definition session_admit ::
  "('sk, 'vk, 'sig, 'w) exec_env \<Rightarrow> session_host \<Rightarrow> bool \<Rightarrow> ('vk, 'w) broker \<Rightarrow> bytes \<Rightarrow> instant \<Rightarrow>
   (session_error + session_open \<times> session_params) \<times> ('vk, 'w) broker" where
  "session_admit X H enabled B open_bytes now =
     (case session_decode X H enabled open_bytes of
        Inl e \<Rightarrow> (Inl e, B)
      | Inr (op, p) \<Rightarrow>
          let g = sg_grant (xo_grant op); ex = bk_executor B in
          (case grant_was_consumed (xe_codec X) (ex_ledger ex) (g_id g) now of
             Inl e \<Rightarrow> (Inl (SessionLedger e), B)
           | Inr True \<Rightarrow> (Inl GrantAlreadyConsumed, B)
           | Inr False \<Rightarrow> (case verify_and_consume (xe_crypto X) (ex_verifier ex) (xo_grant op) now of
               (Inl e, v) \<Rightarrow> (Inl (SessionGrant e), B \<lparr> bk_executor := ex \<lparr> ex_verifier := v \<rparr> \<rparr>)
             | (Inr _, v) \<Rightarrow>
                 let ex = ex \<lparr> ex_verifier := v \<rparr> in
                 (case record_consumed_grant (xe_codec X) (ex_ledger ex) (g_id g) (g_expires_at g) of
                    (Inl e, L) \<Rightarrow> (Inl (SessionLedger e), B \<lparr> bk_executor := ex \<lparr> ex_ledger := L \<rparr> \<rparr>)
                  | (Inr _, L) \<Rightarrow>
                      let B = B \<lparr> bk_executor := ex \<lparr> ex_ledger := L \<rparr> \<rparr> in
                      (case reserve (bk_sessions B) (g_job_or_session_id g) of
                         Inl e \<Rightarrow> (Inl e, B)
                       | Inr sessions \<Rightarrow> (Inr (op, p), B \<lparr> bk_sessions := sessions \<rparr>))))))"

text \<open>\<open>Inl\<close> is the message of the error frame; otherwise the program that now runs in the terminal.\<close>

definition session_prepare ::
  "('sk, 'vk, 'sig, 'w) exec_env \<Rightarrow> session_host \<Rightarrow> session_open \<Rightarrow> session_params \<Rightarrow>
   string + string \<times> string list" where
  "session_prepare X H op p =
     (case resolve_credentials X H p (xo_account_user op) (xo_account_password_base64 op)
             (xo_save_credentials op) of
        Inl e \<Rightarrow> Inl e
      | Inr credentials \<Rightarrow>
          let named = named_user p (xo_account_user op) in
          if pa_privilege p = ''elevated'' \<and> credentials = None then
            Inl ''elevated shells require OS account credentials''
          else if pa_privilege p = ''low'' \<and> named \<noteq> [] \<and> named \<noteq> ''centrald'' \<and> credentials = None then
            Inl ''low shells for a named OS account require a password''
          else if pa_privilege p = ''elevated'' \<and> named \<noteq> ''root'' \<and> ho_platform H \<noteq> Windows then
            Inl ''elevated Linux shells require the root OS account''
          else
            pty_open H \<lparr> ps_privilege = (if pa_privilege p = ''low'' then Low else Elevated),
              ps_user = pa_user p, ps_shell = pa_shell p, ps_columns = xo_columns op, ps_rows = xo_rows op \<rparr>)"

definition session_release :: "('vk, 'w) broker \<Rightarrow> uuid \<Rightarrow> ('vk, 'w) broker" where
  "session_release B session_id = B \<lparr> bk_sessions := release (bk_sessions B) session_id \<rparr>"

text \<open>
  \<^verbatim>\<open>serve_session\<close> until the session runs or is refused: the frame written back, and the running program
  if there is one. \<open>alive\<close> says whether the peer still reads.
\<close>

definition serve_open ::
  "('sk, 'vk, 'sig, 'w) exec_env \<Rightarrow> session_host \<Rightarrow> bool \<Rightarrow> ('vk, 'w) broker \<Rightarrow> bytes \<Rightarrow> instant \<Rightarrow> bool \<Rightarrow>
   (session_error + session_wire_frame \<times> (session_params \<times> string \<times> string list) option) \<times> ('vk, 'w) broker" where
  "serve_open X H enabled B open_bytes now alive =
     (case session_admit X H enabled B open_bytes now of
        (Inl e, B) \<Rightarrow> (Inl e, B)
      | (Inr (op, p), B) \<Rightarrow>
          let session_id = g_job_or_session_id (sg_grant (xo_grant op)) in
          (case session_prepare X H op p of
             Inl message \<Rightarrow>
               (if alive then Inr (SessionError message, None) else Inl (SessionIo ''write''),
                session_release B session_id)
           | Inr (program, args) \<Rightarrow>
               if alive then (Inr (SessionOpened session_id [], Some (p, program, args)), B)
               else (Inl (SessionIo ''write''), session_release B session_id)))"

section \<open>A running session\<close>

text \<open>
  The shared state of the threads. \<open>rn_controller\<close> says whether the PTY controller is still there;
  \<open>rn_to_pty\<close>, \<open>rn_sizes\<close> and \<open>rn_sent\<close> are what was written to the terminal, the sizes it was given and
  the frames written to the daemon. A thread is at the top of its loop, blocked in its read, or ended.
\<close>

datatype loop_state = AtTop | Blocked | Ended "session_error + unit"

record session_run =
  rn_stop :: bool
  rn_started :: instant
  rn_last_activity :: instant
  rn_input_bytes :: "64 word"
  rn_output_bytes :: "64 word"
  rn_controller :: bool
  rn_to_pty :: bytes
  rn_sizes :: "(16 word \<times> 16 word) list"
  rn_sent :: "session_wire_frame list"
  rn_input :: loop_state
  rn_output :: loop_state
  rn_reason :: "string option"

definition run_start :: "instant \<Rightarrow> session_run" where
  "run_start now = \<lparr> rn_stop = False, rn_started = now, rn_last_activity = now, rn_input_bytes = 0,
     rn_output_bytes = 0, rn_controller = True, rn_to_pty = [], rn_sizes = [], rn_sent = [],
     rn_input = AtTop, rn_output = AtTop, rn_reason = None \<rparr>"

text \<open>The end of the input thread sets the stop flag, whatever its outcome.\<close>

definition input_ends :: "session_run \<Rightarrow> session_error + unit \<Rightarrow> session_run" where
  "input_ends s outcome = s \<lparr> rn_stop := True, rn_input := Ended outcome \<rparr>"

definition max_frame :: "session_params \<Rightarrow> nat" where
  "max_frame p = unat (pa_max_frame_bytes p)"

text \<open>\<open>ok\<close> says whether the write to the terminal, or its resize, succeeds.\<close>

definition input_frame ::
  "('sk, 'vk, 'sig, 'w) exec_env \<Rightarrow> session_params \<Rightarrow> session_run \<Rightarrow> session_wire_frame \<Rightarrow> instant \<Rightarrow> bool \<Rightarrow>
   session_run" where
  "input_frame X p s frame now ok =
     (case frame of
        SessionData data_base64 \<Rightarrow> (case b64_decode (xe_crypto X) data_base64 of
          None \<Rightarrow> input_ends s (Inl (SessionIo ''decode session data frame''))
        | Some data \<Rightarrow>
            if length data > max_frame p then
              input_ends s (Inl (SessionIo ''session data frame exceeds the configured limit''))
            else
              let total = rn_input_bytes s + of_nat (length data); s = s \<lparr> rn_input_bytes := total \<rparr> in
              if total > MAX_SESSION_INPUT_BYTES then
                input_ends s (Inl (SessionIo ''session input bound reached''))
              else if \<not> ok then input_ends s (Inl (SessionIo ''write terminal input''))
              else s \<lparr> rn_to_pty := rn_to_pty s @ data, rn_last_activity := now, rn_input := AtTop \<rparr>)
      | SessionResize columns rows \<Rightarrow>
          if \<not> rn_controller s then input_ends s (Inl (SessionIo ''session is closed''))
          else if \<not> ok then input_ends s (Inl (SessionIo ''resize the PTY/ConPTY''))
          else s \<lparr> rn_sizes := rn_sizes s @ [(u16_saturating columns, u16_saturating rows)],
                   rn_last_activity := now, rn_input := AtTop \<rparr>
      | SessionClose _ _ \<Rightarrow> input_ends s (Inr ())
      | SessionError _ \<Rightarrow> input_ends s (Inr ())
      | _ \<Rightarrow> input_ends s (Inl (SessionIo ''unexpected session frame kind'')))"

definition input_read ::
  "('sk, 'vk, 'sig, 'w) exec_env \<Rightarrow> session_host \<Rightarrow> session_params \<Rightarrow> session_run \<Rightarrow> frame_error + bytes \<Rightarrow>
   instant \<Rightarrow> bool \<Rightarrow> session_run" where
  "input_read X H p s incoming now ok =
     (case incoming of
        Inl e \<Rightarrow> input_ends s (Inl (SessionIo ''read frame''))
      | Inr body \<Rightarrow> (case ho_frame_of H body of
          None \<Rightarrow> input_ends s (Inl (SessionIo ''decode session frame''))
        | Some frame \<Rightarrow> input_frame X p s frame now ok))"

datatype pty_read = PtyBytes bytes | PtyAgain | PtyFailed

definition session_send :: "session_run \<Rightarrow> bool \<Rightarrow> session_wire_frame \<Rightarrow> loop_state \<Rightarrow> session_run" where
  "session_send s alive frame continue =
     (if alive then s \<lparr> rn_sent := rn_sent s @ [frame], rn_output := continue \<rparr>
      else s \<lparr> rn_output := Ended (Inl (SessionIo ''write'')) \<rparr>)"

text \<open>The kernel fills at most the buffer of \<open>max_frame\<close> bytes; a read of no bytes is the end of the terminal.\<close>

definition output_read ::
  "('sk, 'vk, 'sig, 'w) exec_env \<Rightarrow> session_params \<Rightarrow> session_run \<Rightarrow> pty_read \<Rightarrow> instant \<Rightarrow> bool \<Rightarrow> session_run" where
  "output_read X p s from_pty now alive =
     (case from_pty of
        PtyAgain \<Rightarrow> s \<lparr> rn_output := AtTop \<rparr>
      | PtyFailed \<Rightarrow> s \<lparr> rn_stop := True, rn_output := Ended (Inl (SessionIo ''read terminal output'')) \<rparr>
      | PtyBytes available \<Rightarrow>
          let data = take (max_frame p) available in
          if data = [] then
            session_send (s \<lparr> rn_stop := True \<rparr>) alive (SessionClose ''shell exited'' 0) (Ended (Inr ()))
          else
            let total = rn_output_bytes s + of_nat (length data); s = s \<lparr> rn_output_bytes := total \<rparr> in
            if total > MAX_SESSION_OUTPUT_BYTES then
              session_send (s \<lparr> rn_stop := True \<rparr>) alive (SessionClose ''session output bound reached'' 1)
                (Ended (Inr ()))
            else if \<not> alive then s \<lparr> rn_output := Ended (Inl (SessionIo ''write'')) \<rparr>
            else session_send s alive (SessionData (b64_encode (xe_crypto X) data)) AtTop
                   \<lparr> rn_last_activity := now \<rparr>)"

definition watch_ends :: "session_run \<Rightarrow> string \<Rightarrow> session_run" where
  "watch_ends s reason = s \<lparr> rn_stop := True, rn_controller := False, rn_reason := Some reason \<rparr>"

definition watch_tick :: "session_params \<Rightarrow> session_run \<Rightarrow> instant \<Rightarrow> session_run" where
  "watch_tick p s now =
     (if rn_stop s then watch_ends s ''session ended''
      else if now - rn_started s > secs (uint (pa_absolute_timeout_seconds p)) then
        watch_ends s ''session absolute timeout reached''
      else if now - rn_last_activity s > secs (uint (pa_idle_timeout_seconds p)) then
        watch_ends s ''session idle timeout reached''
      else s)"

text \<open>What \<^verbatim>\<open>run_session\<close> returns once the watch has ended and both threads are joined.\<close>

definition run_result :: "session_run \<Rightarrow> (session_error + unit) option" where
  "run_result s =
     (case (rn_reason s, rn_output s, rn_input s) of
        (Some _, Ended (Inl e), Ended _) \<Rightarrow> Some (Inl e)
      | (Some _, Ended (Inr _), Ended r) \<Rightarrow> Some r
      | _ \<Rightarrow> None)"

datatype run_event = InputTop | InputRead "frame_error + bytes" instant bool
  | OutputTop | OutputRead pty_read instant bool | WatchTick instant

text \<open>One step of one thread; \<open>None\<close> when the thread is not at that point of its loop.\<close>

fun run_step ::
  "('sk, 'vk, 'sig, 'w) exec_env \<Rightarrow> session_host \<Rightarrow> session_params \<Rightarrow> session_run \<Rightarrow> run_event \<Rightarrow>
   session_run option" where
  "run_step X H p s InputTop =
     (if rn_input s = AtTop then
        Some (if rn_stop s then input_ends s (Inr ()) else s \<lparr> rn_input := Blocked \<rparr>) else None)"
| "run_step X H p s (InputRead incoming now ok) =
     (if rn_input s = Blocked then Some (input_read X H p s incoming now ok) else None)"
| "run_step X H p s OutputTop =
     (if rn_output s = AtTop then 
        Some (s \<lparr> rn_output := (if rn_stop s then Ended (Inr ()) else Blocked) \<rparr>) else None)"
| "run_step X H p s (OutputRead from_pty now alive) =
     (if rn_output s = Blocked then Some (output_read X p s from_pty now alive) else None)"
| "run_step X H p s (WatchTick now) =
     (if rn_reason s = None then Some (watch_tick p s now) else None)"

fun run_session ::
  "('sk, 'vk, 'sig, 'w) exec_env \<Rightarrow> session_host \<Rightarrow> session_params \<Rightarrow> session_run \<Rightarrow> run_event list \<Rightarrow>
   session_run option" where
  "run_session X H p s [] = Some s"
| "run_session X H p s (e # es) =
     (case run_step X H p s e of None \<Rightarrow> None | Some s \<Rightarrow> run_session X H p s es)"

section \<open>What the threads relay\<close>

text \<open>The data frames that the input thread reads, and the chunks that the output thread reads.\<close>

fun offered_input ::
  "('sk, 'vk, 'sig, 'w) exec_env \<Rightarrow> session_host \<Rightarrow> run_event list \<Rightarrow> bytes list" where
  "offered_input X H [] = []"
| "offered_input X H (InputRead (Inr body) now ok # es) =
     (case ho_frame_of H body of
        Some (SessionData b) \<Rightarrow> (case b64_decode (xe_crypto X) b of
          Some data \<Rightarrow> data # offered_input X H es | None \<Rightarrow> offered_input X H es)
      | _ \<Rightarrow> offered_input X H es)"
| "offered_input X H (_ # es) = offered_input X H es"

fun offered_output :: "session_params \<Rightarrow> run_event list \<Rightarrow> bytes list" where
  "offered_output p [] = []"
| "offered_output p (OutputRead (PtyBytes available) now alive # es) =
     take (max_frame p) available # offered_output p es"
| "offered_output p (_ # es) = offered_output p es"

fun is_close :: "session_wire_frame \<Rightarrow> bool" where
  "is_close (SessionClose _ _) = True"
| "is_close _ = False"

fun running :: "loop_state \<Rightarrow> bool" where
  "running (Ended _) = False"
| "running _ = True"

lemma input_ends_simps [simp]:
  "rn_stop (input_ends s r)" "rn_started (input_ends s r) = rn_started s"
  "rn_to_pty (input_ends s r) = rn_to_pty s" "rn_sent (input_ends s r) = rn_sent s"
  "rn_input (input_ends s r) = Ended r" "rn_output (input_ends s r) = rn_output s"
  "rn_output_bytes (input_ends s r) = rn_output_bytes s" "rn_reason (input_ends s r) = rn_reason s"
  "rn_input_bytes (input_ends s r) = rn_input_bytes s"
  by (simp_all add: input_ends_def)

lemma watch_tick_simps [simp]:
  "rn_started (watch_tick p s now) = rn_started s" "rn_to_pty (watch_tick p s now) = rn_to_pty s"
  "rn_sent (watch_tick p s now) = rn_sent s" "rn_input (watch_tick p s now) = rn_input s"
  "rn_output (watch_tick p s now) = rn_output s" "rn_input_bytes (watch_tick p s now) = rn_input_bytes s"
  "rn_output_bytes (watch_tick p s now) = rn_output_bytes s"
  by (simp_all add: watch_tick_def watch_ends_def)

lemma input_read_output [simp]:
  "rn_sent (input_read X H p s i now ok) = rn_sent s"
  "rn_output (input_read X H p s i now ok) = rn_output s"
  "rn_output_bytes (input_read X H p s i now ok) = rn_output_bytes s"
  "rn_started (input_read X H p s i now ok) = rn_started s"
  "rn_reason (input_read X H p s i now ok) = rn_reason s"
  by (simp_all add: input_read_def input_frame_def Let_def split: sum.split option.split session_wire_frame.split)

lemma output_read_input [simp]:
  "rn_to_pty (output_read X p s i now alive) = rn_to_pty s"
  "rn_input (output_read X p s i now alive) = rn_input s"
  "rn_input_bytes (output_read X p s i now alive) = rn_input_bytes s"
  "rn_started (output_read X p s i now alive) = rn_started s"
  "rn_reason (output_read X p s i now alive) = rn_reason s"
  by (simp_all add: output_read_def session_send_def Let_def split: pty_read.split)

text \<open>A thread that has ended stays so and relays nothing more.\<close>

lemma ended_input_silent:
  assumes "run_session X H p s es = Some s'" and "\<not> running (rn_input s)"
  shows "rn_to_pty s' = rn_to_pty s"
  using assms
proof (induction X H p s es rule: run_session.induct)
  case (2 X H p s e es)
  then obtain s1 where s1: "run_step X H p s e = Some s1" "run_session X H p s1 es = Some s'"
    by (auto split: option.splits)
  then have "rn_to_pty s1 = rn_to_pty s \<and> \<not> running (rn_input s1)"
    using 2(3) by (cases e; cases "rn_input s") (auto split: if_splits)
  with 2(1) [OF s1] show ?case by simp
qed simp

lemma ended_output_silent:
  assumes "run_session X H p s es = Some s'" and "\<not> running (rn_output s)"
  shows "rn_sent s' = rn_sent s"
  using assms
proof (induction X H p s es rule: run_session.induct)
  case (2 X H p s e es)
  then obtain s1 where s1: "run_step X H p s e = Some s1" "run_session X H p s1 es = Some s'"
    by (auto split: option.splits)
  then have "rn_sent s1 = rn_sent s \<and> \<not> running (rn_output s1)"
    using 2(3) by (cases e; cases "rn_output s") (auto split: if_splits)
  with 2(1) [OF s1] show ?case by simp
qed simp

lemma unat_add_len:
  fixes w :: "64 word"
  assumes "unat w + n < 2 ^ 64"
  shows "unat (w + of_nat n) = unat w + n"
  using assms by (simp add: unat_word_ariths unat_of_nat take_bit_nat_eq_self)

text \<open>One data frame at the input thread: written whole and counted, or the thread ends.\<close>

lemma input_frame_cases:
  assumes "rn_input s = Blocked" and "unat (rn_input_bytes s) \<le> unat MAX_SESSION_INPUT_BYTES"
  shows "(\<exists>b data. frame = SessionData b \<and> b64_decode (xe_crypto X) b = Some data \<and>
      length data \<le> max_frame p \<and>
      unat (rn_input_bytes s) + length data \<le> unat MAX_SESSION_INPUT_BYTES \<and>
      unat (rn_input_bytes (input_frame X p s frame now ok)) = unat (rn_input_bytes s) + length data \<and>
      rn_to_pty (input_frame X p s frame now ok) = rn_to_pty s @ data \<and>
      running (rn_input (input_frame X p s frame now ok))) \<or>
    (\<forall>b. frame \<noteq> SessionData b) \<and> rn_to_pty (input_frame X p s frame now ok) = rn_to_pty s \<and>
      rn_input_bytes (input_frame X p s frame now ok) = rn_input_bytes s \<or>
    rn_to_pty (input_frame X p s frame now ok) = rn_to_pty s \<and>
      \<not> running (rn_input (input_frame X p s frame now ok))"
proof (cases frame)
  case (SessionData b)
  show ?thesis
  proof (cases "b64_decode (xe_crypto X) b")
    case None
    with SessionData show ?thesis by (simp add: input_frame_def)
  next
    case (Some data)
    show ?thesis
    proof (cases "length data \<le> max_frame p")
      case True
      have "max_frame p < 2 ^ 32" using unsigned_less [of "pa_max_frame_bytes p"] by (simp add: max_frame_def)
      with True assms(2) have sum: "unat (rn_input_bytes s + of_nat (length data)) = unat (rn_input_bytes s) + length data"
        by (intro unat_add_len) (simp add: MAX_SESSION_INPUT_BYTES_def)
      with True SessionData Some show ?thesis
        by (auto simp: input_frame_def Let_def not_less word_le_nat_alt)
    next
      case False
      with SessionData Some show ?thesis by (simp add: input_frame_def)
    qed
  qed
qed (auto simp: input_frame_def)

lemma input_relay:
  assumes "run_session X H p s es = Some s'" and "running (rn_input s)"
    and "unat (rn_input_bytes s) \<le> unat MAX_SESSION_INPUT_BYTES"
  shows "\<exists>k. rn_to_pty s' = rn_to_pty s @ concat (take k (offered_input X H es)) \<and>
    unat (rn_input_bytes s) + length (concat (take k (offered_input X H es))) \<le> unat MAX_SESSION_INPUT_BYTES \<and>
    (\<forall>data \<in> set (take k (offered_input X H es)). length data \<le> max_frame p)"
  using assms
proof (induction X H p s es rule: run_session.induct)
  case (1 X H p s)
  then show ?case by (intro exI [of _ 0]) simp
next
  case (2 X H p s e es)
  let ?P = "\<lambda>s es k. rn_to_pty s' = rn_to_pty s @ concat (take k (offered_input X H es)) \<and>
    unat (rn_input_bytes s) + length (concat (take k (offered_input X H es))) \<le> unat MAX_SESSION_INPUT_BYTES \<and>
    (\<forall>data \<in> set (take k (offered_input X H es)). length data \<le> max_frame p)"
  from 2(2) obtain s1 where s1: "run_step X H p s e = Some s1" "run_session X H p s1 es = Some s'"
    by (auto split: option.splits)
  have ended: "\<exists>k. ?P s (e # es) k" if "rn_to_pty s1 = rn_to_pty s" "\<not> running (rn_input s1)"
    using ended_input_silent [OF s1(2) that(2)] that(1) 2(4) by (intro exI [of _ 0]) simp
  have quiet: "\<exists>k. ?P s (e # es) k" if "rn_to_pty s1 = rn_to_pty s" "rn_input_bytes s1 = rn_input_bytes s"
    "offered_input X H (e # es) = offered_input X H es"
  proof (cases "running (rn_input s1)")
    case True
    from 2(1) [OF s1 True] that 2(4) show ?thesis by simp
  next
    case False
    with ended that(1) show ?thesis by blast
  qed
  show ?case
  proof (cases "\<exists>body now ok. e = InputRead (Inr body) now ok \<and> ho_frame_of H body \<noteq> None")
    case True
    then obtain body now ok frame where e: "e = InputRead (Inr body) now ok" and f: "ho_frame_of H body = Some frame"
      by auto
    with s1(1) have blocked: "rn_input s = Blocked" and s1_eq: "s1 = input_frame X p s frame now ok"
      by (auto simp: input_read_def split: if_splits)
    from input_frame_cases [OF blocked 2(4), of frame X p now ok, folded s1_eq] consider
      (data) b data where "frame = SessionData b" "b64_decode (xe_crypto X) b = Some data"
        "length data \<le> max_frame p" "unat (rn_input_bytes s) + length data \<le> unat MAX_SESSION_INPUT_BYTES"
        "unat (rn_input_bytes s1) = unat (rn_input_bytes s) + length data" "rn_to_pty s1 = rn_to_pty s @ data"
        "running (rn_input s1)"
      | (other) "\<forall>b. frame \<noteq> SessionData b" "rn_to_pty s1 = rn_to_pty s" "rn_input_bytes s1 = rn_input_bytes s"
      | (ends) "rn_to_pty s1 = rn_to_pty s" "\<not> running (rn_input s1)" by metis
    then show ?thesis
    proof cases
      case data
      from 2(1) [OF s1 data(7)] data(4,5) obtain k where k: "?P s1 es k" by auto
      with data e f show ?thesis by (intro exI [of _ "Suc k"]) simp
    next
      case other
      then have "offered_input X H (e # es) = offered_input X H es"
        by (cases frame) (simp_all add: e f)
      with other quiet show ?thesis by blast
    next
      case ends
      with ended show ?thesis by blast
    qed
  next
    case False
    show ?thesis
    proof (cases e)
      case (InputRead incoming now ok)
      with False s1(1) have "rn_to_pty s1 = rn_to_pty s" "\<not> running (rn_input s1)"
        by (auto simp: input_read_def split: if_splits sum.splits)
      with ended show ?thesis by blast
    qed (use s1(1) quiet in \<open>auto split: if_splits\<close>)
  qed
qed

text \<open>One read of the terminal: relayed whole and counted, or the thread ends or reads again.\<close>

lemma output_read_cases:
  assumes "rn_output s = Blocked" and "unat (rn_output_bytes s) \<le> unat MAX_SESSION_OUTPUT_BYTES"
  shows "(\<exists>available. r = PtyBytes available \<and>
      unat (rn_output_bytes s) + length (take (max_frame p) available) \<le> unat MAX_SESSION_OUTPUT_BYTES \<and>
      unat (rn_output_bytes (output_read X p s r now alive)) =
        unat (rn_output_bytes s) + length (take (max_frame p) available) \<and>
      rn_sent (output_read X p s r now alive) =
        rn_sent s @ [SessionData (b64_encode (xe_crypto X) (take (max_frame p) available))] \<and>
      running (rn_output (output_read X p s r now alive))) \<or>
    r = PtyAgain \<and> rn_sent (output_read X p s r now alive) = rn_sent s \<and>
      rn_output_bytes (output_read X p s r now alive) = rn_output_bytes s \<and>
      running (rn_output (output_read X p s r now alive)) \<or>
    (\<exists>cl. rn_sent (output_read X p s r now alive) = rn_sent s @ cl \<and> length cl \<le> 1 \<and> list_all is_close cl) \<and>
      \<not> running (rn_output (output_read X p s r now alive))"
proof (cases r)
  case (PtyBytes available)
  let ?d = "take (max_frame p) available"
  have "max_frame p < 2 ^ 32" using unsigned_less [of "pa_max_frame_bytes p"] by (simp add: max_frame_def)
  then have "length ?d < 2 ^ 32" by simp
  with assms(2) have sum: "unat (rn_output_bytes s + of_nat (length ?d)) = unat (rn_output_bytes s) + length ?d"
    by (intro unat_add_len) (simp add: MAX_SESSION_OUTPUT_BYTES_def)
  consider (eof) "?d = []" | (bound) "?d \<noteq> []" "rn_output_bytes s + of_nat (length ?d) > MAX_SESSION_OUTPUT_BYTES"
    | (data) "?d \<noteq> []" "rn_output_bytes s + of_nat (length ?d) \<le> MAX_SESSION_OUTPUT_BYTES" by fastforce
  then show ?thesis
  proof cases
    case data
    with sum PtyBytes show ?thesis
      by (cases alive) (simp_all add: output_read_def session_send_def Let_def word_le_nat_alt)
  qed (cases alive; simp add: PtyBytes output_read_def session_send_def Let_def)+
qed (simp_all add: output_read_def)

lemma output_relay:
  assumes "run_session X H p s es = Some s'" and "running (rn_output s)"
    and "unat (rn_output_bytes s) \<le> unat MAX_SESSION_OUTPUT_BYTES"
  shows "\<exists>k cl. rn_sent s' = rn_sent s @ map (\<lambda>d. SessionData (b64_encode (xe_crypto X) d))
      (take k (offered_output p es)) @ cl \<and> length cl \<le> 1 \<and> list_all is_close cl \<and>
    unat (rn_output_bytes s) + length (concat (take k (offered_output p es))) \<le> unat MAX_SESSION_OUTPUT_BYTES"
  using assms
proof (induction X H p s es rule: run_session.induct)
  case (1 X H p s)
  then show ?case by (intro exI [of _ 0] exI [of _ "[]"]) simp
next
  case (2 X H p s e es)
  let ?P = "\<lambda>s es k cl. rn_sent s' = rn_sent s @ map (\<lambda>d. SessionData (b64_encode (xe_crypto X) d))
      (take k (offered_output p es)) @ cl \<and> length cl \<le> 1 \<and> list_all is_close cl \<and>
    unat (rn_output_bytes s) + length (concat (take k (offered_output p es))) \<le> unat MAX_SESSION_OUTPUT_BYTES"
  from 2(2) obtain s1 where s1: "run_step X H p s e = Some s1" "run_session X H p s1 es = Some s'"
    by (auto split: option.splits)
  have ended: "\<exists>k cl. ?P s (e # es) k cl" if "rn_sent s1 = rn_sent s @ cl" "length cl \<le> 1" "list_all is_close cl"
    "\<not> running (rn_output s1)" for cl
    using ended_output_silent [OF s1(2) that(4)] that 2(4) by (intro exI [of _ 0] exI [of _ cl]) simp
  have quiet: "\<exists>k cl. ?P s (e # es) k cl" if "rn_sent s1 = rn_sent s" "rn_output_bytes s1 = rn_output_bytes s"
    "offered_output p (e # es) = offered_output p es"
  proof (cases "running (rn_output s1)")
    case True
    from 2(1) [OF s1 True] that 2(4) show ?thesis by simp
  next
    case False
    with ended [of "[]"] that(1) show ?thesis by simp
  qed
  show ?case
  proof (cases "\<exists>r now alive. e = OutputRead r now alive")
    case True
    then obtain r now alive where e: "e = OutputRead r now alive" by auto
    with s1(1) have blocked: "rn_output s = Blocked" and s1_eq: "s1 = output_read X p s r now alive"
      by (auto split: if_splits)
    from output_read_cases [OF blocked 2(4), of r p X now alive, folded s1_eq] consider
      (data) available where "r = PtyBytes available"
        "unat (rn_output_bytes s) + length (take (max_frame p) available) \<le> unat MAX_SESSION_OUTPUT_BYTES"
        "unat (rn_output_bytes s1) = unat (rn_output_bytes s) + length (take (max_frame p) available)"
        "rn_sent s1 = rn_sent s @ [SessionData (b64_encode (xe_crypto X) (take (max_frame p) available))]"
        "running (rn_output s1)"
      | (again) "r = PtyAgain" "rn_sent s1 = rn_sent s" "rn_output_bytes s1 = rn_output_bytes s"
      | (ends) cl where "rn_sent s1 = rn_sent s @ cl" "length cl \<le> 1" "list_all is_close cl" "\<not> running (rn_output s1)"
      by blast
    then show ?thesis
    proof cases
      case data
      from 2(1) [OF s1 data(5)] data(2,3) obtain k cl where "?P s1 es k cl" by auto
      with data e show ?thesis by (intro exI [of _ "Suc k"] exI [of _ cl]) simp
    next
      case again
      with quiet e show ?thesis by simp
    next
      case ends
      with ended show ?thesis by blast
    qed
  next
    case False
    then have "offered_output p (e # es) = offered_output p es" by (cases e) simp_all
    moreover from s1(1) False have "rn_sent s1 = rn_sent s \<and> rn_output_bytes s1 = rn_output_bytes s"
      by (cases e) (auto split: if_splits)
    ultimately show ?thesis using quiet by blast
  qed
qed

text \<open>How many steps a thread still has once the stop flag is set.\<close>

fun steps_left :: "loop_state \<Rightarrow> nat" where
  "steps_left AtTop = 1"
| "steps_left Blocked = 2"
| "steps_left (Ended _) = 0"

lemma stopped_run_short:
  assumes "run_session X H p s es = Some s'" and "rn_stop s" and "rn_reason s \<noteq> None"
  shows "length es \<le> steps_left (rn_input s) + steps_left (rn_output s)"
  using assms
proof (induction X H p s es rule: run_session.induct)
  case (2 X H p s e es)
  then obtain s1 where s1: "run_step X H p s e = Some s1" "run_session X H p s1 es = Some s'"
    by (auto split: option.splits)
  have stop: "rn_stop s1" "rn_reason s1 \<noteq> None" using s1(1) 2(3,4)
    by (cases e; auto simp: input_read_def input_frame_def output_read_def session_send_def Let_def
        split: if_splits sum.splits option.splits session_wire_frame.splits pty_read.splits)+
  have "steps_left (rn_input s1) + steps_left (rn_output s1) < steps_left (rn_input s) + steps_left (rn_output s)"
    using s1(1) 2(3,4)
    by (cases e; auto simp: input_read_def input_frame_def output_read_def session_send_def Let_def
        split: if_splits sum.splits option.splits session_wire_frame.splits pty_read.splits)
  with 2(1) [OF s1 stop] show ?case by simp
qed simp

lemma run_started_const:
  assumes "run_session X H p s es = Some s'"
  shows "rn_started s' = rn_started s"
  using assms
proof (induction X H p s es rule: run_session.induct)
  case (2 X H p s e es)
  then obtain s1 where s1: "run_step X H p s e = Some s1" "run_session X H p s1 es = Some s'"
    by (auto split: option.splits)
  then have "rn_started s1 = rn_started s" by (cases e) (auto split: if_splits)
  with 2(1) [OF s1] 2(2) show ?case by simp
qed simp

section \<open>Properties of a running session\<close>

text \<open>
  C16. The broker relays a session exactly and within its bounds, however the threads interleave and
  whatever the daemon and the shell send: to the terminal go the contents of the first data frames
  read, in order and whole, each within the signed frame limit and at most 256 MiB together; to the
  daemon go the first chunks that the shell wrote, in order, at most 1 GiB together, followed by at
  most one close frame.
\<close>

theorem session_relay_bounded:
  assumes "run_session X H p (run_start t0) es = Some s"
  shows "(\<exists>k. rn_to_pty s = concat (take k (offered_input X H es)) \<and>
      (\<forall>data \<in> set (take k (offered_input X H es)). length data \<le> unat (pa_max_frame_bytes p))) \<and>
    length (rn_to_pty s) \<le> 256 * 1024 * 1024 \<and>
    (\<exists>k cl. rn_sent s = map (\<lambda>d. SessionData (b64_encode (xe_crypto X) d)) (take k (offered_output p es)) @ cl \<and>
      length (concat (take k (offered_output p es))) \<le> 1024 * 1024 * 1024 \<and>
      length cl \<le> 1 \<and> list_all is_close cl)"
proof -
  have start: "running (rn_input (run_start t0))" "running (rn_output (run_start t0))"
    "rn_input_bytes (run_start t0) = 0" "rn_output_bytes (run_start t0) = 0"
    "rn_to_pty (run_start t0) = []" "rn_sent (run_start t0) = []"
    by (simp_all add: run_start_def)
  from input_relay [OF assms start(1)] start obtain k where
    k: "rn_to_pty s = concat (take k (offered_input X H es))"
      "length (rn_to_pty s) \<le> unat MAX_SESSION_INPUT_BYTES"
      "\<forall>data \<in> set (take k (offered_input X H es)). length data \<le> max_frame p" by auto
  from output_relay [OF assms start(2)] start obtain j cl where
    j: "rn_sent s = map (\<lambda>d. SessionData (b64_encode (xe_crypto X) d)) (take j (offered_output p es)) @ cl"
      "length (concat (take j (offered_output p es))) \<le> unat MAX_SESSION_OUTPUT_BYTES"
      "length cl \<le> 1" "list_all is_close cl" by auto
  have "unat MAX_SESSION_INPUT_BYTES = 256 * 1024 * 1024" "unat MAX_SESSION_OUTPUT_BYTES = 1024 * 1024 * 1024"
    by (simp_all add: MAX_SESSION_INPUT_BYTES_def MAX_SESSION_OUTPUT_BYTES_def)
  with k j show ?thesis unfolding max_frame_def by (intro conjI exI [of _ k] exI [of _ j] exI [of _ cl]) simp_all
qed


section \<open>Opening a session\<close>

lemma session_decode_ok:
  assumes "session_decode X H enabled open_bytes = Inr (op, p)"
  shows "enabled" "ho_frame_of H open_bytes = Some (SessionOpen op)" "params_validate p = Inr ()"
    "\<exists>json. b64_decode (xe_crypto X) (xo_parameters_base64 op) = Some json \<and> ho_params_of H json = Some p \<and>
       xe_sha X json = g_parameters_sha256 (sg_grant (xo_grant op))"
  using assms
  by (auto simp: session_decode_def split: if_splits option.splits session_wire_frame.splits sum.splits)

lemma session_admit_ok:
  assumes "session_admit X H enabled B open_bytes now = (Inr (op, p), B')"
  shows "session_decode X H enabled open_bytes = Inr (op, p)"
    "grant_was_consumed (xe_codec X) (ex_ledger (bk_executor B)) (g_id (sg_grant (xo_grant op))) now = Inr False"
    "fst (verify_and_consume (xe_crypto X) (ex_verifier (bk_executor B)) (xo_grant op) now) = Inr ()"
    "ex_verifier (bk_executor B') =
       snd (verify_and_consume (xe_crypto X) (ex_verifier (bk_executor B)) (xo_grant op) now)"
    "ex_ledger (bk_executor B') = snd (record_consumed_grant (xe_codec X) (ex_ledger (bk_executor B))
       (g_id (sg_grant (xo_grant op))) (g_expires_at (sg_grant (xo_grant op))))"
    "length (bk_sessions B) < MAX_CONCURRENT_SESSIONS"
    "bk_sessions B' = bk_sessions B @ [g_job_or_session_id (sg_grant (xo_grant op))]"
  using assms
  by (auto simp: session_admit_def reserve_def Let_def
      split: sum.splits prod.splits bool.splits if_splits)

lemma verify_and_consume_ok:
  assumes "fst (verify_and_consume c v sg now) = Inr ()"
  shows "verify c sg (gv_signing_key v) (gv_device_id v) now = Inr ()"
  using assms by (auto simp: verify_and_consume_def Let_def split: sum.splits if_splits)

lemma decode_password_Nil [simp]: "decode_password c [] = Inr None"
  by (simp add: decode_password_def)

lemma resolve_credentials_Some:
  assumes "resolve_credentials X H p u b save = Inr (Some password)"
  shows "ho_authenticate H (named_user p u) password = Inr () \<and>
    (pa_credentials_sha256 p \<noteq> [] \<longrightarrow> xe_sha X (str_bytes password) = pa_credentials_sha256 p)"
  using assms
  by (auto simp: resolve_credentials_def validate_account_credentials_def
      split: if_splits sum.splits option.splits)

lemma shell_command_low:
  assumes "shell_command H spec = Inr (program, args)" and "ps_privilege spec = Low"
  shows "program = ''/usr/bin/runuser'' \<and> (\<exists>user shell. args = [''-u'', user, ''--'', shell] \<and> user \<noteq> ''root'' \<and>
    (ps_user spec \<noteq> [] \<longrightarrow> user = ps_user spec) \<and> (ps_user spec = [] \<longrightarrow> user = ''centrald''))"
  using assms by (auto simp: shell_command_def Let_def split: if_splits sum.splits)

lemma pty_open_command: "pty_open H spec = Inr r \<Longrightarrow> shell_command H spec = Inr r"
  by (auto simp: pty_open_def split: sum.splits)

lemma session_prepare_ok:
  assumes "session_prepare X H op p = Inr (program, args)" and "params_validate p = Inr ()"
  shows "pa_privilege p = ''elevated'' \<longrightarrow>
      (\<exists>password. ho_authenticate H (named_user p (xo_account_user op)) password = Inr () \<and>
        (pa_credentials_sha256 p \<noteq> [] \<longrightarrow> xe_sha X (str_bytes password) = pa_credentials_sha256 p)) \<and>
      (ho_platform H \<noteq> Windows \<longrightarrow> named_user p (xo_account_user op) = ''root'')"
    and "pa_privilege p = ''low'' \<longrightarrow> program = ''/usr/bin/runuser'' \<and>
      (\<exists>user shell. args = [''-u'', user, ''--'', shell] \<and> user \<noteq> ''root'')"
proof -
  from assms(1) obtain cr where cr: "resolve_credentials X H p (xo_account_user op) (xo_account_password_base64 op)
      (xo_save_credentials op) = Inr cr"
    and guards: "\<not> (pa_privilege p = ''elevated'' \<and> cr = None)"
      "\<not> (pa_privilege p = ''elevated'' \<and> named_user p (xo_account_user op) \<noteq> ''root'' \<and> ho_platform H \<noteq> Windows)"
    and pty: "pty_open H \<lparr> ps_privilege = (if pa_privilege p = ''low'' then Low else Elevated),
        ps_user = pa_user p, ps_shell = pa_shell p, ps_columns = xo_columns op, ps_rows = xo_rows op \<rparr> =
      Inr (program, args)"
    by (auto simp: session_prepare_def Let_def split: sum.splits if_splits)
  show "pa_privilege p = ''elevated'' \<longrightarrow>
      (\<exists>password. ho_authenticate H (named_user p (xo_account_user op)) password = Inr () \<and>
        (pa_credentials_sha256 p \<noteq> [] \<longrightarrow> xe_sha X (str_bytes password) = pa_credentials_sha256 p)) \<and>
      (ho_platform H \<noteq> Windows \<longrightarrow> named_user p (xo_account_user op) = ''root'')"
    using guards cr resolve_credentials_Some by (cases cr) blast+
  show "pa_privilege p = ''low'' \<longrightarrow> program = ''/usr/bin/runuser'' \<and>
      (\<exists>user shell. args = [''-u'', user, ''--'', shell] \<and> user \<noteq> ''root'')"
    using shell_command_low [OF pty_open_command [OF pty]] by auto
qed

text \<open>A grant that opened a session is held by the replay set and by the journal.\<close>

lemma consumed_afterwards:
  assumes "consumed_codec_ok c" and "consumed_shape c L gs" and "gv_inv v"
    and "fst (verify_and_consume cr v sg now) = Inr ()" and "later < g_expires_at (sg_grant sg)"
  shows "grant_was_consumed c (snd (record_consumed_grant c L (g_id (sg_grant sg)) (g_expires_at (sg_grant sg))))
      (g_id (sg_grant sg)) later = Inr True"
    and "\<not> is_ok (fst (verify_and_consume cr (snd (verify_and_consume cr v sg now)) sg later))"
proof -
  show "grant_was_consumed c (snd (record_consumed_grant c L (g_id (sg_grant sg)) (g_expires_at (sg_grant sg))))
      (g_id (sg_grant sg)) later = Inr True"
    using consumed_grant_reloaded [OF assms(1,2,5), of "g_id (sg_grant sg)"] by simp
  have "gv_until (snd (verify_and_consume cr v sg now)) (g_id (sg_grant sg)) = Some (g_expires_at (sg_grant sg))"
    using gv.recorded [of v "Verify sg now" "g_id (sg_grant sg)" "g_expires_at (sg_grant sg)" cr] assms(3,4) by simp
  moreover have "gv_inv (snd (verify_and_consume cr v sg now))"
    using gv_step_inv [OF assms(3), of cr "Verify sg now"] by simp
  ultimately show "\<not> is_ok (fst (verify_and_consume cr (snd (verify_and_consume cr v sg now)) sg later))"
    using gv.refuse [of _ "g_id (sg_grant sg)" "g_expires_at (sg_grant sg)" "Verify sg later" _ cr] assms(5) by simp
qed


text \<open>
  C35. The account that is checked is not the account that the shell runs as: the checks look at the
  account named in the open frame, which no signature covers, while the terminal runs as the user of
  the signed parameters. So on Linux a low shell for any account except root opens without a password
  when the open frame names \<^verbatim>\<open>centrald\<close>, even if the server bound the grant to a password digest, although
  the same frame naming the real account is refused for lack of a password.
\<close>

theorem session_runs_unchecked_account:
  assumes "session_admit X H enabled B open_bytes now = (Inr (op, p), B')"
    and "ho_platform H = Linux" and "pa_privilege p = ''low''" and "pa_shell p = []"
    and "pa_user p = user" and "user \<notin> {[], ''root'', ''centrald''}"
    and "xo_account_user op = ''centrald''" and "xo_account_password_base64 op = []" and "\<not> xo_save_credentials op"
    and "\<forall>program args rows cols. ho_spawn H program args rows cols = Inr ()"
  shows "serve_open X H enabled B open_bytes now True =
      (Inr (SessionOpened (g_job_or_session_id (sg_grant (xo_grant op))) [],
        Some (p, ''/usr/bin/runuser'', [''-u'', user, ''--'', ''/bin/bash''])), B') \<and>
    session_prepare X H (op \<lparr> xo_account_user := user \<rparr>) p =
      Inl ''low shells for a named OS account require a password''"
proof -
  have "session_prepare X H op p = Inr (''/usr/bin/runuser'', [''-u'', user, ''--'', ''/bin/bash''])"
    using assms(2-10) by (simp add: session_prepare_def resolve_credentials_def named_user_def pty_open_def
        shell_command_def resolve_shell_executable_def LINUX_ALLOWED_SHELLS_def Let_def)
  moreover have "session_prepare X H (op \<lparr> xo_account_user := user \<rparr>) p =
      Inl ''low shells for a named OS account require a password''"
    using assms(3-9) by (simp add: session_prepare_def resolve_credentials_def named_user_def Let_def)
  ultimately show ?thesis using assms(1) by (simp add: serve_open_def Let_def)
qed

section \<open>Witnesses\<close>

definition demo_params :: session_params where
  "demo_params = \<lparr> pa_privilege = ''low'', pa_user = ''alice'', pa_shell = [], pa_max_frame_bytes = 1024,
     pa_idle_timeout_seconds = 900, pa_absolute_timeout_seconds = 28800, pa_credentials_sha256 = [] \<rparr>"

definition demo_session_open :: session_open where
  "demo_session_open = \<lparr> xo_grant = demo_signed_grant, xo_parameters_base64 = [], xo_columns = 80, xo_rows = 24,
     xo_account_user = ''centrald'', xo_account_password_base64 = [], xo_save_credentials = False \<rparr>"

definition demo_host :: session_host where
  "demo_host = \<lparr> ho_platform = Linux,
     ho_frame_of = (\<lambda>bs. Some (if bs = [0] then SessionOpen demo_session_open
                             else SessionData (map (\<lambda>b. char_of (unat b)) bs))),
     ho_frame_to = (\<lambda>_. Some []), ho_params_of = (\<lambda>_. Some demo_params),
     ho_authenticate = (\<lambda>_ _. Inl ''denied''), ho_windows_shell = (\<lambda>_. None), ho_spawn = (\<lambda>_ _ _ _. Inr ()) \<rparr>"

definition demo_broker :: "(byte, nat) broker" where
  "demo_broker = \<lparr> bk_executor = demo_executor, bk_sessions = [] \<rparr>"

definition demo_broker_after :: "(byte, nat) broker" where
  "demo_broker_after = snd (session_admit demo_env demo_host True demo_broker [0] (secs 120))"

lemma demo_session_admit:
  "session_admit demo_env demo_host True demo_broker [0] (secs 120) =
     (Inr (demo_session_open, demo_params), demo_broker_after)"
proof -
  have "params_validate demo_params = Inr ()" by (simp add: params_validate_def demo_params_def)
  then have dec: "session_decode demo_env demo_host True [0] = Inr (demo_session_open, demo_params)"
    by (simp add: session_decode_def demo_host_def demo_session_open_def demo_crypto_def)
  have "load_consumed_grants demo_codec empty_ledger now = Inr []" for now
    by (simp add: load_consumed_grants_def empty_ledger_def)
  then have "grant_was_consumed demo_codec empty_ledger i now = Inr False" for i now
    by (simp add: grant_was_consumed_def)
  moreover have "fst (verify_and_consume demo_crypto demo_verifier demo_signed_grant (secs 120)) = Inr ()"
    by (simp add: demo_first_use)
  moreover have "\<exists>L. record_consumed_grant demo_codec empty_ledger i e = (Inr (), L)" for i e
    by (simp add: record_consumed_grant_def empty_ledger_def)
  moreover obtain L where "record_consumed_grant demo_codec empty_ledger 7 (g_expires_at demo_grant) = (Inr (), L)"
    using calculation(3) by blast
  ultimately have "fst (session_admit demo_env demo_host True demo_broker [0] (secs 120)) =
      Inr (demo_session_open, demo_params)"
    by (auto simp: session_admit_def dec demo_broker_def Let_def reserve_def MAX_CONCURRENT_SESSIONS_def
        demo_session_open_def demo_first_use)
  then show ?thesis by (simp add: demo_broker_after_def prod_eq_iff)
qed

lemma demo_serve_open:
  "serve_open demo_env demo_host True demo_broker [0] (secs 120) True =
     (Inr (SessionOpened 5 [], Some (demo_params, ''/usr/bin/runuser'', [''-u'', ''alice'', ''--'', ''/bin/bash''])),
      demo_broker_after)"
proof -
  have "session_prepare demo_env demo_host demo_session_open demo_params =
      Inr (''/usr/bin/runuser'', [''-u'', ''alice'', ''--'', ''/bin/bash''])"
    by (simp add: session_prepare_def resolve_credentials_def named_user_def demo_session_open_def demo_params_def
        demo_host_def pty_open_def shell_command_def resolve_shell_executable_def LINUX_ALLOWED_SHELLS_def Let_def)
  then show ?thesis
    by (simp add: serve_open_def demo_session_admit) (simp add: demo_session_open_def)
qed


theorem session_runs_unchecked_account_witness:
  "serve_open demo_env demo_host True demo_broker [0] (secs 120) True =
     (Inr (SessionOpened 5 [], Some (demo_params, ''/usr/bin/runuser'', [''-u'', ''alice'', ''--'', ''/bin/bash''])),
      demo_broker_after)"
  using session_runs_unchecked_account [OF demo_session_admit, of "''alice''"]
  by (simp add: demo_host_def demo_session_open_def demo_params_def)

definition demo_run_events :: "run_event list" where
  "demo_run_events = [OutputTop, InputTop, InputRead (Inr [104, 105]) 5 True, OutputRead (PtyBytes [111, 107]) 6 True,
     InputTop, OutputTop, OutputRead (PtyBytes []) 7 True]"

theorem session_relay_bounded_witness:
  "\<exists>s. run_session demo_env demo_host demo_params (run_start 0) demo_run_events = Some s \<and> rn_to_pty s = [104, 105] \<and>
     length (rn_to_pty s) \<le> 256 * 1024 * 1024"
proof -
  define r where "r = run_session demo_env demo_host demo_params (run_start 0) demo_run_events"
  have "map_option rn_to_pty r = Some [104, 105]" unfolding r_def by code_simp
  then obtain s where s: "r = Some s" "rn_to_pty s = [104, 105]" by blast
  with session_relay_bounded [OF s(1) [unfolded r_def]] show ?thesis unfolding r_def by blast
qed


end
