(* ===== verification/Client_Daemon.thy ===== *)
theory Client_Daemon
  imports Broker_Session Shells Server_Demo
begin

text \<open>
  \<^verbatim>\<open>centrald-client/src/daemon.rs\<close>: the unprivileged daemon between the server and the broker. A frame of
  the control stream is one step on the pending grants and the table of terminal relays; it returns the
  frames the daemon sends, or the error that ends the connection. \<open>submit\<close> is the round trip to the
  broker, on the state of the broker. The sender side of the control stream is there as long as the
  connection is, so a send on it does not fail. Timers and the shutdown signal are events.
\<close>

section \<open>Data\<close>

text \<open>The job message as it arrives; \<open>wj_kind\<close> is \<^const>\<open>None\<close> for a number outside the enum.\<close>

record wire_job =
  wj_id :: string
  wj_kind :: "job_kind option"
  wj_parameters_json :: bytes
  wj_delivery_id :: string

text \<open>The text fields of a message that the server sends (\<^verbatim>\<open>to_string\<close> of its UUIDs).\<close>

definition wire_of_message :: "(uuid \<Rightarrow> string) \<Rightarrow> job_message \<Rightarrow> wire_job" where
  "wire_of_message text m = \<lparr> wj_id = text (jm_id m), wj_kind = Some (jm_kind m),
     wj_parameters_json = jm_parameters_json m, wj_delivery_id = text (jm_delivery_id m) \<rparr>"

datatype daemon_frame = AckReceived "32 word" | GrantReceived bytes | JobReceived wire_job
  | ShellReceived shell_frame | EmptyReceived

text \<open>
  A relay of a terminal: whether the thread that takes its frames is still there, and its completion
  flag. \<open>cd_to_broker\<close> is everything handed to the relays so far.
\<close>

record shell_relay =
  rl_open :: bool
  rl_ended :: bool

record daemon =
  cd_grants :: "(uuid \<times> signed_grant) list"
  cd_shells :: "(uuid \<times> shell_relay) list"
  cd_to_broker :: "(uuid \<times> session_wire_frame) list"
  cd_heartbeat_seconds :: "32 word"
  cd_healthy :: bool

record ('sk, 'vk, 'sig) daemon_env =
  de_crypto :: "('sk, 'vk, 'sig) grant_crypto"
  de_key :: 'vk
  de_identity :: uuid
  de_grant_of :: "bytes \<Rightarrow> signed_grant option"
  de_sha_hex :: "bytes \<Rightarrow> string"
  de_parse_uuid :: "string \<Rightarrow> uuid option"
  de_uuid_text :: "uuid \<Rightarrow> string"

definition MAX_PENDING_GRANTS :: nat where "MAX_PENDING_GRANTS = 128"
definition MAX_SHELL_SESSIONS :: nat where "MAX_SHELL_SESSIONS = 8"
definition CERTIFICATE_RENEWAL_WINDOW_DAYS :: int where "CERTIFICATE_RENEWAL_WINDOW_DAYS = 30"

definition daemon_start :: daemon where
  "daemon_start = \<lparr> cd_grants = [], cd_shells = [], cd_to_broker = [], cd_heartbeat_seconds = 30, cd_healthy = False \<rparr>"

section \<open>Jobs\<close>

fun expected_operation :: "job_kind \<Rightarrow> grant_operation option" where
  "expected_operation KindRestartClientService = Some RestartClientService"
| "expected_operation KindRestartMachine = Some RestartMachine"
| "expected_operation KindCheckOsUpdates = Some CheckOsUpdates"
| "expected_operation KindApplyOsUpdates = Some ApplyOsUpdates"
| "expected_operation KindUpdateClient = Some UpdateClient"
| "expected_operation KindUnspecified = None"

definition send_job_event :: "string \<Rightarrow> 64 word \<Rightarrow> job_state \<Rightarrow> bytes \<Rightarrow> bool \<Rightarrow> control_payload" where
  "send_job_event job_id sequence state output terminal =
     JobPayload (JobEventFrame \<lparr> jv_job_id = job_id, jv_sequence = sequence, jv_state = Some state,
       jv_output = output, jv_stderr = (state = Failed),
       jv_exit_code = (if terminal \<and> state = Failed then 1 else 0), jv_terminal = terminal \<rparr>)"

text \<open>The event that reports the outcome of the round trip.\<close>

definition job_outcome :: "string + wire_result \<Rightarrow> job_state \<times> bytes" where
  "job_outcome r =
     (case r of
        Inl message \<Rightarrow> (Failed, str_bytes message)
      | Inr (WireError message) \<Rightarrow> (Failed, str_bytes message)
      | Inr (WireOk response) \<Rightarrow> (if bp_success response then Succeeded else Failed, bp_output response))"

definition handle_job ::
  "('sk, 'vk, 'sig) daemon_env \<Rightarrow> ('b \<Rightarrow> broker_request \<Rightarrow> (string + wire_result) \<times> 'b) \<Rightarrow> daemon \<times> 'b \<Rightarrow> wire_job \<Rightarrow>
   (string + control_payload list) \<times> daemon \<times> 'b" where
  "handle_job V submit = (\<lambda>(D, b) job.
     case de_parse_uuid V (wj_id job) of
       None \<Rightarrow> (Inl ''server sent an invalid job ID'', D, b)
     | Some job_id \<Rightarrow>
         if wj_delivery_id job = [] then (Inl ''server sent a job without a delivery lease'', D, b)
         else (case map_of (cd_grants D) job_id of
             None \<Rightarrow> (Inl ''server did not provide a verified privileged-operation grant'', D, b)
           | Some sg \<Rightarrow>
               let D = D \<lparr> cd_grants := AList.delete job_id (cd_grants D) \<rparr>; g = sg_grant sg in
               (case wj_kind job of
                  None \<Rightarrow> (Inl ''server sent an invalid job kind'', D, b)
                | Some kind \<Rightarrow> (case expected_operation kind of
                    None \<Rightarrow> (Inl ''server sent an unspecified job kind'', D, b)
                  | Some operation \<Rightarrow>
                      if g_job_or_session_id g \<noteq> job_id \<or> g_operation g \<noteq> operation \<or>
                         g_nonce g \<noteq> wj_delivery_id job \<or>
                         g_parameters_sha256 g \<noteq> de_sha_hex V (wj_parameters_json job) then
                        (Inl ''signed grant does not match the delivered job'', D, b)
                      else
                        let (result, b) = submit b
                              \<lparr> br_signed_grant = sg, br_parameters_json = wj_parameters_json job \<rparr>;
                            (state, output) = job_outcome result
                        in (Inr [JobPayload (JobDeliveryAck (wj_id job) (wj_delivery_id job)),
                                 send_job_event (wj_id job) 1 Running
                                   (str_bytes ''executing via the privileged broker'') False,
                                 send_job_event (wj_id job) 2 state output True], D, b)))))"

section \<open>Terminals\<close>

definition send_shell_close :: "('sk, 'vk, 'sig) daemon_env \<Rightarrow> uuid \<Rightarrow> string \<Rightarrow> control_payload" where
  "send_shell_close V session_id reason =
     ShellPayload (Some (CloseFrame \<lparr> sc_session_id = de_uuid_text V session_id, sc_reason = reason,
       sc_exit_code = 1 \<rparr>))"

text \<open>The first frame to the broker.\<close>

definition broker_open_frame ::
  "('sk, 'vk, 'sig) daemon_env \<Rightarrow> shell_open \<Rightarrow> signed_grant \<Rightarrow> session_open" where
  "broker_open_frame V op sg =
     \<lparr> xo_grant = sg, xo_parameters_base64 = b64_encode (de_crypto V) (so_parameters_json op),
       xo_columns = so_columns op, xo_rows = so_rows op, xo_account_user = so_account_user op,
       xo_account_password_base64 = b64_encode (de_crypto V) (so_account_password op),
       xo_save_credentials = so_save_credentials op \<rparr>"

fun shell_operation :: "shell_privilege option \<Rightarrow> grant_operation option" where
  "shell_operation (Some PrivilegeLow) = Some OpenLowShell"
| "shell_operation (Some PrivilegeElevated) = Some OpenElevatedShell"
| "shell_operation _ = None"

definition shell_size_ok :: "32 word \<Rightarrow> 32 word \<Rightarrow> bool" where
  "shell_size_ok columns rows \<longleftrightarrow> \<not> (columns = 0 \<or> rows = 0 \<or> columns > 500 \<or> rows > 500)"

text \<open>\<open>connect\<close> is the outcome of connecting to the broker; on success a task relays the session.\<close>

definition open_shell_session ::
  "('sk, 'vk, 'sig) daemon_env \<Rightarrow> (string + unit) \<Rightarrow> daemon \<Rightarrow> shell_open \<Rightarrow>
   (string + control_payload list) \<times> daemon" where
  "open_shell_session V connect D op =
     (case de_parse_uuid V (so_session_id op) of
        None \<Rightarrow> (Inl ''server sent an invalid shell session ID'', D)
      | Some session_id \<Rightarrow>
          if \<not> shell_size_ok (so_columns op) (so_rows op) then (Inl ''server sent an invalid shell size'', D)
          else (case map_of (cd_grants D) session_id of
              None \<Rightarrow> (Inr [send_shell_close V session_id ''server did not provide a shell-operation grant''], D)
            | Some sg \<Rightarrow>
                let D = D \<lparr> cd_grants := AList.delete session_id (cd_grants D) \<rparr>; g = sg_grant sg in
                (case shell_operation (so_privilege op) of
                   None \<Rightarrow> (Inr [send_shell_close V session_id ''server requested an invalid shell privilege''], D)
                 | Some operation \<Rightarrow>
                     if g_job_or_session_id g \<noteq> session_id \<or> g_operation g \<noteq> operation \<or>
                        g_nonce g \<noteq> de_uuid_text V session_id then
                       (Inr [send_shell_close V session_id ''shell grant does not match the requested session''], D)
                     else
                       let full = (map_of (cd_shells D) session_id = None \<and> length (cd_shells D) \<ge> MAX_SHELL_SESSIONS);
                           D = (if full then D \<lparr> cd_shells := filter (\<lambda>(_, r). \<not> rl_ended r) (cd_shells D) \<rparr> else D)
                       in if full \<and> length (cd_shells D) \<ge> MAX_SHELL_SESSIONS then
                            (Inr [send_shell_close V session_id ''the client shell-session limit was reached''], D)
                          else (case connect of
                              Inl e \<Rightarrow>
                                (Inr [send_shell_close V session_id (''broker session failed: '' @ e)],
                                 D \<lparr> cd_shells := AList.delete session_id (cd_shells D) \<rparr>)
                            | Inr _ \<Rightarrow>
                                (Inr [], D \<lparr> cd_shells := AList.update session_id
                                     \<lparr> rl_open = True, rl_ended = False \<rparr> (cd_shells D),
                                   cd_to_broker := cd_to_broker D @
                                     [(session_id, SessionOpen (broker_open_frame V op sg))] \<rparr>)))))"

definition relay_to_broker :: "daemon \<Rightarrow> uuid \<Rightarrow> shell_relay \<Rightarrow> session_wire_frame \<Rightarrow> (string + control_payload list) \<times> daemon" where
  "relay_to_broker D session_id r frame =
     (if \<not> rl_open r then (Inl ''shell session relay ended'', D)
      else (Inr [], D \<lparr> cd_to_broker := cd_to_broker D @ [(session_id, frame)] \<rparr>))"

definition relay_shell_data ::
  "('sk, 'vk, 'sig) daemon_env \<Rightarrow> daemon \<Rightarrow> shell_data \<Rightarrow> (string + control_payload list) \<times> daemon" where
  "relay_shell_data V D data =
     (case de_parse_uuid V (sd_session_id data) of
        None \<Rightarrow> (Inl ''server sent an invalid shell session ID'', D)
      | Some session_id \<Rightarrow> (case map_of (cd_shells D) session_id of
          None \<Rightarrow> (Inr [], D)
        | Some r \<Rightarrow>
            if length (sd_data data) > MAX_SESSION_WIRE_FRAME_BYTES then
              (Inl ''server sent an oversized shell data frame'', D)
            else relay_to_broker D session_id r (SessionData (b64_encode (de_crypto V) (sd_data data)))))"

definition relay_shell_close ::
  "('sk, 'vk, 'sig) daemon_env \<Rightarrow> daemon \<Rightarrow> shell_close \<Rightarrow> (string + control_payload list) \<times> daemon" where
  "relay_shell_close V D close =
     (case de_parse_uuid V (sc_session_id close) of
        None \<Rightarrow> (Inl ''server sent an invalid shell session ID'', D)
      | Some session_id \<Rightarrow> (case map_of (cd_shells D) session_id of
          None \<Rightarrow> (Inr [], D)
        | Some r \<Rightarrow>
            let D = D \<lparr> cd_shells := AList.delete session_id (cd_shells D) \<rparr>;
                reason = (if sc_reason close = [] then ''operator closed the terminal'' else sc_reason close)
            in (Inr [], if rl_open r then D \<lparr> cd_to_broker := cd_to_broker D @
                  [(session_id, SessionClose reason (sc_exit_code close))] \<rparr> else D)))"

definition relay_shell_resize ::
  "('sk, 'vk, 'sig) daemon_env \<Rightarrow> daemon \<Rightarrow> shell_resize \<Rightarrow> (string + control_payload list) \<times> daemon" where
  "relay_shell_resize V D resize =
     (case de_parse_uuid V (sr_session_id resize) of
        None \<Rightarrow> (Inl ''server sent an invalid shell session ID'', D)
      | Some session_id \<Rightarrow>
          if \<not> shell_size_ok (sr_columns resize) (sr_rows resize) then
            (Inl ''server sent an invalid shell size'', D)
          else (case map_of (cd_shells D) session_id of
              None \<Rightarrow> (Inr [], D)
            | Some r \<Rightarrow> relay_to_broker D session_id r (SessionResize (sr_columns resize) (sr_rows resize))))"

definition handle_shell_frame ::
  "('sk, 'vk, 'sig) daemon_env \<Rightarrow> (string + unit) \<Rightarrow> daemon \<Rightarrow> shell_frame \<Rightarrow>
   (string + control_payload list) \<times> daemon" where
  "handle_shell_frame V connect D frame =
     (case frame of
        None \<Rightarrow> (Inl ''server sent an empty shell frame'', D)
      | Some (OpenFrame op) \<Rightarrow> open_shell_session V connect D op
      | Some (DataFrame data) \<Rightarrow> relay_shell_data V D data
      | Some (ResizeFrame resize) \<Rightarrow> relay_shell_resize V D resize
      | Some (CloseFrame close) \<Rightarrow> relay_shell_close V D close)"

text \<open>
  What the task of a terminal sends for one frame of the broker, and whether it goes on
  (\<^verbatim>\<open>shell_relay_loop\<close>); \<open>Inl\<close> is a failed read, with the text of its error.
\<close>

definition broker_frame ::
  "('sk, 'vk, 'sig) daemon_env \<Rightarrow> session_host \<Rightarrow> uuid \<Rightarrow> string + bytes \<Rightarrow> control_payload list \<times> bool" where
  "broker_frame V H session_id incoming =
     (case incoming of
        Inl e \<Rightarrow> ([send_shell_close V session_id (''broker session ended: '' @ e)], False)
      | Inr body \<Rightarrow> (case ho_frame_of H body of
          None \<Rightarrow> ([send_shell_close V session_id ''broker sent a malformed frame: ''], False)
        | Some (SessionData data_base64) \<Rightarrow> (case b64_decode (de_crypto V) data_base64 of
            None \<Rightarrow> ([send_shell_close V session_id ''broker sent invalid session data''], False)
          | Some data \<Rightarrow> ([ShellPayload (Some (DataFrame \<lparr> sd_session_id = de_uuid_text V session_id,
                sd_sequence = 0, sd_data = data \<rparr>))], True))
        | Some (SessionClose reason _) \<Rightarrow> ([send_shell_close V session_id reason], False)
        | Some (SessionError message) \<Rightarrow> ([send_shell_close V session_id message], False)
        | Some _ \<Rightarrow> ([], True)))"

fun shell_relay_loop ::
  "('sk, 'vk, 'sig) daemon_env \<Rightarrow> session_host \<Rightarrow> uuid \<Rightarrow> (string + bytes) list \<Rightarrow> control_payload list" where
  "shell_relay_loop V H session_id [] = []"
| "shell_relay_loop V H session_id (incoming # rest) =
     (case broker_frame V H session_id incoming of
        (frames, True) \<Rightarrow> frames @ shell_relay_loop V H session_id rest
      | (frames, False) \<Rightarrow> frames)"

section \<open>The connection\<close>

definition receive_grant ::
  "('sk, 'vk, 'sig) daemon_env \<Rightarrow> daemon \<Rightarrow> instant \<Rightarrow> bytes \<Rightarrow> (string + control_payload list) \<times> daemon" where
  "receive_grant V D now bs =
     (case de_grant_of V bs of
        None \<Rightarrow> (Inl ''server sent malformed signed grant'', D)
      | Some sg \<Rightarrow> (case verify (de_crypto V) sg (de_key V) (de_identity V) now of
          Inl _ \<Rightarrow> (Inl ''server sent an invalid signed grant'', D)
        | Inr _ \<Rightarrow>
            let grants = filter (\<lambda>(_, existing). g_expires_at (sg_grant existing) > now) (cd_grants D);
                i = g_job_or_session_id (sg_grant sg);
                D = D \<lparr> cd_grants := grants \<rparr> in
            if map_of grants i = None \<and> length grants \<ge> MAX_PENDING_GRANTS then
              (Inl ''server exceeded the bounded pending signed-grant set'', D)
            else (Inr [], D \<lparr> cd_grants := AList.update i sg grants \<rparr>)))"

definition daemon_receive ::
  "('sk, 'vk, 'sig) daemon_env \<Rightarrow> ('b \<Rightarrow> broker_request \<Rightarrow> (string + wire_result) \<times> 'b) \<Rightarrow> (string + unit) \<Rightarrow>
   daemon \<times> 'b \<Rightarrow> instant \<Rightarrow> daemon_frame \<Rightarrow> (string + control_payload list) \<times> daemon \<times> 'b" where
  "daemon_receive V submit connect = (\<lambda>(D, b) now frame.
     case frame of
       AckReceived next_interval \<Rightarrow>
         if \<not> (5 \<le> next_interval \<and> next_interval \<le> 3600) then
           (Inl ''server returned an invalid heartbeat interval'', D, b)
         else (Inr [], D \<lparr> cd_healthy := True, cd_heartbeat_seconds := next_interval \<rparr>, b)
     | GrantReceived bs \<Rightarrow> (let (r, D) = receive_grant V D now bs in (r, D, b))
     | JobReceived job \<Rightarrow> handle_job V submit (D, b) job
     | ShellReceived frame \<Rightarrow> (let (r, D) = handle_shell_frame V connect D frame in (r, D, b))
     | EmptyReceived \<Rightarrow> (Inl ''server sent an empty control frame'', D, b))"

text \<open>
  The turns of \<^verbatim>\<open>connect_once\<close>: the renewal deadline, the shutdown signal and its value, a heartbeat tick,
  a frame with the outcome of a possible connection to the broker, or the end of the stream; and, from
  the tasks that relay terminals, that the writing thread of one or the whole task has ended.
\<close>

datatype daemon_event = RenewalDue | ShutdownChanged bool | HeartbeatTick | FromServer instant daemon_frame "string + unit"
  | StreamEnded | RelayEnded uuid bool

definition relay_ends :: "daemon \<Rightarrow> uuid \<Rightarrow> bool \<Rightarrow> daemon" where
  "relay_ends D session_id whole =
     (case map_of (cd_shells D) session_id of
        None \<Rightarrow> D
      | Some r \<Rightarrow> D \<lparr> cd_shells := AList.update session_id (r \<lparr> rl_open := False, rl_ended := whole \<rparr>) (cd_shells D) \<rparr>)"

fun connect_once ::
  "('sk, 'vk, 'sig) daemon_env \<Rightarrow> ('b \<Rightarrow> broker_request \<Rightarrow> (string + wire_result) \<times> 'b) \<Rightarrow> daemon \<times> 'b \<Rightarrow>
   daemon_event list \<Rightarrow> control_payload list \<times> (string + unit) option \<times> daemon \<times> 'b" where
  "connect_once V submit (D, b) [] = ([], None, D, b)"
| "connect_once V submit (D, b) (RenewalDue # es) = ([], Some (Inr ()), D, b)"
| "connect_once V submit (D, b) (ShutdownChanged down # es) =
     (if down then ([], Some (Inr ()), D, b) else connect_once V submit (D, b) es)"
| "connect_once V submit (D, b) (HeartbeatTick # es) =
     (let (sent, r) = connect_once V submit (D, b) es in (JobPayload Heartbeat # sent, r))"
| "connect_once V submit (D, b) (FromServer now frame connect # es) =
     (case daemon_receive V submit connect (D, b) now frame of
        (Inl e, D, b) \<Rightarrow> ([], Some (Inl e), D, b)
      | (Inr frames, D, b) \<Rightarrow>
          (let (sent, r) = connect_once V submit (D, b) es in (frames @ sent, r)))"
| "connect_once V submit (D, b) (StreamEnded # es) = ([], Some (Inl ''server closed control stream''), D, b)"
| "connect_once V submit (D, b) (RelayEnded session_id whole # es) =
     connect_once V submit (relay_ends D session_id whole, b) es"

text \<open>
  One turn of \<^verbatim>\<open>run_with_shutdown\<close> with the outcomes of what it calls: the flag at the top, the state lock
  (\<^const>\<open>False\<close> when another process holds it), the configuration with its expiry, the publication, the
  renewal, the connection, and whether a shutdown arrives during the sleep. The failure counter is a
  saturating \<^verbatim>\<open>u32\<close>; a delay is in milliseconds.
\<close>

record daemon_turn =
  dt_shutdown :: bool
  dt_lock :: "string + bool"
  dt_config :: "string + instant"
  dt_finalize :: "string + unit"
  dt_renew :: "string + bool"
  dt_now :: instant
  dt_connect :: "string + unit"
  dt_healthy :: bool
  dt_shutdown_after :: bool
  dt_shutdown_sleep :: bool

record reconnect =
  rc_backoff :: nat
  rc_failures :: "32 word"

datatype turn_result = DaemonStops "string + unit" | DaemonSleeps nat reconnect

definition saturating_inc :: "32 word \<Rightarrow> 32 word" where
  "saturating_inc n = (if n = - 1 then n else n + 1)"

definition sleep_turn :: "bool \<Rightarrow> nat \<Rightarrow> reconnect \<Rightarrow> turn_result" where
  "sleep_turn shutdown delay rc = (if shutdown then DaemonStops (Inr ()) else DaemonSleeps delay rc)"

definition run_turn :: "reconnect \<Rightarrow> daemon_turn \<Rightarrow> turn_result" where
  "run_turn rc t =
     (if dt_shutdown t then DaemonStops (Inr ())
      else (case dt_lock t of
          Inl e \<Rightarrow> DaemonStops (Inl e)
        | Inr False \<Rightarrow> sleep_turn (dt_shutdown_sleep t) 250 rc
        | Inr True \<Rightarrow> (case dt_config t of
            Inl e \<Rightarrow> DaemonStops (Inl e)
          | Inr expires_at \<Rightarrow> (case dt_finalize t of
              Inl _ \<Rightarrow> sleep_turn (dt_shutdown_sleep t) (rc_backoff rc * 1000)
                (rc \<lparr> rc_backoff := min (rc_backoff rc * 2) 60 \<rparr>)
            | Inr _ \<Rightarrow>
                (if dt_renew t = Inr True then DaemonSleeps 0 (rc \<lparr> rc_backoff := 1 \<rparr>)
                 else if \<not> is_ok (dt_renew t) \<and> \<not> expires_at > dt_now t then
                   DaemonStops (Inl ''client certificate is expired and renewal failed; run centrald-client reenroll'')
                 else if dt_connect t = Inr () \<and> dt_shutdown_after t then DaemonStops (Inr ())
                 else if dt_healthy t then
                   sleep_turn (dt_shutdown_sleep t) 1000 \<lparr> rc_backoff = 1, rc_failures = 0 \<rparr>
                 else sleep_turn (dt_shutdown_sleep t) (rc_backoff rc * 1000)
                   \<lparr> rc_backoff = min (rc_backoff rc * 2) 60, rc_failures = saturating_inc (rc_failures rc) \<rparr>)))))"

text \<open>
  \<^verbatim>\<open>finalize_active_publication\<close> with the outcomes of what it calls: the activation, the rollback to a
  previous credential, the identity of the previous configuration, the replacement with whether its
  error is an unknown identity, and the commit of the pointer.
\<close>

definition finalize_active_publication ::
  "uuid \<Rightarrow> (string + unit) \<Rightarrow> (string + bool) \<Rightarrow> (string + uuid option) \<Rightarrow> ((bool \<times> string) + unit) \<Rightarrow> (string + unit) \<Rightarrow>
   string + unit" where
  "finalize_active_publication identity activate rollback previous replace commit =
     (case activate of
        Inl e \<Rightarrow> (case rollback of
            Inl e \<Rightarrow> Inl e
          | Inr True \<Rightarrow> Inl ''activate the persisted client identity; restored the previous active credential''
          | Inr False \<Rightarrow> Inl ''activate the persisted client identity'')
      | Inr _ \<Rightarrow> (case previous of
          Inl e \<Rightarrow> Inl e
        | Inr previous_id \<Rightarrow>
            (case (if previous_id \<noteq> None \<and> previous_id \<noteq> Some identity then replace else Inr ()) of
               Inl (False, e) \<Rightarrow> Inl ''complete authenticated reenrollment replacement''
             | _ \<Rightarrow> (case commit of
                 Inl e \<Rightarrow> Inl ''finalize recovered client credential pointer''
               | Inr _ \<Rightarrow> Inr ()))))"

text \<open>The greeting: \<open>host\<close> are the host name, system, version, architecture, program version and boot id.\<close>

definition client_hello ::
  "('sk, 'vk, 'sig) daemon_env \<Rightarrow> (32 word \<times> 32 word) \<Rightarrow> string \<times> string \<times> string \<times> string \<times> string \<times> string \<Rightarrow>
   client_hello" where
  "client_hello V protocol host =
     (let (hostname, os, os_version, architecture, version, boot_id) = host in
      \<lparr> h_identity_id = de_uuid_text V (de_identity V), h_protocol = Some protocol, h_hostname = hostname,
        h_os = os, h_os_version = os_version, h_architecture = architecture, h_client_version = version,
        h_boot_id = boot_id, h_capabilities = [''heartbeat''] \<rparr>)"

section \<open>Bounds\<close>

definition daemon_inv :: "daemon \<Rightarrow> bool" where
  "daemon_inv D \<longleftrightarrow> length (cd_grants D) \<le> MAX_PENDING_GRANTS \<and> distinct (map fst (cd_grants D)) \<and>
     (\<forall>(i, sg) \<in> set (cd_grants D). g_job_or_session_id (sg_grant sg) = i) \<and>
     length (cd_shells D) \<le> MAX_SHELL_SESSIONS \<and> distinct (map fst (cd_shells D))"

lemma length_update_le:
  "length (AList.update k v al) = (if map_of al k = None then Suc (length al) else length al)"
  by (induction al) auto

lemma alist_delete_inv:
  "distinct (map fst al) \<Longrightarrow> distinct (map fst (AList.delete k al))"
  "\<forall>x \<in> set al. P x \<Longrightarrow> \<forall>x \<in> set (AList.delete k al). P x"
  by (simp_all add: distinct_delete) (auto simp: AList.delete_eq)

lemma update_members: "x \<in> set (AList.update k v al) \<Longrightarrow> x = (k, v) \<or> x \<in> set al"
  by (induction al) (auto split: if_splits)

lemma receive_grant_inv:
  assumes "daemon_inv D"
  shows "daemon_inv (snd (receive_grant V D now bs))"
proof -
  let ?gs = "filter (\<lambda>(_, existing). g_expires_at (sg_grant existing) > now) (cd_grants D)"
  have gs: "length ?gs \<le> MAX_PENDING_GRANTS" "distinct (map fst ?gs)"
    "\<forall>(i, sg) \<in> set ?gs. g_job_or_session_id (sg_grant sg) = i"
    using assms by (auto simp: daemon_inv_def distinct_map_filter intro: le_trans [OF length_filter_le])
  have "daemon_inv (D \<lparr> cd_grants := AList.update (g_job_or_session_id (sg_grant sg)) sg ?gs \<rparr>)"
    if "\<not> (map_of ?gs (g_job_or_session_id (sg_grant sg)) = None \<and> length ?gs \<ge> MAX_PENDING_GRANTS)" for sg
    using assms gs that distinct_update [OF gs(2)]
    by (auto simp: daemon_inv_def length_update_le dest!: update_members)
  moreover have "daemon_inv (D \<lparr> cd_grants := ?gs \<rparr>)" using assms gs by (simp add: daemon_inv_def)
  ultimately show ?thesis using assms
    by (auto simp: receive_grant_def Let_def split: option.splits sum.splits)
qed

lemma taken_inv: "daemon_inv D \<Longrightarrow> daemon_inv (D \<lparr> cd_grants := AList.delete i (cd_grants D) \<rparr>)"
  using length_delete_le [of i "cd_grants D"] alist_delete_inv(1) [of "cd_grants D" i]
    alist_delete_inv(2) [of "cd_grants D" _ i]
  by (auto simp: daemon_inv_def)

lemma handle_job_daemon:
  "fst (snd (handle_job V submit (D, b) job)) \<in> {D} \<union> (\<lambda>i. D \<lparr> cd_grants := AList.delete i (cd_grants D) \<rparr>) ` UNIV"
  by (auto simp: handle_job_def Let_def split: option.splits prod.splits)

lemma shells_inv:
  assumes "daemon_inv D"
  shows "daemon_inv (D \<lparr> cd_to_broker := fs \<rparr>)"
    "daemon_inv (D \<lparr> cd_shells := AList.delete i (cd_shells D) \<rparr>)"
    "daemon_inv (D \<lparr> cd_shells := AList.delete i (cd_shells D), cd_to_broker := fs \<rparr>)"
    "daemon_inv (D \<lparr> cd_shells := filter P (cd_shells D) \<rparr>)"
  using assms length_delete_le [of i "cd_shells D"] alist_delete_inv(1) [of "cd_shells D" i]
    le_trans [OF length_filter_le, of "cd_shells D" MAX_SHELL_SESSIONS P]
  by (simp_all add: daemon_inv_def distinct_map_filter)

lemma shells_update_inv:
  assumes "daemon_inv D" and "map_of (cd_shells D) i \<noteq> None \<or> length (cd_shells D) < MAX_SHELL_SESSIONS"
  shows "daemon_inv (D \<lparr> cd_shells := AList.update i r (cd_shells D) \<rparr>)"
    and "daemon_inv (D \<lparr> cd_shells := AList.update i r (cd_shells D), cd_to_broker := fs \<rparr>)"
  using assms distinct_update [of "cd_shells D" i r] by (auto simp: daemon_inv_def length_update_le)

lemma open_shell_session_inv:
  assumes "daemon_inv D"
  shows "daemon_inv (snd (open_shell_session V connect D op))"
proof (cases "de_parse_uuid V (so_session_id op)")
  case None
  with assms show ?thesis by (simp add: open_shell_session_def)
next
  case (Some i)
  let ?D = "D \<lparr> cd_grants := AList.delete i (cd_grants D) \<rparr>"
  let ?P = "?D \<lparr> cd_shells := filter (\<lambda>(_, r). \<not> rl_ended r) (cd_shells ?D) \<rparr>"
  have D: "daemon_inv ?D" using assms by (rule taken_inv)
  have P: "daemon_inv ?P" using D by (rule shells_inv)
  note keep = shells_inv(2) [OF D, of i] shells_inv(2) [OF P, of i]
    shells_update_inv(2) [OF D, of i] shells_update_inv(2) [OF P, of i]
  show ?thesis
    using assms D P keep Some
    by (auto simp: open_shell_session_def Let_def not_le split: option.split sum.split)
qed

lemma handle_shell_frame_inv:
  assumes "daemon_inv D"
  shows "daemon_inv (snd (handle_shell_frame V connect D frame))"
  using assms open_shell_session_inv [OF assms] shells_inv [OF assms]
  by (auto simp: handle_shell_frame_def relay_shell_data_def relay_shell_resize_def relay_shell_close_def
      relay_to_broker_def Let_def split: option.split shell_payload.split)

lemma daemon_receive_inv:
  assumes "daemon_inv D"
  shows "daemon_inv (fst (snd (daemon_receive V submit connect (D, b) now frame)))"
proof (cases frame)
  case (JobReceived job)
  then show ?thesis
    using handle_job_daemon [of V submit D b job] taken_inv [OF assms] assms by (auto simp: daemon_receive_def)
next
  case (AckReceived n)
  with assms show ?thesis by (simp add: daemon_receive_def daemon_inv_def)
qed (use assms receive_grant_inv [OF assms] handle_shell_frame_inv [OF assms] in
    \<open>simp_all add: daemon_receive_def case_prod_beta Let_def\<close>)

lemma relay_ends_inv: "daemon_inv D \<Longrightarrow> daemon_inv (relay_ends D i whole)"
  by (auto simp: relay_ends_def split: option.split intro!: shells_update_inv)

lemma connect_once_inv:
  assumes "daemon_inv D" and "connect_once V submit (D, b) es = (sent, r, D', b')"
  shows "daemon_inv D'"
  using assms
proof (induction V submit "(D, b)" es arbitrary: D b sent rule: connect_once.induct)
  case (5 V submit D b now frame connect es)
  obtain r1 D1 b1 where rcv: "daemon_receive V submit connect (D, b) now frame = (r1, D1, b1)"
    using prod_cases3 by blast
  with daemon_receive_inv [OF 5(2), of V submit connect b now frame] have D1: "daemon_inv D1" by simp
  show ?case
  proof (cases r1)
    case (Inl e)
    with 5(3) rcv D1 show ?thesis by simp
  next
    case (Inr frames)
    obtain sent1 where "connect_once V submit (D1, b1) es = (sent1, r, D', b')"
      using 5(3) rcv Inr by (auto split: prod.splits)
    with 5(1) [OF rcv [symmetric] Inr refl D1] show ?thesis by blast
  qed
qed (auto simp: relay_ends_inv split: prod.splits if_splits)

section \<open>What reaches the broker\<close>

text \<open>A submission that answers as it likes and keeps the requests.\<close>

definition recording :: "(broker_request \<Rightarrow> string + wire_result) \<Rightarrow> broker_request list \<Rightarrow> broker_request \<Rightarrow>
  (string + wire_result) \<times> broker_request list" where
  "recording answer log request = (answer request, log @ [request])"

definition grant_from :: "('sk, 'vk, 'sig) daemon_env \<Rightarrow> daemon_event list \<Rightarrow> signed_grant \<Rightarrow> bool" where
  "grant_from V es sg \<longleftrightarrow> (\<exists>now bs connect. FromServer now (GrantReceived bs) connect \<in> set es \<and>
     de_grant_of V bs = Some sg \<and> verify (de_crypto V) sg (de_key V) (de_identity V) now = Inr ())"

definition request_from :: "('sk, 'vk, 'sig) daemon_env \<Rightarrow> daemon_event list \<Rightarrow> broker_request \<Rightarrow> bool" where
  "request_from V es request \<longleftrightarrow> grant_from V es (br_signed_grant request) \<and>
     (\<exists>now job connect kind. FromServer now (JobReceived job) connect \<in> set es \<and>
        br_parameters_json request = wj_parameters_json job \<and>
        de_parse_uuid V (wj_id job) = Some (job_of request) \<and> g_nonce (sg_grant (br_signed_grant request)) = wj_delivery_id job \<and>
        g_parameters_sha256 (sg_grant (br_signed_grant request)) = de_sha_hex V (wj_parameters_json job) \<and>
        wj_kind job = Some kind \<and> expected_operation kind = Some (op_of request))"

definition grant_frames :: "daemon_event list \<Rightarrow> nat" where
  "grant_frames es = length (filter (\<lambda>e. case e of FromServer _ (GrantReceived _) _ \<Rightarrow> True | _ \<Rightarrow> False) es)"

definition provenance :: "('sk, 'vk, 'sig) daemon_env \<Rightarrow> daemon_event list \<Rightarrow> daemon \<Rightarrow> broker_request list \<Rightarrow> bool" where
  "provenance V es D log \<longleftrightarrow> (\<forall>(i, sg) \<in> set (cd_grants D). grant_from V es sg) \<and>
     (\<forall>request \<in> set log. request_from V es request) \<and>
     length log + length (cd_grants D) \<le> grant_frames es"

lemma provenance_later:
  assumes "provenance V es D log"
  shows "provenance V (es @ es') D log"
proof -
  have "grant_from V es sg \<Longrightarrow> grant_from V (es @ es') sg" for sg by (auto simp: grant_from_def)
  moreover have "request_from V es r \<Longrightarrow> request_from V (es @ es') r" for r
    using calculation unfolding request_from_def by fastforce
  ultimately show ?thesis using assms by (fastforce simp: provenance_def grant_frames_def)
qed

lemma provenance_grants:
  assumes "provenance V es D log" and "cd_grants D' = cd_grants D"
  shows "provenance V es D' log"
  using assms by (simp add: provenance_def)

lemma delete_smaller: "map_of al k \<noteq> None \<Longrightarrow> length (AList.delete k al) < length al"
  by (induction al) (auto simp: AList.delete_eq intro: le_imp_less_Suc)

lemma provenance_taken:
  assumes "provenance V es D log"
  shows "provenance V es (D \<lparr> cd_grants := AList.delete i (cd_grants D) \<rparr>) log"
  using assms le_trans [OF add_left_mono [OF length_delete_le [of i "cd_grants D"], of "length log"]]
  by (auto simp: provenance_def AList.delete_eq)

lemma provenance_submit:
  assumes "provenance V es D log" and "map_of (cd_grants D) i = Some (br_signed_grant request)" and "request_from V es request"
  shows "provenance V es (D \<lparr> cd_grants := AList.delete i (cd_grants D) \<rparr>) (log @ [request])"
  using assms delete_smaller [of "cd_grants D" i] by (auto simp: provenance_def AList.delete_eq)

lemma open_shell_grants:
  "cd_grants (snd (open_shell_session V connect D op)) \<in>
     {cd_grants D} \<union> (\<lambda>i. AList.delete i (cd_grants D)) ` UNIV"
  by (simp add: open_shell_session_def Let_def split: option.split sum.split)

lemma relay_grants:
  "cd_grants (snd (relay_shell_data V D data)) = cd_grants D"
  "cd_grants (snd (relay_shell_resize V D resize)) = cd_grants D"
  "cd_grants (snd (relay_shell_close V D close)) = cd_grants D"
  by (simp_all add: relay_shell_data_def relay_shell_resize_def relay_shell_close_def relay_to_broker_def Let_def
      split: option.split)

lemma handle_shell_grants:
  "cd_grants (snd (handle_shell_frame V connect D frame)) \<in>
     {cd_grants D} \<union> (\<lambda>i. AList.delete i (cd_grants D)) ` UNIV"
  using open_shell_grants [of V connect D]
  by (simp add: handle_shell_frame_def relay_grants split: option.split shell_payload.split)

lemma receive_provenance:
  assumes "provenance V es D log"
  shows "provenance V (es @ [FromServer now (GrantReceived bs) connect]) (snd (receive_grant V D now bs)) log"
proof -
  let ?es = "es @ [FromServer now (GrantReceived bs) connect]"
  let ?gs = "filter (\<lambda>(_, existing). g_expires_at (sg_grant existing) > now) (cd_grants D)"
  have old: "\<forall>(i, sg) \<in> set (cd_grants D). grant_from V ?es sg" "\<forall>request \<in> set log. request_from V ?es request"
    using provenance_later [OF assms, of "[FromServer now (GrantReceived bs) connect]"]
    by (simp_all add: provenance_def)
  have len: "length log + length (cd_grants D) \<le> grant_frames es" using assms by (simp add: provenance_def)
  have frames: "grant_frames ?es = Suc (grant_frames es)" by (simp add: grant_frames_def)
  have short: "length ?gs \<le> length (cd_grants D)" by simp
  have "length (AList.update i sg ?gs) \<le> Suc (length (cd_grants D))" for i sg
    using short by (simp add: length_update_le del: length_filter_le) 
  then have "provenance V ?es (D \<lparr> cd_grants := AList.update i sg ?gs \<rparr>) log" if "grant_from V ?es sg" for i sg
    using old len frames that le_trans [OF add_left_mono, of "length (AList.update i sg ?gs)" "Suc (length (cd_grants D))" "length log"]
    by (auto simp: provenance_def dest!: update_members)
  moreover have "provenance V ?es D log" "provenance V ?es (D \<lparr> cd_grants := ?gs \<rparr>) log"
    using old len frames le_trans [OF add_left_mono [OF short, of "length log"] len]
    by (auto simp: provenance_def)
  moreover have "grant_from V ?es sg" if "de_grant_of V bs = Some sg" "verify (de_crypto V) sg (de_key V) (de_identity V) now = Inr ()" for sg
    using that by (auto simp: grant_from_def)
  ultimately show ?thesis by (auto simp: receive_grant_def Let_def split: option.split sum.split)
qed

lemma handle_job_cases:
  "(\<exists>e. fst (handle_job V submit (D, b) job) = Inl e) \<and> snd (snd (handle_job V submit (D, b) job)) = b \<or>
   (\<exists>job_id sg kind operation. de_parse_uuid V (wj_id job) = Some job_id \<and> map_of (cd_grants D) job_id = Some sg \<and>
      wj_delivery_id job \<noteq> [] \<and> wj_kind job = Some kind \<and> expected_operation kind = Some operation \<and>
      g_job_or_session_id (sg_grant sg) = job_id \<and> g_operation (sg_grant sg) = operation \<and>
      g_nonce (sg_grant sg) = wj_delivery_id job \<and>
      g_parameters_sha256 (sg_grant sg) = de_sha_hex V (wj_parameters_json job) \<and>
      (\<exists>result b'. submit b \<lparr> br_signed_grant = sg, br_parameters_json = wj_parameters_json job \<rparr> = (result, b') \<and>
        handle_job V submit (D, b) job =
          (Inr [JobPayload (JobDeliveryAck (wj_id job) (wj_delivery_id job)),
                send_job_event (wj_id job) 1 Running (str_bytes ''executing via the privileged broker'') False,
                send_job_event (wj_id job) 2 (fst (job_outcome result)) (snd (job_outcome result)) True],
           D \<lparr> cd_grants := AList.delete job_id (cd_grants D) \<rparr>, b')))"
  by (auto simp: handle_job_def Let_def case_prod_beta prod_eq_iff split: option.split)

lemma handle_job_provenance:
  assumes "provenance V es D log"
  shows "provenance V (es @ [FromServer now (JobReceived job) connect])
     (fst (snd (handle_job V (recording answer) (D, log) job))) (snd (snd (handle_job V (recording answer) (D, log) job)))"
proof -
  let ?es = "es @ [FromServer now (JobReceived job) connect]"
  have prov: "provenance V ?es D log" using assms by (rule provenance_later)
  consider "snd (snd (handle_job V (recording answer) (D, log) job)) = log"
    | (sent) job_id sg kind operation where "de_parse_uuid V (wj_id job) = Some job_id"
      "map_of (cd_grants D) job_id = Some sg" "wj_kind job = Some kind" "expected_operation kind = Some operation"
      "g_job_or_session_id (sg_grant sg) = job_id" "g_operation (sg_grant sg) = operation"
      "g_nonce (sg_grant sg) = wj_delivery_id job"
      "g_parameters_sha256 (sg_grant sg) = de_sha_hex V (wj_parameters_json job)"
      "snd (handle_job V (recording answer) (D, log) job) =
        (D \<lparr> cd_grants := AList.delete job_id (cd_grants D) \<rparr>,
         log @ [\<lparr> br_signed_grant = sg, br_parameters_json = wj_parameters_json job \<rparr>])"
    using handle_job_cases [of V "recording answer" D log job] by (auto simp: recording_def)
  then show ?thesis
  proof cases
    case 1
    then show ?thesis
      using handle_job_daemon [of V "recording answer" D log job] prov provenance_taken [OF prov] by auto
  next
    case sent
    let ?r = "\<lparr> br_signed_grant = sg, br_parameters_json = wj_parameters_json job \<rparr>"
    have "grant_from V ?es sg" using prov map_of_SomeD [OF sent(2)] by (auto simp: provenance_def)
    then have "request_from V ?es ?r" using sent by (auto simp: request_from_def)
    with provenance_submit [OF prov, of job_id ?r] sent show ?thesis by simp
  qed
qed

lemma daemon_receive_provenance:
  assumes "provenance V es D log" and "daemon_receive V (recording answer) connect (D, log) now frame = (r, D', log')"
  shows "provenance V (es @ [FromServer now frame connect]) D' log'"
proof (cases frame)
  case (GrantReceived bs)
  with assms receive_provenance [OF assms(1), of now bs connect] show ?thesis
    by (auto simp: daemon_receive_def case_prod_beta Let_def)
next
  case (JobReceived job)
  with assms handle_job_provenance [OF assms(1), of now job connect answer] show ?thesis
    by (simp add: daemon_receive_def)
next
  case (ShellReceived f)
  have "provenance V (es @ [FromServer now frame connect]) D log" using assms(1) by (rule provenance_later)
  then show ?thesis
    using ShellReceived assms(2) handle_shell_grants [of V connect D f] provenance_taken provenance_grants
    by (fastforce simp: daemon_receive_def case_prod_beta Let_def)
next
  case (AckReceived n)
  with assms(2) have "cd_grants D' = cd_grants D" "log' = log"
    by (auto simp: daemon_receive_def split: if_splits)
  then show ?thesis using provenance_grants [OF provenance_later [OF assms(1)]] by simp
next
  case EmptyReceived
  with assms(2) show ?thesis using provenance_later [OF assms(1)] by (simp add: daemon_receive_def)
qed

lemma connect_provenance:
  assumes "provenance V past D log" and "connect_once V (recording answer) (D, log) es = (sent, r, D', log')"
  shows "provenance V (past @ es) D' log'"
  using assms
proof (induction V "recording answer" "(D, log)" es arbitrary: past D log sent rule: connect_once.induct)
  case (5 V D log now frame connect es)
  obtain r1 D1 log1 where rcv: "daemon_receive V (recording answer) connect (D, log) now frame = (r1, D1, log1)"
    using prod_cases3 by blast
  note D1 = daemon_receive_provenance [OF 5(2) rcv]
  show ?case
  proof (cases r1)
    case (Inl e)
    with 5(3) rcv provenance_later [OF D1, of es] show ?thesis by simp
  next
    case (Inr frames)
    obtain sent1 where "connect_once V (recording answer) (D1, log1) es = (sent1, r, D', log')"
      using 5(3) rcv Inr by (auto split: prod.splits)
    with 5(1) [OF rcv [symmetric] Inr refl D1] show ?thesis by simp
  qed
next
  case (7 V D log i whole es)
  have "cd_grants (relay_ends D i whole) = cd_grants D" by (simp add: relay_ends_def split: option.split)
  with provenance_grants [OF 7(2)] have "provenance V past (relay_ends D i whole) log" by blast
  from 7(1) [OF provenance_later [OF this, of "[RelayEnded i whole]"]] 7(3) show ?case by simp
next
  case (3 V D log down es)
  show ?case
  proof (cases down)
    case True
    with 3(3) provenance_later [OF 3(2)] show ?thesis by simp
  next
    case False
    with 3(1) [OF False provenance_later [OF 3(2), of "[ShutdownChanged down]"]] 3(3) show ?thesis by simp
  qed
next
  case (4 V D log es)
  from 4(3) obtain sent1 where "connect_once V (recording answer) (D, log) es = (sent1, r, D', log')"
    by (auto split: prod.splits)
  with 4(1) [OF provenance_later [OF 4(2), of "[HeartbeatTick]"]] show ?case by simp
qed (auto intro: provenance_later)

section \<open>Properties\<close>

text \<open>
  C4. The daemon is no confused deputy: whatever the server sends, in any order, and however the broker
  answers, every request that the daemon passes to the broker carries a grant that it received on this
  connection and that verified under the server's key for this device, together with the parameters of
  a job it received whose id, delivery id, kind and parameter digest are those of the grant; and every
  grant received leads to at most one request. All the while at most 128 grants wait and at most 8
  terminals are relayed.
\<close>

theorem daemon_requests_verified:
  assumes "connect_once V (recording answer) (daemon_start, []) es = (sent, result, D, log)"
  shows "(\<forall>request \<in> set log. request_from V es request) \<and> length log \<le> grant_frames es \<and>
    length (cd_grants D) \<le> 128 \<and> length (cd_shells D) \<le> 8"
proof -
  have "provenance V [] daemon_start []" by (simp add: provenance_def daemon_start_def)
  from connect_provenance [OF this assms] have "provenance V es D log" by simp
  moreover have "daemon_inv daemon_start" by (simp add: daemon_inv_def daemon_start_def)
  then have "daemon_inv D" by (rule connect_once_inv [OF _ assms])
  ultimately show ?thesis
    by (auto simp: provenance_def daemon_inv_def MAX_PENDING_GRANTS_def MAX_SHELL_SESSIONS_def)
qed

text \<open>
  The daemon gives up only when it must: whatever happens in a turn of its reconnect loop, it stops
  with an error only when the state lock or the configuration fails, or when the certificate has
  expired and could not be renewed; otherwise it stops on a shutdown or tries again after at most a
  minute, with a delay that stays between one second and a minute from turn to turn.
\<close>

theorem daemon_keeps_trying:
  assumes "1 \<le> rc_backoff rc" and "rc_backoff rc \<le> 60"
  shows "case run_turn rc t of
      DaemonStops (Inl e) \<Rightarrow> \<not> is_ok (dt_lock t) \<or> \<not> is_ok (dt_config t) \<or>
        (\<exists>expires_at. dt_config t = Inr expires_at \<and> expires_at \<le> dt_now t \<and> \<not> is_ok (dt_renew t))
    | DaemonStops (Inr _) \<Rightarrow> dt_shutdown t \<or> dt_shutdown_after t \<or> dt_shutdown_sleep t
    | DaemonSleeps delay rc' \<Rightarrow> delay \<le> 60000 \<and> 1 \<le> rc_backoff rc' \<and> rc_backoff rc' \<le> 60"
  using assms by (auto simp: run_turn_def sleep_turn_def not_less split: sum.split bool.split)

lemma collect_capabilities_subset:
  "collect_capabilities privileged seen cs = Inr caps \<Longrightarrow> set caps \<subseteq> set seen \<union> set cs"
  by (induction privileged seen cs rule: collect_capabilities.induct)
     (auto simp: set_insort_key split: sum.splits if_splits)

lemma capabilities_updated:
  assumes "x \<notin> set caps" and "\<And>c. cl_capabilities (f c) = caps"
  shows "\<forall>c \<in> set (update_where (\<lambda>c. cl_identity_id c = i) f rows).
    cl_identity_id c = i \<longrightarrow> x \<notin> set (cl_capabilities c)"
  using assms by (induction rows) (auto simp: update_where_def)

lemma hello_capabilities:
  assumes "handle_client_hello E privileged d now identity (client_hello V protocol host) = Inr d'"
  shows "\<not> supports_typed_jobs d' identity"
proof -
  obtain caps where caps: "validate_hello privileged (client_hello V protocol host) = Inr caps"
    and d': "db_clients d' = update_where (\<lambda>c. cl_identity_id c = identity)
      (\<lambda>c. c \<lparr> cl_hostname := h_hostname (client_hello V protocol host), cl_os := h_os (client_hello V protocol host),
             cl_os_version := h_os_version (client_hello V protocol host),
             cl_architecture := h_architecture (client_hello V protocol host),
             cl_client_version := h_client_version (client_hello V protocol host), cl_capabilities := caps,
             cl_boot_id := h_boot_id (client_hello V protocol host), cl_last_seen := Some now \<rparr>) (db_clients d)"
    using assms by (auto simp: handle_client_hello_def split: sum.splits if_splits)
  have "set caps \<subseteq> set (h_capabilities (client_hello V protocol host))"
    using caps collect_capabilities_subset [of privileged "[]"]
    by (auto simp only: validate_hello_def list.set(1) Un_empty_left split: if_splits option.splits sum.splits)
  moreover have "h_capabilities (client_hello V protocol host) = [''heartbeat'']"
    by (simp add: client_hello_def case_prod_beta Let_def)
  ultimately have "set caps \<subseteq> {''heartbeat''}" by simp
  moreover have "''typed_jobs'' \<notin> {''heartbeat''}" by simp
  ultimately have "''typed_jobs'' \<notin> set caps" by (rule contra_subsetD)
  then have "\<forall>c \<in> set (db_clients d'). cl_identity_id c = identity \<longrightarrow> ''typed_jobs'' \<notin> set (cl_capabilities c)"
    unfolding d' by (rule capabilities_updated) simp_all
  then show ?thesis
    by (auto simp: supports_typed_jobs_def find_Some_iff split: option.split)
qed

text \<open>
  The shipped client is sent no work: its greeting names the capability \<^verbatim>\<open>heartbeat\<close> only, so after the
  server has accepted it, and as long as the row of the client stays, no job is handed to it, no job
  can be started for it, and neither a challenge nor a shell can be opened, whatever the two feature
  constants of the server are.
\<close>

theorem shipped_client_gets_no_work:
  assumes "handle_client_hello E privileged d now identity (client_hello V protocol host) = Inr d'"
    and "db_clients (st_db s) = db_clients d'"
  shows "claim_next_job J (st_db s) t identity delivery_id grant_id = (Inr None, st_db s) \<and>
    (jb_target_id r = identity \<longrightarrow> \<not> is_ok (start_job_commit J (st_db s) t r audit_id)) \<and>
    (se_parse_uuid (sv_server S) (be_target_id request) = Some identity \<longrightarrow>
      \<not> is_ok (fst (begin_elevation S s t actor request nonce challenge_id audit_id))) \<and>
    (se_parse_uuid (sv_server S) (so_target_id op) = Some identity \<longrightarrow>
      \<not> is_ok (fst (validate_shell_open S s t actor op session_id)))"
proof -
  have "supports_typed_jobs (st_db s) identity = supports_typed_jobs d' identity"
    using assms(2) by (simp add: supports_typed_jobs_def)
  with hello_capabilities [OF assms(1)] have no: "\<not> supports_typed_jobs (st_db s) identity" by simp
  have "fst (validate_shell_open S s t actor op session_id) \<noteq> Inr plan"
    if "se_parse_uuid (sv_server S) (so_target_id op) = Some identity" for plan
    using that no by (cases "privilege_name (so_privilege op)")
      (auto simp: validate_shell_open_def shell_parse_uuid_def split: sum.split)
  then show ?thesis
    using no by (simp add: claim_next_job_def start_job_commit_def begin_elevation_def shell_parse_uuid_def is_ok_iff)
qed

section \<open>Witnesses\<close>

definition demo_daemon_env :: "(byte, byte, bytes) daemon_env" where
  "demo_daemon_env = \<lparr> de_crypto = demo_crypto, de_key = 9, de_identity = 3, de_grant_of = (\<lambda>_. Some demo_signed_grant),
     de_sha_hex = (\<lambda>_. ''44136fa3''), de_parse_uuid = map_of [(''5'', 5)], de_uuid_text = (\<lambda>_. ''3'') \<rparr>"

definition demo_wire_job :: wire_job where
  "demo_wire_job = \<lparr> wj_id = ''5'', wj_kind = Some KindRestartMachine, wj_parameters_json = [123, 125],
     wj_delivery_id = ''n'' \<rparr>"

definition demo_daemon_events :: "daemon_event list" where
  "demo_daemon_events = [HeartbeatTick, FromServer (secs 120) (GrantReceived [7]) (Inr ()),
     FromServer (secs 121) (JobReceived demo_wire_job) (Inr ())]"

theorem daemon_requests_verified_witness:
  "\<exists>sent result D. connect_once demo_daemon_env (recording (\<lambda>_. Inr (WireOk demo_response))) (daemon_start, [])
      demo_daemon_events = (sent, result, D, [\<lparr> br_signed_grant = demo_signed_grant, br_parameters_json = [123, 125] \<rparr>]) \<and>
    request_from demo_daemon_env demo_daemon_events \<lparr> br_signed_grant = demo_signed_grant, br_parameters_json = [123, 125] \<rparr>"
proof -
  have v: "verify demo_crypto demo_signed_grant 9 3 (secs 120) = Inr ()"
    by (rule demo_verifies) (simp_all add: secs_def nanos_per_second_def)
  have nonce: "g_nonce demo_grant = ''n''" by (simp add: demo_grant_def)
  have "\<exists>sent result D. connect_once demo_daemon_env (recording (\<lambda>_. Inr (WireOk demo_response))) (daemon_start, [])
      demo_daemon_events = (sent, result, D, [\<lparr> br_signed_grant = demo_signed_grant, br_parameters_json = [123, 125] \<rparr>])"
    by (simp add: demo_daemon_events_def demo_daemon_env_def daemon_receive_def receive_grant_def v daemon_start_def
        MAX_PENDING_GRANTS_def handle_job_def demo_wire_job_def nonce recording_def
        job_outcome_def Let_def)
  then obtain sent result D where run: "connect_once demo_daemon_env (recording (\<lambda>_. Inr (WireOk demo_response))) (daemon_start, [])
      demo_daemon_events = (sent, result, D, [\<lparr> br_signed_grant = demo_signed_grant, br_parameters_json = [123, 125] \<rparr>])"
    by blast
  with daemon_requests_verified [OF run] show ?thesis by auto
qed

theorem daemon_keeps_trying_witness:
  "case run_turn \<lparr> rc_backoff = 40, rc_failures = 7 \<rparr> \<lparr> dt_shutdown = False, dt_lock = Inr True, dt_config = Inr (secs 9),
      dt_finalize = Inr (), dt_renew = Inr False, dt_now = secs 1, dt_connect = Inl ''down'', dt_healthy = False,
      dt_shutdown_after = False, dt_shutdown_sleep = False \<rparr> of
     DaemonStops _ \<Rightarrow> False | DaemonSleeps delay rc \<Rightarrow> delay \<le> 60000 \<and> rc_backoff rc \<le> 60"
  using daemon_keeps_trying [of "\<lparr> rc_backoff = 40, rc_failures = 7 \<rparr>" "\<lparr> dt_shutdown = False, dt_lock = Inr True, dt_config = Inr (secs 9),
      dt_finalize = Inr (), dt_renew = Inr False, dt_now = secs 1, dt_connect = Inl ''down'', dt_healthy = False,
      dt_shutdown_after = False, dt_shutdown_sleep = False \<rparr>"]
  by (simp add: run_turn_def sleep_turn_def)

definition demo_hello :: client_hello where
  "demo_hello = client_hello demo_daemon_env (PROTOCOL_MAJOR, PROTOCOL_MINOR) (''nas'', ''linux'', ''1'', ''x86_64'', ''1.0.0'', ''b'')"

theorem shipped_client_gets_no_work_witness:
  "\<exists>d'. handle_client_hello demo_server True demo_server_db (secs 1) 3 demo_hello = Inr d' \<and>
     claim_next_job demo_jobs d' (secs 2) 3 70 71 = (Inr None, d')"
proof -
  have "\<exists>d'. handle_client_hello demo_server True demo_server_db (secs 1) 3 demo_hello = Inr d'"
    by (simp add: handle_client_hello_def parse_uuid_def demo_hello_def client_hello_def demo_daemon_env_def demo_server_def
        validate_hello_def validate_protocol_def validate_hello_text_def allowed_hello_capability_def
        has_control_def MAX_HELLO_HOSTNAME_BYTES_def MAX_HELLO_TEXT_BYTES_def MAX_HELLO_CAPABILITIES_def
        MAX_HELLO_CAPABILITY_BYTES_def)
  then obtain d' where d': "handle_client_hello demo_server True demo_server_db (secs 1) 3 demo_hello = Inr d'" by blast
  with shipped_client_gets_no_work [OF d' [unfolded demo_hello_def], of "\<lparr> st_db = d', st_challenges = [], st_rows = [], st_streams = [], st_sessions = [] \<rparr>" demo_jobs "secs 2" 70 71,
      THEN conjunct1]
  show ?thesis by simp
qed

end
