(* ===== verification/Job_End_To_End.thy ===== *)
theory Job_End_To_End
  imports Client_Daemon Job_Safety
begin

text \<open>
  The path of a job through the three programs: the server claims it and signs its grant, the daemon
  checks the grant and passes job and grant to the broker, the broker executes, and the events of the
  daemon go back to the server. The messages are encoded and decoded at every border, the broker is
  reached through its framed channel.
\<close>

section \<open>The channel between daemon and broker\<close>

text \<open>\<^verbatim>\<open>handle_unix_connection_sync\<close> on the bytes of a connection: what the broker writes back.\<close>

definition handle_unix_connection_sync ::
  "wire_codec \<Rightarrow> ('sk, 'vk, 'sig, 'w) exec_env \<Rightarrow> bool \<Rightarrow> ('vk, 'w) executor \<Rightarrow> instant \<Rightarrow> instant \<Rightarrow> bytes \<Rightarrow>
   bytes \<times> ('vk, 'w) executor" where
  "handle_unix_connection_sync w X cfg_test ex now wall stream =
     (case read_frame stream MAX_FIRST_FRAME_BYTES of
        Inl _ \<Rightarrow> ([], ex)
      | Inr (first, _) \<Rightarrow> (case dispatch_connection w X cfg_test ex first now wall of
          (Inr (Written out), ex) \<Rightarrow> (out, ex)
        | (_, ex) \<Rightarrow> ([], ex)))"

text \<open>\<open>submit_request\<close> against that broker, with the state it leaves.\<close>

definition submit_to_broker ::
  "wire_codec \<Rightarrow> (broker_request \<Rightarrow> bytes) \<Rightarrow> ('sk, 'vk, 'sig, 'w) exec_env \<Rightarrow> bool \<Rightarrow> instant \<Rightarrow> instant \<Rightarrow>
   ('vk, 'w) executor \<Rightarrow> broker_request \<Rightarrow> (string + wire_result) \<times> ('vk, 'w) executor" where
  "submit_to_broker w ser X cfg_test now wall ex request =
     (submit_request w ser (\<lambda>stream. fst (handle_unix_connection_sync w X cfg_test ex now wall stream)) request,
      if length (ser request) > MAX_WIRE_REQUEST_BYTES then ex
      else (case frame_bytes (ser request) of
          Inl _ \<Rightarrow> ex
        | Inr framed \<Rightarrow> snd (handle_unix_connection_sync w X cfg_test ex now wall framed)))"

text \<open>What the JSON crate promises on the channel: this request and this result arrive as they were sent.\<close>

definition wire_codec_ok :: "wire_codec \<Rightarrow> (broker_request \<Rightarrow> bytes) \<Rightarrow> broker_request \<Rightarrow> wire_result \<Rightarrow> bool" where
  "wire_codec_ok w ser request result \<longleftrightarrow>
     wc_request w (ser request) = Some request \<and> ser request \<noteq> [] \<and>
     (case wc_value w (ser request) of None \<Rightarrow> True
      | Some v \<Rightarrow> Option.bind (json_get ''kind'' v) json_as_str \<noteq> Some ''open'') \<and>
     wc_decode_result w (wc_result w result) = Some result \<and> wc_result w result \<noteq> [] \<and>
     length (ser request) \<le> MAX_WIRE_REQUEST_BYTES \<and> length (wc_result w result) \<le> MAX_WIRE_RESPONSE_BYTES"

lemma frame_read_back:
  assumes "body \<noteq> []" and "length body \<le> n" and "n < 2 ^ 32"
  shows "\<exists>framed. frame_bytes body = Inr framed \<and> read_frame framed n = Inr (body, []) \<and>
    snd (write_frame [] body) = framed \<and> fst (write_frame [] body) = Inr ()"
proof -
  have "length body < 2 ^ 32" using assms(2,3) by linarith
  then show ?thesis
    using read_written [of body n "[]"] assms by (simp add: frame_bytes_def write_frame_def u32_of_len_def)
qed

text \<open>The round trip: the answer of the executor arrives at the daemon.\<close>

lemma submit_round_trip:
  assumes "wire_codec_ok w ser request (WireOk response)"
    and "execute X cfg_test ex request now wall = (Inr response, ex')"
  shows "submit_to_broker w ser X cfg_test now wall ex request = (Inr (WireOk response), ex')"
proof -
  let ?body = "ser request" and ?res = "wc_result w (WireOk response)"
  note ok = assms(1) [unfolded wire_codec_ok_def]
  obtain framed where framed: "frame_bytes ?body = Inr framed"
    "read_frame framed MAX_FIRST_FRAME_BYTES = Inr (?body, [])"
    using frame_read_back [of ?body MAX_FIRST_FRAME_BYTES] ok
    by (auto simp: MAX_FIRST_FRAME_BYTES_def MAX_WIRE_REQUEST_BYTES_def)
  have res: "?res \<noteq> []" "length ?res \<le> MAX_WIRE_RESPONSE_BYTES" using ok by simp_all
  obtain out where out: "write_frame [] ?res = (Inr (), out)" "frame_bytes ?res = Inr out"
    using frame_read_back [OF res] by (auto simp: MAX_WIRE_RESPONSE_BYTES_def prod_eq_iff)
  have "dispatch_connection w X cfg_test ex ?body now wall = (Inr (Written out), ex')"
    using ok assms(2) out by (auto simp: dispatch_connection_def execute_request_def split: option.splits)
  then have conn: "handle_unix_connection_sync w X cfg_test ex now wall framed = (out, ex')"
    by (simp add: handle_unix_connection_sync_def framed)
  have len: "length out = 4 + length ?res"
    using out(2) by (auto simp: frame_bytes_def u32_of_len_def split: if_splits)
  have "unframe_bytes out MAX_WIRE_RESPONSE_BYTES = Inr (?res, length out)"
    using unframe_frame [OF _ res(2) out(2), of "[]"] res(1) by simp
  moreover have "take (MAX_WIRE_RESPONSE_BYTES + 8) out = out" using len res(2) by simp
  ultimately show ?thesis
    using ok framed(1) conn by (simp add: submit_to_broker_def submit_request_def Let_def)
qed

section \<open>A fresh job at the broker\<close>

text \<open>
  The broker is ready for the job of a request: its journals are readable and below the compaction
  bound, also after the marker is added, and hold nothing about the job; the grant is not in the
  replay set, which has room.
\<close>

definition broker_ready ::
  "('sk, 'vk, 'sig, 'w) exec_env \<Rightarrow> ('vk, 'w) executor \<Rightarrow> broker_request \<Rightarrow> instant \<Rightarrow> bool" where
  "broker_ready X ex request now \<longleftrightarrow> ledger_codec_ok (xe_codec X) \<and>
     (\<exists>rs t gs. ledger_shape (xe_codec X) (ex_ledger ex) rs t \<and> consumed_shape (xe_codec X) (ex_ledger ex) gs \<and>
        a_lookup rs (job_of request) now = Inr None \<and>
        length (unlines (map (record_line (xe_codec X))
          (rs @ [executing_record (job_of request) (op_of request) now]))) \<le> MAX_LEDGER_BYTES) \<and>
     ledger_small (ex_ledger ex) \<and> g_id (sg_grant (br_signed_grant request)) \<notin> gv_consumed (ex_verifier ex) \<and>
     length (gv_order (ex_verifier ex)) < MAX_REPLAY_ENTRIES"

lemma fresh_grant_consumed:
  assumes "verify c sg (gv_signing_key v) (gv_device_id v) now = Inr ()"
    and "g_id (sg_grant sg) \<notin> gv_consumed v" and "length (gv_order v) < MAX_REPLAY_ENTRIES"
  shows "\<exists>v'. verify_and_consume c v sg now = (Inr (), v')"
proof -
  have "gv_consumed (prune_expired v now) \<subseteq> gv_consumed v"
    by (auto simp: prune_expired_def prune_loop_eq Let_def)
  moreover have "length (gv_order (prune_expired v now)) \<le> length (gv_order v)"
    by (simp add: prune_expired_order length_dropWhile_le)
  ultimately show ?thesis using assms by (auto simp: verify_and_consume_def Let_def)
qed

lemma execute_fresh:
  assumes "broker_ready X ex request now"
    and "verify (xe_crypto X) (br_signed_grant request) (gv_signing_key (ex_verifier ex))
      (gv_device_id (ex_verifier ex)) now = Inr ()"
    and sha: "xe_sha X (br_parameters_json request) = g_parameters_sha256 (sg_grant (br_signed_grant request))"
    and run: "xe_run X (ex_world ex) (op_of request) (br_parameters_json request) = (Inr response, world)"
    and small_output: "length (bp_output response) \<le> MAX_RECORDED_OUTPUT_BYTES"
  shows "\<exists>ex'. execute X True ex request now wall = (Inr response, ex') \<and>
    ex_runs ex' = ex_runs ex @ [job_of request] \<and> ex_world ex' = world"
proof -
  let ?c = "xe_codec X" and ?g = "sg_grant (br_signed_grant request)"
  from assms(1) obtain rs t gs where codec: "ledger_codec_ok ?c" and shape0: "ledger_shape ?c (ex_ledger ex) rs t"
    and consumed: "consumed_shape ?c (ex_ledger ex) gs" and none: "a_lookup rs (job_of request) now = Inr None"
    and bound: "length (unlines (map (record_line ?c) (rs @ [executing_record (job_of request) (op_of request) now])))
      \<le> MAX_LEDGER_BYTES" and small0: "ledger_small (ex_ledger ex)"
    by (auto simp: broker_ready_def)
  obtain v where v: "verify_and_consume (xe_crypto X) (ex_verifier ex) (br_signed_grant request) now = (Inr (), v)"
    using fresh_grant_consumed [OF assms(2)] assms(1) by (auto simp: broker_ready_def)
  obtain L1 where L1: "record_consumed_grant ?c (ex_ledger ex) (g_id ?g) (g_expires_at ?g) = (Inr (), L1)"
    using record_consumed_shape(1) [OF consumed] by (metis prod.collapse)
  then have jobs: "ld_jobs L1 = ld_jobs (ex_ledger ex)"
    using record_consumed_jobs [of ?c "ex_ledger ex"] by (metis snd_conv)
  then have shape1: "ledger_shape ?c L1 rs t" using shape0 ledger_shape_jobs_cong by blast
  let ?L = "recovered ?c L1 rs t"
  let ?ex = "ex \<lparr> ex_verifier := v, ex_ledger := ?L \<rparr>"
  have small1: "ledger_small L1" using small0 jobs by (simp add: ledger_small_def)
  note shape = recovered_shape [OF shape1] and small = recovered_small [OF shape1 small1]
  have admit: "exec_admit X True ex request now = (Inr None, ?ex)"
    using v sha none L1 lookup_shape [OF codec shape1] by (simp add: exec_admit_def Let_def)
  obtain L2 where L2: "mark_executing ?c ?L (job_of request) (op_of request) now wall = (Inr (), L2)"
    using mark_executing_shape(1) [OF codec shape small none] by (metis prod.collapse)
  have shape2: "ledger_shape ?c L2 (rs @ [executing_record (job_of request) (op_of request) now]) []"
    using mark_executing_shape(2) [OF codec shape small none, of "op_of request" wall] L2 by simp
  have bgn: "exec_begin X ?ex request now wall = (Inr None, ?ex \<lparr> ex_ledger := L2 \<rparr>)"
    using lookup_shape [OF codec shape, of "job_of request" now] none L2
    by (simp add: exec_begin_def Let_def recovered_def)
  have small2: "ledger_small L2"
    using shape2 bound by (auto simp: ledger_small_def ledger_shape_def split: option.splits)
  from record_completed_shape [OF codec shape2 small2 a_lookup_after_mark small_output, of now wall]
  obtain L3 where L3: "record_completed ?c L2 (job_of request) response now wall = (Inr (), L3)"
    by (metis prod.collapse)
  have "exec_finish X (?ex \<lparr> ex_ledger := L2 \<rparr>) request now wall =
      (Inr response, ?ex \<lparr> ex_ledger := L3, ex_world := world, ex_runs := ex_runs ex @ [job_of request] \<rparr>)"
    using run L3 by (simp add: exec_finish_def exec_run_def Let_def)
  then show ?thesis using admit bgn by (simp add: execute_def exec_locked_def)
qed

section \<open>The job at the server\<close>

lemma heartbeat_claims:
  assumes "handle_client_frame J d t0 identity Heartbeat delivery_id grant_id =
    (Inr [HeartbeatAck, SignedGrant sg, JobFrame m], d1)"
  obtains j operation where "next_queued (heartbeat_db d t0 identity) t0 identity = Some j"
    and "d1 = claimed_db (heartbeat_db d t0 identity) t0 (jb_id j) delivery_id"
    and "grant_operation (job_kind_text (jb_kind j)) = Inr operation"
    and "sign (je_crypto J) (job_grant J t0 identity j operation (jm_parameters_json m) grant_id delivery_id)
      (je_signing_key J) = Inr sg"
    and "jm_id m = jb_id j" and "jm_kind m = job_kind_from_name (job_kind_text (jb_kind j))"
    and "jm_delivery_id m = delivery_id" and "jm_expires_at m = jb_expires_at j"
  using assms
  by (auto simp: handle_client_frame_def claim_next_job_def Let_def split: prod.splits sum.splits option.splits if_splits)

lemma kind_operation:
  "Jobs.grant_operation (job_kind_text k) = Inr operation \<Longrightarrow>
     expected_operation (job_kind_from_name (job_kind_text k)) = Some operation"
  by (cases k) (auto simp: Jobs.grant_operation_def job_kind_text_def job_kind_from_name_def)

lemma find_job_updated:
  assumes "\<And>r. jb_id (f r) = jb_id r" and "db_jobs d' = update_where (\<lambda>r. jb_id r = job) f (db_jobs d)"
  shows "find_job d' job = map_option f (find_job d job)"
proof -
  have "find (\<lambda>r. jb_id r = job) (update_where (\<lambda>r. jb_id r = job) f rows) =
      map_option f (find (\<lambda>r. jb_id r = job) rows)" for rows
    by (induction rows) (simp_all add: update_where_def assms(1))
  then show ?thesis by (simp add: find_job_def assms(2))
qed

lemma find_by_key: "distinct (map k xs) \<Longrightarrow> x \<in> set xs \<Longrightarrow> find (\<lambda>r. k r = k x) xs = Some x"
  by (induction xs) force+

lemma find_job_member: "job_inv d \<Longrightarrow> j \<in> set (db_jobs d) \<Longrightarrow> find_job d (jb_id j) = Some j"
  using find_by_key [of jb_id "db_jobs d" j] by (simp add: find_job_def job_inv_def)

text \<open>After the claim: the row is dispatched under the delivery, and the only event is the marker.\<close>

lemma claimed_rows:
  assumes "server_inv d" and "next_queued (heartbeat_db d t0 identity) t0 identity = Some j"
    and "events_of d (jb_id j) \<in> {[], [dispatched_event (jb_id j)]}"
    and "d1 = claimed_db (heartbeat_db d t0 identity) t0 (jb_id j) delivery_id"
  shows "jb_target_id j = identity" and "jb_expires_at j > t0"
    and "find_job d1 (jb_id j) = Some (j \<lparr> jb_state := Dispatched, jb_delivery_id := Some delivery_id,
      jb_delivery_lease := Some (t0 + secs JOB_DELIVERY_LEASE_SECONDS) \<rparr>)"
    and "events_of d1 (jb_id j) = [dispatched_event (jb_id j)]"
proof -
  have j: "j \<in> set (db_jobs d)" "jb_target_id j = identity" "jb_expires_at j > t0"
    using next_queued_Some [OF assms(2)] by (simp_all add: heartbeat_db_def)
  then show "jb_target_id j = identity" "jb_expires_at j > t0" by simp_all
  have "find_job d (jb_id j) = Some j" using find_job_member assms(1) j(1) by (simp add: server_inv_def)
  then show "find_job d1 (jb_id j) = Some (j \<lparr> jb_state := Dispatched, jb_delivery_id := Some delivery_id,
      jb_delivery_lease := Some (t0 + secs JOB_DELIVERY_LEASE_SECONDS) \<rparr>)"
    by (subst find_job_updated [where d = d]) (simp_all add: assms(4) claimed_db_def heartbeat_db_def)
  have "(jb_id j, 0) \<in> set (map (\<lambda>e. (ev_job_id e, ev_sequence e)) (db_events d)) \<longleftrightarrow>
      events_of d (jb_id j) = [dispatched_event (jb_id j)]"
  proof -
    have "(jb_id j, 0) \<in> set (map (\<lambda>e. (ev_job_id e, ev_sequence e)) (db_events d)) \<longleftrightarrow>
        (\<exists>e \<in> set (events_of d (jb_id j)). ev_sequence e = 0)"
      by (force simp: events_of_def image_iff)
    with assms(3) show ?thesis by (auto simp: dispatched_event_def)
  qed
  with assms(3) show "events_of d1 (jb_id j) = [dispatched_event (jb_id j)]"
    by (auto simp: assms(4) claimed_db_def heartbeat_db_def events_of_def dispatched_event_def)
qed

text \<open>An event of the daemon that the server accepts.\<close>

lemma persist_accepted:
  assumes "se_parse_uuid E (jv_job_id event) = Some job" and "find_job d job = Some j"
    and "jb_target_id j = identity" and "jb_expires_at j > now"
    and "jb_state j \<in> {Acknowledged, Running}" and "jb_state j = Acknowledged \<longrightarrow> \<not> deadline_passed now (jb_execution_start j)"
    and "events_of d job = es" and "map ev_sequence es = map int [0..<length es]" and "\<not> list_ex ev_terminal es"
    and "jv_sequence event = of_nat (length es)" and "length es < 4096"
    and "jv_state event = Some state" and "state \<in> {Running, Succeeded, Failed}"
    and "jv_terminal event \<longleftrightarrow> state \<noteq> Running" and "state \<noteq> Failed \<longrightarrow> jv_exit_code event = 0"
    and "length (jv_output event) \<le> MAX_JOB_EVENT_OUTPUT_BYTES"
    and "sum_list (map (\<lambda>e. length (ev_output e)) es) + length (jv_output event) \<le> MAX_JOB_RETAINED_OUTPUT_BYTES"
  defines "e \<equiv> \<lparr> ev_job_id = job, ev_sequence = int (length es), ev_state = state, ev_output = jv_output event,
     ev_stderr = jv_stderr event, ev_exit_code = Some (jv_exit_code event), ev_terminal = jv_terminal event \<rparr>"
  shows "persist_job_event E d now identity event = Inr (persisted_db d job e)"
    and "find_job (persisted_db d job e) job = Some (j \<lparr> jb_state := state, jb_execution_start := None \<rparr>)"
    and "events_of (persisted_db d job e) job = es @ [e]"
proof -
  have seq: "uint (jv_sequence event) = int (length es)"
    using assms(10,11) by (simp add: uint_nat unat_of_nat take_bit_nat_eq_self)
  have "expected_sequence d job = int (length es)"
    using assms(7,8) by (simp add: expected_sequence_def fold_max_upt)
  moreover have "\<not> is_terminal_job_state (jb_state j)" using assms(5) by (auto simp: is_terminal_job_state_def)
  moreover have "validate_job_event_shape state (jv_terminal event) (jv_exit_code event) = Inr ()"
    using assms(13-15) by (auto simp: validate_job_event_shape_def is_terminal_job_state_def)
  moreover have "validate_job_transition (jb_state j) state = Inr ()"
    using assms(5,13) by (auto simp: validate_job_transition_def)
  moreover have "is_ok (job_state_name state)" using assms(13) by auto
  ultimately show "persist_job_event E d now identity event = Inr (persisted_db d job e)"
    using assms(1-4,6,7,9,11,12,16,17) seq
    by (auto simp: persist_job_event_def parse_uuid_def MAX_JOB_EVENTS_def retained_bytes_def e_def is_ok_iff)
  show "find_job (persisted_db d job e) job = Some (j \<lparr> jb_state := state, jb_execution_start := None \<rparr>)"
    by (subst find_job_updated [where d = d]) (simp_all add: persisted_db_def assms(2) e_def)
  show "events_of (persisted_db d job e) job = es @ [e]"
    using assms(7) by (simp add: events_of_def persisted_db_def e_def)
qed

text \<open>The three frames of the daemon, one after the other.\<close>

lemma server_accepts_run:
  assumes row: "find_job d1 job = Some j" "jb_target_id j = identity" "jb_state j = Dispatched"
      "jb_delivery_id j = Some delivery_id" "jb_delivery_lease j = Some (t0 + secs 60)"
    and events: "events_of d1 job = [dispatched_event job]"
    and parse: "se_parse_uuid (je_server J) job_text = Some job" "se_parse_uuid (je_server J) delivery_text = Some delivery_id"
    and times: "t1 < t0 + secs 60" "t2 < t1 + secs 60" "t1 < jb_expires_at j" "t2 < jb_expires_at j" "t3 < jb_expires_at j"
    and state: "state \<in> {Succeeded, Failed}" and small: "length output \<le> 64 * 1024"
    and note_length: "length note_bytes \<le> 1024"
    and frames: "JobPayload started = send_job_event job_text 1 Running note_bytes False"
      "JobPayload outcome = send_job_event job_text 2 state output True"
  shows "\<exists>d2 d3 d4 j'.
    handle_client_frame J d1 t1 identity (JobDeliveryAck job_text delivery_text) u1 v1 = (Inr [], d2) \<and>
    handle_client_frame J d2 t2 identity started u2 v2 = (Inr [], d3) \<and>
    handle_client_frame J d3 t3 identity outcome u3 v3 = (Inr [], d4) \<and>
    find_job d4 job = Some j' \<and> jb_state j' = state \<and>
    map ev_state (events_of d4 job) = [Dispatched, Running, state] \<and> ev_output (last (events_of d4 job)) = output"
proof -
  let ?ack = "\<lambda>r. r \<lparr> jb_state := Acknowledged, jb_delivery_id := None, jb_delivery_lease := None,
    jb_execution_start := Some (t1 + secs JOB_EXECUTION_START_LEASE_SECONDS) \<rparr>"
  let ?d2 = "d1 \<lparr> db_jobs := update_where (\<lambda>r. jb_id r = job) ?ack (db_jobs d1) \<rparr>"
  have d2: "handle_client_frame J d1 t1 identity (JobDeliveryAck job_text delivery_text) u1 v1 = (Inr [], ?d2)"
    using row parse times(1,3)
    by (simp add: handle_client_frame_def acknowledge_job_delivery_def parse_uuid_def deadline_passed_def)
  have j2: "find_job ?d2 job = Some (?ack j)"
    by (subst find_job_updated [where d = d1]) (simp_all add: row(1))
  have e2: "events_of ?d2 job = [dispatched_event job]" using events by (simp add: events_of_def)
  obtain ev where started: "started = JobEventFrame ev" "jv_job_id ev = job_text" "jv_sequence ev = 1"
    "jv_state ev = Some Running" "jv_output ev = note_bytes" "jv_exit_code ev = 0" "\<not> jv_terminal ev"
    using frames(1) by (auto simp: send_job_event_def)
  obtain ov where outcome: "outcome = JobEventFrame ov" "jv_job_id ov = job_text" "jv_sequence ov = 2"
    "jv_state ov = Some state" "jv_output ov = output" "state = Succeeded \<longrightarrow> jv_exit_code ov = 0" "jv_terminal ov"
    using frames(2) state by (auto simp: send_job_event_def)
  define e where "e = \<lparr> ev_job_id = job, ev_sequence = int (length [dispatched_event job]), ev_state = Running,
    ev_output = jv_output ev, ev_stderr = jv_stderr ev, ev_exit_code = Some (jv_exit_code ev), ev_terminal = jv_terminal ev \<rparr>"
  have acc3: "se_parse_uuid (je_server J) (jv_job_id ev) = Some job" using started parse by simp
  note p3 = persist_accepted [OF acc3 j2, where identity = identity and now = t2 and es = "[dispatched_event job]" and state = Running, folded e_def]
  have p3': "persist_job_event (je_server J) ?d2 t2 identity ev = Inr (persisted_db ?d2 job e)"
      "find_job (persisted_db ?d2 job e) job = Some (?ack j \<lparr> jb_state := Running, jb_execution_start := None \<rparr>)"
      "events_of (persisted_db ?d2 job e) job = [dispatched_event job] @ [e]"
    by (rule p3; use row times e2 started note_length in \<open>simp add: dispatched_event_def deadline_passed_def
        JOB_EXECUTION_START_LEASE_SECONDS_def MAX_JOB_EVENT_OUTPUT_BYTES_def MAX_JOB_RETAINED_OUTPUT_BYTES_def\<close>)+
  define o4 where "o4 = \<lparr> ev_job_id = job, ev_sequence = int (length [dispatched_event job, e]), ev_state = state,
    ev_output = jv_output ov, ev_stderr = jv_stderr ov, ev_exit_code = Some (jv_exit_code ov), ev_terminal = jv_terminal ov \<rparr>"
  have acc4: "se_parse_uuid (je_server J) (jv_job_id ov) = Some job" using outcome parse by simp
  note p4 = persist_accepted [OF acc4 p3'(2), where identity = identity and now = t3 and es = "[dispatched_event job, e]" and state = state, folded o4_def]
  have ev_e: "ev_sequence e = 1" "\<not> ev_terminal e" "length (ev_output e) \<le> 1024" "ev_state e = Running"
    using started note_length by (simp_all add: e_def)
  have p4': "persist_job_event (je_server J) (persisted_db ?d2 job e) t3 identity ov = Inr (persisted_db (persisted_db ?d2 job e) job o4)"
      "find_job (persisted_db (persisted_db ?d2 job e) job o4) job =
        Some (?ack j \<lparr> jb_state := Running, jb_execution_start := None \<rparr> \<lparr> jb_state := state, jb_execution_start := None \<rparr>)"
      "events_of (persisted_db (persisted_db ?d2 job e) job o4) job = [dispatched_event job, e] @ [o4]"
    by (rule p4; use row times p3'(3) outcome ev_e state small in \<open>auto simp: dispatched_event_def
        MAX_JOB_EVENT_OUTPUT_BYTES_def MAX_JOB_RETAINED_OUTPUT_BYTES_def\<close>)+
  show ?thesis
    using d2 p3'(1) p4' started(1) outcome(1,5) ev_e(4)
    by (intro exI [of _ ?d2] exI [of _ "persisted_db ?d2 job e"] exI [of _ "persisted_db (persisted_db ?d2 job e) job o4"])
      (simp add: handle_client_frame_def dispatched_event_def o4_def)
qed

section \<open>The job at the daemon\<close>

lemma daemon_delivers:
  assumes "de_grant_of V bs = Some sg" and "verify (de_crypto V) sg (de_key V) (de_identity V) tg = Inr ()"
    and "de_parse_uuid V (wj_id job) = Some (g_job_or_session_id (sg_grant sg))"
    and "wj_delivery_id job \<noteq> []" and "g_nonce (sg_grant sg) = wj_delivery_id job"
    and "wj_kind job = Some kind" and "expected_operation kind = Some (g_operation (sg_grant sg))"
    and "g_parameters_sha256 (sg_grant sg) = de_sha_hex V (wj_parameters_json job)"
    and "submit b \<lparr> br_signed_grant = sg, br_parameters_json = wj_parameters_json job \<rparr> = (Inr (WireOk response), b')"
  shows "\<exists>D. connect_once V submit (daemon_start, b) [FromServer tg (GrantReceived bs) c1, FromServer tj (JobReceived job) c2] =
    ([JobPayload (JobDeliveryAck (wj_id job) (wj_delivery_id job)),
      send_job_event (wj_id job) 1 Running (str_bytes ''executing via the privileged broker'') False,
      send_job_event (wj_id job) 2 (if bp_success response then Succeeded else Failed) (bp_output response) True],
     None, D, b')"
  using assms
  by (simp add: daemon_receive_def receive_grant_def daemon_start_def handle_job_def job_outcome_def
      MAX_PENDING_GRANTS_def Let_def)

section \<open>The whole path\<close>

text \<open>The three programs share keys, digest and identifiers.\<close>

definition deployed ::
  "('sk, 'vk, 'sig) job_env \<Rightarrow> ('sk, 'vk, 'sig) daemon_env \<Rightarrow> ('sk, 'vk, 'sig, 'w) exec_env \<Rightarrow> ('vk, 'w) executor \<Rightarrow> uuid \<Rightarrow> bool" where
  "deployed J V X ex identity \<longleftrightarrow> grant_crypto_ok (je_crypto J) \<and>
     de_crypto V = je_crypto J \<and> xe_crypto X = je_crypto J \<and>
     de_key V = ed_verifying_key (je_crypto J) (je_signing_key J) \<and> gv_signing_key (ex_verifier ex) = de_key V \<and>
     de_identity V = identity \<and> gv_device_id (ex_verifier ex) = identity \<and>
     de_sha_hex V = je_sha_hex J \<and> xe_sha X = je_sha_hex J \<and> de_parse_uuid V = se_parse_uuid (je_server J)"

lemma job_grant_verifies:
  assumes "grant_crypto_ok (je_crypto J)"
    and "sign (je_crypto J) (job_grant J t0 identity j operation ps grant_id delivery_id) (je_signing_key J) = Inr sg"
    and "t0 - secs 5 \<le> t" and "t \<le> t0 + secs 960"
  shows "verify (je_crypto J) sg (ed_verifying_key (je_crypto J) (je_signing_key J)) identity t = Inr ()"
  using assms sign_signature_valid [OF assms(1,2)]
  by (simp add: verify_ok_iff job_grant_def lifetime_ok_def JOB_GRANT_VALIDITY_SECONDS_def secs_def nanos_per_second_def)

text \<open>
  C1. A job runs from end to end: when a heartbeat hands out a job that has not started, the daemon gets
  grant and job, and the broker is ready for it, then the daemon passes the job to the broker, which
  starts its operation exactly once and on exactly the parameters sent; the three frames the daemon
  sends back are all accepted by the server, if they arrive within the leases; and the job ends as
  succeeded or failed as the operation did, with the events dispatched, running and that outcome, and
  the output of the operation in the last one.
\<close>

theorem job_end_to_end:
  assumes "server_inv d"
    and "handle_client_frame J d t0 identity Heartbeat delivery_id grant_id =
      (Inr [HeartbeatAck, SignedGrant sg, JobFrame m], d1)"
    and "events_of d (jm_id m) \<in> {[], [dispatched_event (jm_id m)]}"
    and "deployed J V X ex identity"
    and "\<forall>u \<in> {jm_id m, delivery_id}. je_uuid_text J u \<noteq> [] \<and> se_parse_uuid (je_server J) (je_uuid_text J u) = Some u"
    and "de_grant_of V bs = Some sg"
    and "wire_codec_ok w ser \<lparr> br_signed_grant = sg, br_parameters_json = jm_parameters_json m \<rparr> (WireOk response)"
    and "broker_ready X ex \<lparr> br_signed_grant = sg, br_parameters_json = jm_parameters_json m \<rparr> now"
    and "xe_run X (ex_world ex) (g_operation (sg_grant sg)) (jm_parameters_json m) = (Inr response, world)"
    and "length (bp_output response) \<le> 64 * 1024"
    and "t0 - secs 5 \<le> tg" and "tg \<le> t0 + secs 960" and "t0 - secs 5 \<le> now" and "now \<le> t0 + secs 960"
    and "t1 < t0 + secs 60" and "t2 < t1 + secs 60" and "\<forall>t \<in> {t1, t2, t3}. t < jm_expires_at m"
  shows "\<exists>D ex' ack started outcome d2 d3 d4 j.
    connect_once V (submit_to_broker w ser X True now wall) (daemon_start, ex)
      [FromServer tg (GrantReceived bs) c1, FromServer tj (JobReceived (wire_of_message (je_uuid_text J) m)) c2] =
      ([JobPayload ack, JobPayload started, JobPayload outcome], None, D, ex') \<and>
    ex_runs ex' = ex_runs ex @ [jm_id m] \<and> ex_world ex' = world \<and>
    handle_client_frame J d1 t1 identity ack u1 v1 = (Inr [], d2) \<and>
    handle_client_frame J d2 t2 identity started u2 v2 = (Inr [], d3) \<and>
    handle_client_frame J d3 t3 identity outcome u3 v3 = (Inr [], d4) \<and>
    find_job d4 (jm_id m) = Some j \<and> jb_state j = (if bp_success response then Succeeded else Failed) \<and>
    map ev_state (events_of d4 (jm_id m)) = [Dispatched, Running, jb_state j] \<and>
    ev_output (last (events_of d4 (jm_id m))) = bp_output response"
proof -
  let ?request = "\<lparr> br_signed_grant = sg, br_parameters_json = jm_parameters_json m \<rparr>"
  let ?job = "wire_of_message (je_uuid_text J) m"
  from heartbeat_claims [OF assms(2)] obtain j operation where
    j: "next_queued (heartbeat_db d t0 identity) t0 identity = Some j"
      "d1 = claimed_db (heartbeat_db d t0 identity) t0 (jb_id j) delivery_id"
    and op: "Jobs.grant_operation (job_kind_text (jb_kind j)) = Inr operation"
    and sg: "sign (je_crypto J) (job_grant J t0 identity j operation (jm_parameters_json m) grant_id delivery_id)
      (je_signing_key J) = Inr sg"
    and m: "jm_id m = jb_id j" "jm_kind m = job_kind_from_name (job_kind_text (jb_kind j))"
      "jm_delivery_id m = delivery_id" "jm_expires_at m = jb_expires_at j" .
  note dep = assms(4) [unfolded deployed_def]
  have g: "sg_grant sg = job_grant J t0 identity j operation (jm_parameters_json m) grant_id delivery_id"
    using sign_signature_valid(1) [OF _ sg] dep by blast
  have verified: "verify (je_crypto J) sg (de_key V) identity t = Inr ()" if "t0 - secs 5 \<le> t" "t \<le> t0 + secs 960" for t
    using job_grant_verifies [OF _ sg that] dep by simp
  obtain ex' where ex': "execute X True ex ?request now wall = (Inr response, ex')"
    "ex_runs ex' = ex_runs ex @ [jm_id m]" "ex_world ex' = world"
    using execute_fresh [OF assms(8), of response world wall] verified [OF assms(13,14)] dep assms(9,10) m(1)
    by (auto simp: g job_grant_def MAX_RECORDED_OUTPUT_BYTES_def)
  have submit: "submit_to_broker w ser X True now wall ex ?request = (Inr (WireOk response), ex')"
    by (rule submit_round_trip [OF assms(7) ex'(1)])
  let ?state = "if bp_success response then Succeeded else Failed"
  obtain D where D: "connect_once V (submit_to_broker w ser X True now wall) (daemon_start, ex)
      [FromServer tg (GrantReceived bs) c1, FromServer tj (JobReceived ?job) c2] =
    ([JobPayload (JobDeliveryAck (wj_id ?job) (wj_delivery_id ?job)),
      send_job_event (wj_id ?job) 1 Running (str_bytes ''executing via the privileged broker'') False,
      send_job_event (wj_id ?job) 2 ?state (bp_output response) True], None, D, ex')"
    using daemon_delivers [OF assms(6), of tg ?job "jm_kind m" "submit_to_broker w ser X True now wall" ex response ex' c1 tj c2]
      verified [OF assms(11,12)] dep assms(5) submit kind_operation [OF op] m
    by (auto simp: g job_grant_def wire_of_message_def)
  obtain started outcome where fr: "JobPayload started =
      send_job_event (wj_id ?job) 1 Running (str_bytes ''executing via the privileged broker'') False"
    "JobPayload outcome = send_job_event (wj_id ?job) 2 ?state (bp_output response) True"
    by (simp add: send_job_event_def)
  have "events_of d (jb_id j) \<in> {[], [dispatched_event (jb_id j)]}" using assms(3) m(1) by simp
  note rows = claimed_rows [OF assms(1) j(1) this j(2)]
  have len: "length (str_bytes ''executing via the privileged broker'') \<le> 1024" by (simp add: str_bytes_def)
  have "\<exists>d2 d3 d4 j'. handle_client_frame J d1 t1 identity (JobDeliveryAck (wj_id ?job) (wj_delivery_id ?job)) u1 v1 = (Inr [], d2) \<and>
      handle_client_frame J d2 t2 identity started u2 v2 = (Inr [], d3) \<and>
      handle_client_frame J d3 t3 identity outcome u3 v3 = (Inr [], d4) \<and>
      find_job d4 (jb_id j) = Some j' \<and> jb_state j' = ?state \<and>
      map ev_state (events_of d4 (jb_id j)) = [Dispatched, Running, ?state] \<and>
      ev_output (last (events_of d4 (jb_id j))) = bp_output response"
    by (rule server_accepts_run [OF rows(3) _ _ _ _ rows(4) _ _ assms(15,16) _ _ _ _ assms(10) len fr])
      (use rows(1) assms(5,17) m in \<open>simp_all add: wire_of_message_def JOB_DELIVERY_LEASE_SECONDS_def\<close>)
  then obtain d2 d3 d4 j' where fin: "handle_client_frame J d1 t1 identity
        (JobDeliveryAck (wj_id ?job) (wj_delivery_id ?job)) u1 v1 = (Inr [], d2)"
      "handle_client_frame J d2 t2 identity started u2 v2 = (Inr [], d3)"
      "handle_client_frame J d3 t3 identity outcome u3 v3 = (Inr [], d4)"
      "find_job d4 (jb_id j) = Some j'" "jb_state j' = ?state"
      "map ev_state (events_of d4 (jb_id j)) = [Dispatched, Running, ?state]"
      "ev_output (last (events_of d4 (jb_id j))) = bp_output response" by (elim exE conjE) (rule that)
  show ?thesis unfolding m(1)
    by (intro exI [of _ D] exI [of _ ex'] exI [of _ "JobDeliveryAck (wj_id ?job) (wj_delivery_id ?job)"]
        exI [of _ started] exI [of _ outcome] exI [of _ d2] exI [of _ d3] exI [of _ d4] exI [of _ j'] conjI)
      (use D ex'(2,3) fr fin m(1) in simp_all)
qed

section \<open>Witness\<close>

definition path_jobs :: "(byte, byte, bytes) job_env" where
  "path_jobs = demo_jobs \<lparr> je_uuid_text := (\<lambda>u. if u = 5 then ''5'' else ''70'') \<rparr>"

definition path_grant :: signed_grant where
  "path_grant = \<lparr> sg_grant = job_grant path_jobs (secs 1) 3 demo_job RestartMachine [123, 125] 71 70,
     sg_signature_base64 = b64_encode demo_crypto (9 # GRANT_DOMAIN @ [55, 48]) \<rparr>"

definition path_message :: job_message where
  "path_message = \<lparr> jm_id = 5, jm_target_id = 3, jm_kind = KindRestartMachine, jm_state = Dispatched,
     jm_parameters_json = [123, 125], jm_idempotency_key = 6, jm_expires_at = secs 1000, jm_delivery_id = 70 \<rparr>"

definition path_request :: broker_request where
  "path_request = \<lparr> br_signed_grant = path_grant, br_parameters_json = [123, 125] \<rparr>"

definition path_daemon :: "(byte, byte, bytes) daemon_env" where
  "path_daemon = \<lparr> de_crypto = demo_crypto, de_key = 9, de_identity = 3, de_grant_of = (\<lambda>_. Some path_grant),
     de_sha_hex = (\<lambda>_. ''44136fa3''), de_parse_uuid = se_parse_uuid demo_server, de_uuid_text = je_uuid_text path_jobs \<rparr>"

definition path_wire :: wire_codec where
  "path_wire = \<lparr> wc_value = (\<lambda>_. None), wc_request = (\<lambda>_. Some path_request), wc_result = (\<lambda>_. [2]),
     wc_decode_result = (\<lambda>_. Some (WireOk demo_response)), wc_message = (\<lambda>_. []) \<rparr>"

lemma path_claim:
  "handle_client_frame path_jobs demo_server_db (secs 1) 3 Heartbeat 70 71 =
     (Inr [HeartbeatAck, SignedGrant path_grant, JobFrame path_message],
      claimed_db (heartbeat_db demo_server_db (secs 1) 3) (secs 1) 5 70)"
proof -
  let ?d = "heartbeat_db demo_server_db (secs 1) 3"
  have n: "next_queued ?d (secs 1) 3 = Some demo_job"
    by (simp add: next_queued_def heartbeat_db_def demo_rows secs_def nanos_per_second_def)
  have t: "supports_typed_jobs ?d 3"
    by (simp add: supports_typed_jobs_def heartbeat_db_def update_where_def demo_rows)
  have "sign demo_crypto (job_grant path_jobs (secs 1) 3 demo_job RestartMachine [123, 125] 71 70) 9 = Inr path_grant"
    by (simp add: sign_def signing_payload_def demo_crypto_def path_grant_def job_grant_def path_jobs_def)
  then show ?thesis
    by (simp add: handle_client_frame_def claim_next_job_def n t Let_def job_kind_text_def Jobs.grant_operation_def
        job_kind_from_name_def path_message_def demo_job_def)
       (simp add: path_jobs_def demo_jobs_def demo_server_def quiet_audit_def)
qed

lemma path_ready: "broker_ready demo_env demo_executor path_request (secs 1)"
proof -
  have g: "job_of path_request = 5" "op_of path_request = RestartMachine" "g_id (sg_grant (br_signed_grant path_request)) = 71"
    by (simp_all add: path_request_def path_grant_def job_grant_def demo_job_def)
  have "length (unlines (map (record_line demo_codec) ([] @ [executing_record 5 RestartMachine (secs 1)]))) \<le> MAX_LEDGER_BYTES"
    using demo_marked_shape demo_marked_small by (auto simp: ledger_shape_def ledger_small_def split: option.splits)
  then have "\<exists>rs t gs. ledger_shape demo_codec empty_ledger rs t \<and> consumed_shape demo_codec empty_ledger gs \<and>
      a_lookup rs 5 (secs 1) = Inr None \<and>
      length (unlines (map (record_line demo_codec) (rs @ [executing_record 5 RestartMachine (secs 1)]))) \<le> MAX_LEDGER_BYTES"
    using empty_ledger_shape by (intro exI [of _ "[]"]) (auto simp: a_lookup_def find_record_def lookup_result_def)
  then show ?thesis
    using demo_codec_ok empty_ledger_shape
    by (simp add: broker_ready_def g gv_new_def MAX_REPLAY_ENTRIES_def)
qed

theorem job_end_to_end_witness:
  "\<exists>D ex' ack started outcome d2 d3 d4 j.
    connect_once path_daemon (submit_to_broker path_wire (\<lambda>_. [1]) demo_env True (secs 1) (secs 1)) (daemon_start, demo_executor)
      [FromServer (secs 1) (GrantReceived []) (Inr ()),
       FromServer (secs 1) (JobReceived (wire_of_message (je_uuid_text path_jobs) path_message)) (Inr ())] =
      ([JobPayload ack, JobPayload started, JobPayload outcome], None, D, ex') \<and>
    ex_runs ex' = [5] \<and>
    handle_client_frame path_jobs (claimed_db (heartbeat_db demo_server_db (secs 1) 3) (secs 1) 5 70) (secs 2) 3 ack 0 0 = (Inr [], d2) \<and>
    handle_client_frame path_jobs d2 (secs 3) 3 started 0 0 = (Inr [], d3) \<and>
    handle_client_frame path_jobs d3 (secs 4) 3 outcome 0 0 = (Inr [], d4) \<and>
    find_job d4 5 = Some j \<and> jb_state j = Succeeded"
proof -
  have dep: "deployed path_jobs path_daemon demo_env demo_executor 3"
    using demo_crypto_ok
    by (auto simp: deployed_def path_jobs_def path_daemon_def demo_jobs_def gv_new_def demo_crypto_def)
  have wire: "wire_codec_ok path_wire (\<lambda>_. [1]) path_request (WireOk demo_response)"
    by (simp add: wire_codec_ok_def path_wire_def MAX_WIRE_REQUEST_BYTES_def MAX_WIRE_RESPONSE_BYTES_def)
  have ids: "\<forall>u \<in> {jm_id path_message, 70}. je_uuid_text path_jobs u \<noteq> [] \<and>
      se_parse_uuid (je_server path_jobs) (je_uuid_text path_jobs u) = Some u"
    by (simp add: path_message_def path_jobs_def demo_jobs_def demo_server_def)
  have ev: "events_of demo_server_db (jm_id path_message) \<in> {[], [dispatched_event (jm_id path_message)]}"
    by (simp add: events_of_def demo_server_db_def)
  have req: "\<lparr> br_signed_grant = path_grant, br_parameters_json = jm_parameters_json path_message \<rparr> = path_request"
    by (simp add: path_request_def path_message_def)
  have run: "xe_run demo_env (ex_world demo_executor) (g_operation (sg_grant path_grant)) (jm_parameters_json path_message) =
      (Inr demo_response, ex_world demo_executor + 1)" by simp
  have grant: "de_grant_of path_daemon [] = Some path_grant" by (simp add: path_daemon_def)
  have succ: "bp_success demo_response" "length (bp_output demo_response) \<le> 64 * 1024"
    by (simp_all add: demo_response_def)
  have id: "jm_id path_message = 5" "jm_expires_at path_message = secs 1000" by (simp_all add: path_message_def)
  show ?thesis
    using job_end_to_end [OF demo_server_inv path_claim ev dep ids grant wire [folded req] path_ready [folded req] run succ(2),
        of "secs 1" "secs 2" "secs 3" "secs 4"] succ(1) id
    by (fastforce simp: secs_def nanos_per_second_def)
qed

end
