(* ===== verification/Grant_Confusion.thy ===== *)
theory Grant_Confusion
  imports Job_End_To_End
begin

text \<open>
  A grant of one kind at the handler of another: the broker's terminal handler checks signature,
  device, window, replay and parameter digest of a grant, but not its operation. Here is what that
  means across the programs.
\<close>

text \<open>
  C34. A grant for a job opens a root shell: the terminal handler of the broker does not look at the
  operation of the grant, and the server does not check the parameters of a job against its kind. So
  when an Admin starts any job, say a restart of the machine, whose parameters are those of an
  elevated session, the grant of its delivery opens an elevated terminal at the broker, given the
  password of root; no elevation challenge was issued or signed for it, and the operation of the grant
  is neither of the two shell operations.
\<close>

theorem job_grant_opens_shell:
  assumes "handle_client_frame J d t0 identity Heartbeat delivery_id grant_id =
      (Inr [HeartbeatAck, SignedGrant sg, JobFrame m], d1)"
    and "deployed J V X (bk_executor B) identity" and "t0 - secs 5 \<le> now" and "now \<le> t0 + secs 960"
    and "consumed_codec_ok (xe_codec X)" and "consumed_shape (xe_codec X) (ex_ledger (bk_executor B)) gs"
    and "grant_id \<notin> fst ` set gs" and "grant_id \<notin> gv_consumed (ex_verifier (bk_executor B))"
    and "length (gv_order (ex_verifier (bk_executor B))) < MAX_REPLAY_ENTRIES" and "length (bk_sessions B) < 8"
    and "ho_frame_of H open_bytes = Some (SessionOpen op)" and "xo_grant op = sg"
    and "b64_decode (xe_crypto X) (xo_parameters_base64 op) = Some (jm_parameters_json m)"
    and "ho_params_of H (jm_parameters_json m) = Some p" and "params_validate p = Inr ()"
    and "pa_privilege p = ''elevated''" and "pa_shell p = []" and "pa_credentials_sha256 p = []"
    and "ho_platform H = Linux" and "xo_account_user op = ''root''" and "\<not> xo_save_credentials op"
    and "decode_password (xe_crypto X) (xo_account_password_base64 op) = Inr (Some password)"
    and "validate_account_credentials H ''root'' password = Inr ()"
    and "\<forall>program args rows cols. ho_spawn H program args rows cols = Inr ()"
  shows "g_operation (sg_grant sg) \<notin> {OpenLowShell, OpenElevatedShell} \<and>
    fst (serve_open X H True B open_bytes now True) =
      Inr (SessionOpened (jm_id m) [], Some (p, ''/bin/bash'', []))"
proof -
  from heartbeat_claims [OF assms(1)] obtain j operation where
    oper: "Jobs.grant_operation (job_kind_text (jb_kind j)) = Inr operation"
    and sg: "sign (je_crypto J) (job_grant J t0 identity j operation (jm_parameters_json m) grant_id delivery_id)
      (je_signing_key J) = Inr sg" and m: "jm_id m = jb_id j" .
  note dep = assms(2) [unfolded deployed_def]
  let ?ex = "bk_executor B"
  have g: "sg_grant sg = job_grant J t0 identity j operation (jm_parameters_json m) grant_id delivery_id"
    using sign_signature_valid(1) [OF _ sg] dep by blast
  have no_shell: "operation \<notin> {OpenLowShell, OpenElevatedShell}"
    using oper by (auto simp: Jobs.grant_operation_def split: if_splits)
  have dec: "session_decode X H True open_bytes = Inr (op, p)"
    using assms(11-15) dep by (simp add: session_decode_def g job_grant_def)
  have fresh: "grant_was_consumed (xe_codec X) (ex_ledger ?ex) grant_id now = Inr False"
    using assms(7) load_consumed_shape [OF assms(5,6), of now]
    by (force simp: grant_was_consumed_def list_ex_iff)
  obtain v where v: "verify_and_consume (xe_crypto X) (ex_verifier ?ex) sg now = (Inr (), v)"
    using fresh_grant_consumed [of "xe_crypto X" sg "ex_verifier ?ex" now] job_grant_verifies [OF _ sg assms(3,4)] dep
      assms(8,9) by (auto simp: g job_grant_def)
  obtain L where L: "record_consumed_grant (xe_codec X) (ex_ledger ?ex) grant_id (g_expires_at (sg_grant sg)) = (Inr (), L)"
    using record_consumed_shape(1) [OF assms(6)] by (metis prod.collapse)
  obtain B' where B': "session_admit X H True B open_bytes now = (Inr (op, p), B')"
    using dec fresh v L assms(10,12)
    by (simp add: session_admit_def g job_grant_def Let_def reserve_def MAX_CONCURRENT_SESSIONS_def)
  have "session_prepare X H op p = Inr (''/bin/bash'', [])"
    using assms(16-24)
    by (simp add: session_prepare_def resolve_credentials_def named_user_def pty_open_def shell_command_def
        resolve_shell_executable_def LINUX_ALLOWED_SHELLS_def Let_def)
  then show ?thesis
    using B' no_shell assms(12) m by (simp add: serve_open_def Let_def g job_grant_def)
qed

definition confused_params :: session_params where
  "confused_params = demo_params \<lparr> pa_privilege := ''elevated'', pa_user := ''root'' \<rparr>"

definition confused_open :: session_open where
  "confused_open = demo_session_open \<lparr> xo_grant := path_grant, xo_parameters_base64 := b64_encode demo_crypto [123, 125],
     xo_account_user := ''root'', xo_account_password_base64 := ''pw'' \<rparr>"

definition confused_host :: session_host where
  "confused_host = demo_host \<lparr> ho_frame_of := (\<lambda>_. Some (SessionOpen confused_open)),
     ho_params_of := (\<lambda>_. Some confused_params), ho_authenticate := (\<lambda>_ _. Inr ()) \<rparr>"

theorem job_grant_opens_shell_witness:
  "g_operation (sg_grant path_grant) = RestartMachine \<and>
   fst (serve_open demo_env confused_host True demo_broker [0] (secs 2) True) =
     Inr (SessionOpened 5 [], Some (confused_params, ''/bin/bash'', []))"
proof -
  have dep: "deployed path_jobs path_daemon demo_env (bk_executor demo_broker) 3"
    using demo_crypto_ok
    by (auto simp: deployed_def path_jobs_def path_daemon_def demo_jobs_def gv_new_def demo_crypto_def demo_broker_def)
  have "consumed_shape demo_codec (ex_ledger (bk_executor demo_broker)) []"
    by (simp add: demo_broker_def consumed_shape_def empty_ledger_def)
  moreover have "b64_decode demo_crypto (b64_encode demo_crypto bs) = Some bs" for bs
    using demo_crypto_ok by (simp add: grant_crypto_ok_def)
  moreover have "decode_password demo_crypto ''pw'' = Inr (Some ''pw'')"
    by code_simp
  moreover have "validate_account_credentials confused_host ''root'' ''pw'' = Inr ()" by code_simp
  moreover have "params_validate confused_params = Inr ()"
    by (simp add: params_validate_def confused_params_def demo_params_def)
  ultimately have "fst (serve_open demo_env confused_host True demo_broker [0] (secs 2) True) =
     Inr (SessionOpened (jm_id path_message) [], Some (confused_params, ''/bin/bash'', []))"
    using job_grant_opens_shell [OF path_claim dep, of "secs 2" "[]" confused_host "[0]" confused_open confused_params "''pw''"]
    by (simp add: secs_def nanos_per_second_def demo_consumed_codec_ok demo_broker_def gv_new_def MAX_REPLAY_ENTRIES_def
        confused_host_def confused_open_def confused_params_def demo_host_def demo_session_open_def demo_params_def path_message_def)
  moreover have "g_operation (sg_grant path_grant) = RestartMachine" by (simp add: path_grant_def job_grant_def)
  ultimately show ?thesis by (simp add: path_message_def)
qed

end
