(* ===== verification/Spec2Isabelle.thy ===== *)
theory Spec2Isabelle
  imports Grant_Verifier Broker_Executor Wire_Frames Identity_Safety Job_Safety Shell_Handshake Grant_Confusion
begin

text \<open>
  CentralD: remote administration with signed grants.

  \<^bold>\<open>The program.\<close> A server (\<^verbatim>\<open>src/crates/centrald-server\<close>) keeps identities, jobs, shell sessions and an
  audit chain in PostgreSQL and answers the RPCs of Admin applications (\<^verbatim>\<open>src/apps/admin\<close>) and of
  client machines. On a client machine (\<^verbatim>\<open>src/crates/centrald-client\<close>) an unprivileged daemon holds the
  control stream to the server and hands each job, with the grant that the server signed for it, to a
  privileged broker. The broker trusts the signature, not the daemon: it verifies and consumes the
  grant, looks the job up in its ledger, runs a fixed operation and records the result.
  \<^verbatim>\<open>src/crates/centrald-common\<close> holds the grants and the enrollment tokens,
  \<^verbatim>\<open>src/crates/centrald-platform\<close> the replay set of the broker.

  \<^bold>\<open>The theories.\<close> Each theory names its source file at its top; the definitions are in the order of
  that file and keep its names.

  \<^item> \<open>CentralD_Prelude\<close>: identifiers, instants, bytes, JSON values, result types and the lemmas on
    lists, maps and sums that several theories share.
  \<^item> \<open>Grants\<close> (\<^verbatim>\<open>centrald-common/src/grant.rs\<close>) and \<open>Grant_Verifier\<close>
    (\<^verbatim>\<open>centrald-platform/src/broker.rs\<close>): a grant, its signature, the window in which it verifies, and
    the bounded set of consumed grants. Signing and verifying agree exactly; a grant is accepted at
    most once before it expires (the locale \<open>replay_guard\<close>), and a second time at that very instant.
  \<^item> \<open>Journal\<close>, \<open>Ledger\<close> (\<^verbatim>\<open>centrald-client/src/ledger.rs\<close>): the two journals of the broker as bytes.
    The abstract ledger is the list of committed records; appending, reading with recovery of a torn
    tail, and compaction implement it.
  \<^item> \<open>Broker_Executor\<close> (\<^verbatim>\<open>centrald-client/src/broker.rs\<close>): \<^verbatim>\<open>execute\<close> cut at its locks, crashes between
    any two writes, restarts. No operation of a job is started twice; results are replayed.
  \<^item> \<open>Wire_Frames\<close> (\<^verbatim>\<open>broker.rs\<close>, \<^verbatim>\<open>broker_session.rs\<close>): length-prefixed frames and the connections of the
    broker, as byte streams cut into chunks.
  \<^item> \<open>Audit_Chain\<close> (\<^verbatim>\<open>services.rs\<close>, \<^verbatim>\<open>audit_export.rs\<close>, \<^verbatim>\<open>local_audit.rs\<close>) and \<open>Invitation\<close>
    (\<^verbatim>\<open>centrald-common/src/enrollment.rs\<close>): the hash chain (the locale \<open>hash_chain\<close>) with its exports, and the enrollment token.
  \<^item> \<open>Server_Db\<close> (\<^verbatim>\<open>migrations/0001_initial.sql\<close>): the tables as lists of row records, with the
    constraints of the schema; \<open>Identities\<close> and \<open>Jobs\<close> (\<^verbatim>\<open>services.rs\<close>): the RPC handlers on them, every
    branch. A handler that is not one transaction returns its status beside the database.
  \<^item> \<open>Runs\<close>: the locales of a guarded transition system (\<open>guarded_system\<close>) and of an event that a run
    has at most once (\<open>one_shot\<close>); \<open>Control_Plane\<close> makes the handlers the steps of such a system, and
    \<open>Identity_Safety\<close> and \<open>Job_Safety\<close> interpret the locales on it: the properties there hold over
    every interleaving of transactions.
  \<^item> \<open>Shells\<close>, \<open>Shell_Relay\<close>, \<open>Shell_Safety\<close>, \<open>Shell_Handshake\<close> (\<^verbatim>\<open>shell.rs\<close>, \<^verbatim>\<open>services.rs\<close>, and
    \<^verbatim>\<open>shell.rs\<close> of the Admin application): elevation challenges, the registries in memory, opening,
    relaying and ending a session, the control stream, and the opening handshake of the two programs.
  \<^item> \<open>Broker_Session\<close> (\<^verbatim>\<open>broker_session.rs\<close>, \<^verbatim>\<open>ptys.rs\<close>, \<^verbatim>\<open>auth.rs\<close> of the client): the terminal sessions
    of the broker. A session opens only for a fresh grant over its parameters; its three threads are
    the steps of \<open>run_session\<close>, the bytes they pass are bounded, and the watchdog ends them.
  \<^item> \<open>Client_Daemon\<close> (\<^verbatim>\<open>daemon.rs\<close>): the control connection of the client, the grants it holds, jobs,
    terminals and their relays, and the reconnect loop. The broker is an argument: a function from a
    request to its answer and the next state.
  \<^item> \<open>Job_End_To_End\<close>: that argument is the broker behind its framed channel; a job that the server
    claims is executed, and the events of the daemon complete it in the database. \<open>Grant_Confusion\<close>:
    the grant of such a job also opens a terminal.
  \<^item> \<open>Server_Demo\<close>: concrete states on which the witnesses evaluate the handlers.

  \<^bold>\<open>Conventions.\<close> Ed25519, SHA-256, Argon2id, Base64, JSON, PAM and certificate issuance are
  parameters, fields of a record that the definitions take; what a theorem relies on of them is a
  named hypothesis (for example that signatures verify under the matching key), and its witness has
  them instantiated by concrete functions. A UUID is a 128-bit word, an instant an integer number of
  nanoseconds, a string a list of UTF-8 bytes or of characters where only equality matters. Counters
  that the code keeps in machine integers are words of that width. Random values are arguments. Errors
  are the left summand. A \<^verbatim>\<open>select!\<close> is a step function whose event says which branch completed, and a
  mutex is the boundary of a step, so that sequences of steps are the interleavings of the threads.

  \<^bold>\<open>Bounds.\<close> No definition has fuel: loops recur on their input (records of a journal, chunks of a
  stream, events of a relay) or on a measure. The journal of the broker is assumed to stay below its
  compaction bound where a theorem says so (\<open>run_small\<close>); compaction has theorems of its own.

  \<^bold>\<open>Not modelled.\<close> Installation and removal (\<^verbatim>\<open>setup.rs\<close>, \<^verbatim>\<open>setup_recovery.rs\<close>, \<^verbatim>\<open>nuke.rs\<close>,
  \<^verbatim>\<open>local_postgres.rs\<close>, \<^verbatim>\<open>firewall.rs\<close>), the local command line (\<^verbatim>\<open>manage.rs\<close>, \<^verbatim>\<open>wizard.rs\<close>), updates,
  the file-system layer (\<^verbatim>\<open>secure_fs.rs\<close>, \<^verbatim>\<open>unix_state.rs\<close>, \<^verbatim>\<open>vault.rs\<close>), certificate generation
  (\<^verbatim>\<open>centrald-pki\<close>) and the user interface: their effects are on files, services and packages of the
  operating system. Failures of database I/O, poisoned locks and allocation failures are not modelled.
\<close>

end
